theory Spec2Isabelle
  imports Main "HOL-Library.AList" "HOL-Library.Sublist"
    "HOL-Library.List_Lexorder" "HOL-Library.Char_ord"
begin

section \<open>The caller and the platform\<close>

text \<open>
  Every service function reads three ambient values: whether the S3 client was
  configured at module load (\<open>initialized && s3Client\<close>), the signed-in user
  (\<open>getCurrentUser()\<close>, \<open>null\<close> when nobody is signed in) and the clock
  (\<open>new Date().toISOString()\<close>). They are the fields of \<open>env\<close>. Two functions of
  the platform's \<open>Date\<close> are fields as well: \<open>getTime\<close> stands for
  \<open>new Date(s).getTime()\<close> (\<open>None\<close> is \<open>NaN\<close>) and \<open>toLocaleString\<close> for
  \<open>new Date(s).toLocaleString()\<close>; \<open>getSignedUrl\<close> is the presigner (key and lifetime).
  All reads of the clock inside one call of a service function give the same value.

  Results \<open>{success: false, error: msg}\<close> are \<open>Inl msg\<close>, results
  \<open>{success: true, ...}\<close> are \<open>Inr\<close> of the payload.
\<close>

record user =
  uid :: string
  email :: "string option"
  displayName :: "string option"

record env =
  initialized :: bool
  currentUser :: "user option"
  now :: string
  getTime :: "string \<Rightarrow> int option"
  toLocaleString :: "string \<Rightarrow> string"
  getSignedUrl :: "string \<Rightarrow> nat \<Rightarrow> string"

section \<open>Text encoding: \<open>TextEncoder\<close> and \<open>TextDecoder\<close>\<close>

text \<open>
  File content is a JavaScript string, a list of UTF-16 code units (numbers below
  \<open>0x10000\<close>); what the object store holds is a list of bytes (numbers below \<open>0x100\<close>).
  \<open>new TextEncoder().encode(s)\<close> first replaces every unpaired surrogate by U+FFFD and
  joins surrogate pairs (\<open>scalars\<close>), then writes each scalar value in UTF-8.
  \<open>new TextDecoder().decode(bytes)\<close> is the UTF-8 decoder of the Encoding standard: a
  malformed sequence gives one U+FFFD and decoding resumes at the offending byte; with the
  default \<open>ignoreBOM: false\<close> a leading U+FEFF is dropped from the output.
\<close>

type_synonym byte = nat
type_synonym jsstring = "nat list"

definition isHigh :: "nat \<Rightarrow> bool" where
  "isHigh c = (0xD800 \<le> c \<and> c \<le> 0xDBFF)"

definition isLow :: "nat \<Rightarrow> bool" where
  "isLow c = (0xDC00 \<le> c \<and> c \<le> 0xDFFF)"

definition utf8_bytes :: "nat \<Rightarrow> byte list" where
  "utf8_bytes c =
    (if c < 0x80 then [c]
     else if c < 0x800 then [0xC0 + c div 64, 0x80 + c mod 64]
     else if c < 0x10000 then [0xE0 + c div 4096, 0x80 + (c div 64) mod 64, 0x80 + c mod 64]
     else [0xF0 + c div 262144, 0x80 + (c div 4096) mod 64, 0x80 + (c div 64) mod 64,
           0x80 + c mod 64])"

fun scalars :: "jsstring \<Rightarrow> nat list" where
  "scalars [] = []"
| "scalars [c] = [if isHigh c \<or> isLow c then 0xFFFD else c]"
| "scalars (c # d # cs) =
    (if isHigh c \<and> isLow d then (0x10000 + (c - 0xD800) * 1024 + (d - 0xDC00)) # scalars cs
     else (if isHigh c \<or> isLow c then 0xFFFD else c) # scalars (d # cs))"

definition TextEncoder_encode :: "jsstring \<Rightarrow> byte list" where
  "TextEncoder_encode s = concat (map utf8_bytes (scalars s))"

definition cont :: "nat \<Rightarrow> bool" where
  "cont b = (0x80 \<le> b \<and> b \<le> 0xBF)"

text \<open>One step of the decoder: the code point and how many further bytes it used.\<close>

definition utf8_step :: "byte \<Rightarrow> byte list \<Rightarrow> nat \<times> nat" where
  "utf8_step b bs =
    (if b < 0x80 then (b, 0)
     else if 0xC2 \<le> b \<and> b \<le> 0xDF then
       (case bs of
          b2 # r \<Rightarrow> if cont b2 then ((b - 0xC0) * 64 + (b2 - 0x80), 1) else (0xFFFD, 0)
        | [] \<Rightarrow> (0xFFFD, 0))
     else if 0xE0 \<le> b \<and> b \<le> 0xEF then
       (case bs of
          b2 # r \<Rightarrow>
            if (if b = 0xE0 then 0xA0 else 0x80) \<le> b2 \<and> b2 \<le> (if b = 0xED then 0x9F else 0xBF) then
              (case r of
                 b3 # r' \<Rightarrow>
                   if cont b3 then ((b - 0xE0) * 4096 + (b2 - 0x80) * 64 + (b3 - 0x80), 2)
                   else (0xFFFD, 1)
               | [] \<Rightarrow> (0xFFFD, 1))
            else (0xFFFD, 0)
        | [] \<Rightarrow> (0xFFFD, 0))
     else if 0xF0 \<le> b \<and> b \<le> 0xF4 then
       (case bs of
          b2 # r \<Rightarrow>
            if (if b = 0xF0 then 0x90 else 0x80) \<le> b2 \<and> b2 \<le> (if b = 0xF4 then 0x8F else 0xBF) then
              (case r of
                 b3 # r' \<Rightarrow>
                   if cont b3 then
                     (case r' of
                        b4 # r'' \<Rightarrow>
                          if cont b4
                          then ((b - 0xF0) * 262144 + (b2 - 0x80) * 4096 + (b3 - 0x80) * 64
                                 + (b4 - 0x80), 3)
                          else (0xFFFD, 2)
                      | [] \<Rightarrow> (0xFFFD, 2))
                   else (0xFFFD, 1)
               | [] \<Rightarrow> (0xFFFD, 1))
            else (0xFFFD, 0)
        | [] \<Rightarrow> (0xFFFD, 0))
     else (0xFFFD, 0))"

function utf8_decode :: "byte list \<Rightarrow> nat list" where
  "utf8_decode [] = []"
| "utf8_decode (b # bs) = fst (utf8_step b bs) # utf8_decode (drop (snd (utf8_step b bs)) bs)"
  by pat_completeness auto
termination
  by (relation "measure length") auto

definition utf16_units :: "nat \<Rightarrow> nat list" where
  "utf16_units c =
    (if c < 0x10000 then [c]
     else [0xD800 + (c - 0x10000) div 1024, 0xDC00 + (c - 0x10000) mod 1024])"

definition stripBOM :: "nat list \<Rightarrow> nat list" where
  "stripBOM cs = (case cs of [] \<Rightarrow> [] | c # r \<Rightarrow> if c = 0xFEFF then r else cs)"

definition TextDecoder_decode :: "byte list \<Rightarrow> jsstring" where
  "TextDecoder_decode bs = concat (map utf16_units (stripBOM (utf8_decode bs)))"

fun wellFormed :: "jsstring \<Rightarrow> bool" where
  "wellFormed [] = True"
| "wellFormed [c] = (c < 0x10000 \<and> \<not> isHigh c \<and> \<not> isLow c)"
| "wellFormed (c # d # cs) =
    (if isHigh c then isLow d \<and> wellFormed cs
     else c < 0x10000 \<and> \<not> isLow c \<and> wellFormed (d # cs))"

definition scalarValue :: "nat \<Rightarrow> bool" where
  "scalarValue c = (c < 0x110000 \<and> \<not> (0xD800 \<le> c \<and> c \<le> 0xDFFF))"




section \<open>The object store\<close>

text \<open>
  The bucket is a flat key space. An object has a body, a content type, the descriptor
  bag (\<open>Metadata\<close>) and the time of its last write. Two kinds of bodies are written by
  the code: bytes (file content through \<open>TextEncoder\<close>, or an \<open>ArrayBuffer\<close>) and JSON
  documents (\<open>JSON.stringify\<close> of an object whose properties are strings). A JSON
  document is kept as the object it was written from, a list of properties in insertion
  order; \<open>JSON.parse\<close> gives that object back, and throws on a body that was not
  written as JSON. Reading a JSON body as text gives \<open>JSON_stringify\<close> of it.

  The store itself never fails in this model: \<open>PutObject\<close> always succeeds and
  \<open>GetObject\<close> throws \<open>NoSuchKey\<close> exactly on a missing key. \<open>ListObjectsV2\<close>
  answers with one page: the keys under the prefix in ascending order, at most 1000 of
  them (no call of this code sets \<open>MaxKeys\<close>), and the code never asks for the page
  after it (no \<open>ContinuationToken\<close>, \<open>IsTruncated\<close> is not read).
\<close>

type_synonym jsobj = "(string \<times> string) list"

datatype body = Bytes "byte list" | Json jsobj

record s3object =
  Body :: body
  ContentType :: string
  Metadata :: "(string \<times> string) list"
  LastModified :: string

type_synonym bucket = "(string \<times> s3object) list"

definition hexDigit :: "nat \<Rightarrow> nat" where
  "hexDigit n = (if n < 10 then 48 + n else 87 + n)"

text \<open>\<open>QuoteJSONString\<close> of ECMAScript, on the code units of a string.\<close>

definition quoteUnit :: "nat \<Rightarrow> nat list" where
  "quoteUnit n =
    (if n = 8 then [92, 98] else if n = 9 then [92, 116] else if n = 10 then [92, 110]
     else if n = 12 then [92, 102] else if n = 13 then [92, 114]
     else if n = 34 then [92, 34] else if n = 92 then [92, 92]
     else if n < 32 then [92, 117, 48, 48, hexDigit (n div 16), hexDigit (n mod 16)]
     else [n])"

definition QuoteJSONString :: "string \<Rightarrow> jsstring" where
  "QuoteJSONString s = 34 # concat (map (\<lambda>c. quoteUnit (of_char c)) s) @ [34]"

fun joinWith :: "nat \<Rightarrow> nat list list \<Rightarrow> nat list" where
  "joinWith sep [] = []"
| "joinWith sep [x] = x"
| "joinWith sep (x # y # xs) = x @ sep # joinWith sep (y # xs)"

definition JSON_stringify :: "jsobj \<Rightarrow> jsstring" where
  "JSON_stringify ps =
     123 # joinWith 44 (map (\<lambda>(k, v). QuoteJSONString k @ 58 # QuoteJSONString v) ps) @ [125]"

definition bodyBytes :: "body \<Rightarrow> byte list" where
  "bodyBytes bd = (case bd of Bytes bs \<Rightarrow> bs | Json j \<Rightarrow> TextEncoder_encode (JSON_stringify j))"

text \<open>\<open>JSON.parse\<close> of a body read back as text; \<open>None\<close> is the \<open>SyntaxError\<close>.\<close>

definition JSON_parse :: "body \<Rightarrow> jsobj option" where
  "JSON_parse bd = (case bd of Bytes bs \<Rightarrow> None | Json j \<Rightarrow> Some j)"

definition GetObject :: "bucket \<Rightarrow> string \<Rightarrow> s3object option" where
  "GetObject b k = map_of b k"

definition PutObject ::
  "env \<Rightarrow> string \<Rightarrow> body \<Rightarrow> string \<Rightarrow> (string \<times> string) list \<Rightarrow> bucket \<Rightarrow> bucket" where
  "PutObject e k bd ct md b =
     AList.update k \<lparr>Body = bd, ContentType = ct, Metadata = md, LastModified = now e\<rparr> b"

text \<open>The keys of the bucket that begin with a prefix, in ascending order.\<close>

definition keysUnder :: "bucket \<Rightarrow> string \<Rightarrow> string list" where
  "keysUnder b p = sort (remdups (filter (prefix p) (map fst b)))"

definition ListObjectsV2 :: "bucket \<Rightarrow> string \<Rightarrow> string list" where
  "ListObjectsV2 b p = take 1000 (keysUnder b p)"

text \<open>
  With \<open>Delimiter: '/'\<close> the keys that have a further \<open>/\<close> after the prefix are rolled
  up into their common prefix, which counts as one element of the page; \<open>Contents\<close> are
  the elements of the page that are keys.
\<close>

definition rolledUp :: "string \<Rightarrow> string \<Rightarrow> string" where
  "rolledUp p k =
    (let rest = drop (length p) k
     in if CHR ''/'' \<in> set rest then p @ takeWhile (\<lambda>c. c \<noteq> CHR ''/'') rest @ ''/'' else k)"

definition ListObjectsV2_delimited :: "bucket \<Rightarrow> string \<Rightarrow> string list" where
  "ListObjectsV2_delimited b p =
     filter (\<lambda>k. CHR ''/'' \<notin> set (drop (length p) k))
       (take 1000 (sort (remdups (map (rolledUp p) (filter (prefix p) (map fst b))))))"

definition NoSuchKey_message :: string where
  "NoSuchKey_message = ''The specified key does not exist.''"

section \<open>JavaScript helpers\<close>

text \<open>\<open>a || b\<close> on a string that may be \<open>null\<close> or \<open>undefined\<close> (\<open>None\<close>).\<close>

definition js_or :: "string option \<Rightarrow> string \<Rightarrow> string" where
  "js_or a b = (case a of None \<Rightarrow> b | Some s \<Rightarrow> if s = [] then b else s)"

text \<open>A template literal \<open>${x}\<close> of a string that may be \<open>null\<close>, or \<open>undefined\<close>.\<close>

definition tmplNull :: "string option \<Rightarrow> string" where
  "tmplNull a = (case a of None \<Rightarrow> ''null'' | Some s \<Rightarrow> s)"

definition tmplUndefined :: "string option \<Rightarrow> string" where
  "tmplUndefined a = (case a of None \<Rightarrow> ''undefined'' | Some s \<Rightarrow> s)"

text \<open>\<open>s.split('/')\<close>, \<open>s.includes(t)\<close>, \<open>s.replace(pat, '')\<close> (first occurrence only).\<close>

fun js_split :: "char \<Rightarrow> string \<Rightarrow> string list" where
  "js_split c [] = [[]]"
| "js_split c (x # xs) =
    (if x = c then [] # js_split c xs
     else (case js_split c xs of [] \<Rightarrow> [[x]] | p # ps \<Rightarrow> (x # p) # ps))"

fun js_includes :: "string \<Rightarrow> string \<Rightarrow> bool" where
  "js_includes [] t = (t = [])"
| "js_includes (c # s) t = (prefix t (c # s) \<or> js_includes s t)"

fun js_remove_first :: "string \<Rightarrow> string \<Rightarrow> string" where
  "js_remove_first pat [] = []"
| "js_remove_first pat (c # s) =
    (if prefix pat (c # s) then drop (length pat) (c # s) else c # js_remove_first pat s)"

definition toLowerCase :: "string \<Rightarrow> string" where
  "toLowerCase s =
     map (\<lambda>c. if CHR ''A'' \<le> c \<and> c \<le> CHR ''Z'' then char_of (of_char c + (32::nat)) else c) s"

text \<open>
  \<open>arr.sort(cmp)\<close>: a stable sort. A comparator result \<open>NaN\<close> counts as \<open>0\<close>; the
  comparators of this code return \<open>NaN\<close> only on a timestamp that does not parse.
\<close>

fun insertSorted :: "('a \<Rightarrow> 'a \<Rightarrow> int) \<Rightarrow> 'a \<Rightarrow> 'a list \<Rightarrow> 'a list" where
  "insertSorted cmp x [] = [x]"
| "insertSorted cmp x (y # ys) =
    (if cmp x y \<le> 0 then x # y # ys else y # insertSorted cmp x ys)"

definition js_sort :: "('a \<Rightarrow> 'a \<Rightarrow> int) \<Rightarrow> 'a list \<Rightarrow> 'a list" where
  "js_sort cmp xs = foldr (insertSorted cmp) xs []"

text \<open>
  \<open>(a, b) => new Date(b.timestamp).getTime() - new Date(a.timestamp).getTime()\<close>,
  the comparator of both history listings.
\<close>

definition timestampTime :: "env \<Rightarrow> jsobj \<Rightarrow> int option" where
  "timestampTime e a = (case map_of a ''timestamp'' of None \<Rightarrow> None | Some s \<Rightarrow> getTime e s)"

definition byDateDesc :: "env \<Rightarrow> jsobj \<Rightarrow> jsobj \<Rightarrow> int" where
  "byDateDesc e a b =
    (case timestampTime e b of
       None \<Rightarrow> 0
     | Some tb \<Rightarrow> (case timestampTime e a of None \<Rightarrow> 0 | Some ta \<Rightarrow> tb - ta))"

section \<open>Repository registry (repositoryService.ts)\<close>

text \<open>
  \<open>interface Repository\<close>. The document stored in the \<open>repositories\<close> collection
  has the same shape; \<open>repo_id\<close> is the interface's optional \<open>id\<close> (the name \<open>id\<close> is
  taken in HOL), \<open>collaborators\<close> and \<open>forkedFrom\<close> are optional as in the source.
\<close>

record Repository =
  repo_id :: "string option"
  name :: string
  description :: string
  ownerId :: string
  createdAt :: string
  updatedAt :: string
  isPublic :: bool
  collaborators :: "string list option"
  forkedFrom :: "string option"

text \<open>\<open>repository.collaborators?.includes(uid)\<close>: \<open>undefined\<close> (falsy) without a list.\<close>

definition includesOpt :: "string list option \<Rightarrow> string \<Rightarrow> bool" where
  "includesOpt cs u = (case cs of None \<Rightarrow> False | Some xs \<Rightarrow> u \<in> set xs)"

text \<open>
  \<open>getRepository(id)\<close>. The collection is a map from document ids to documents;
  \<open>{ id: repoDoc.id, ...repoDoc.data() }\<close> lets a stored \<open>id\<close> field override the
  document id.
\<close>

definition getRepository :: "env \<Rightarrow> string \<Rightarrow> (string \<rightharpoonup> Repository) \<Rightarrow> string + Repository" where
  "getRepository e i repos =
    (case currentUser e of
       None \<Rightarrow> Inl ''User not authenticated''
     | Some u \<Rightarrow>
        (case repos i of
           None \<Rightarrow> Inl ''Repository not found''
         | Some d \<Rightarrow>
            (let repository = d\<lparr>repo_id := Some (case repo_id d of None \<Rightarrow> i | Some x \<Rightarrow> x)\<rparr> in
             if \<not> isPublic repository \<and> ownerId repository \<noteq> uid u
                \<and> \<not> includesOpt (collaborators repository) (uid u)
             then Inr \<lparr>repo_id = repo_id repository,
                       name = name repository,
                       description = description repository,
                       ownerId = ownerId repository,
                       createdAt = createdAt repository,
                       updatedAt = updatedAt repository,
                       isPublic = False,
                       collaborators = Some [],
                       forkedFrom = None\<rparr>
             else Inr repository)))"

section \<open>Documents: pull requests, notifications, the world\<close>

text \<open>
  \<open>interface PullRequest\<close> (pullRequestService.ts). Fields whose names other records use
  carry the prefix \<open>pr_\<close>; \<open>createdBy\<close> is the nested object \<open>{id, name, email}\<close>.
\<close>

datatype prStatus = Open | Merged | Rejected | Closed

definition statusString :: "prStatus \<Rightarrow> string" where
  "statusString s =
    (case s of Open \<Rightarrow> ''open'' | Merged \<Rightarrow> ''merged'' | Rejected \<Rightarrow> ''rejected'' | Closed \<Rightarrow> ''closed'')"

record creator =
  creator_id :: string
  creator_name :: string
  creator_email :: string

record PullRequest =
  title :: string
  pr_description :: string
  sourceRepoId :: string
  sourceRepoName :: string
  targetRepoId :: string
  targetRepoName :: string
  targetOwnerId :: string
  sourceBranch :: "string option"
  targetBranch :: "string option"
  status :: prStatus
  pr_createdAt :: string
  pr_updatedAt :: string
  createdBy :: creator
  changedFiles :: "string list option"

text \<open>
  A document of the \<open>notifications\<close> collection. \<open>n_createdBy\<close> is set by
  \<open>createNotification\<close> only; the pull-request service writes its notifications without it.
\<close>

record notification =
  userId :: string
  ntype :: string
  message :: string
  details :: jsobj
  read :: bool
  n_createdAt :: string
  n_createdBy :: "string option"

text \<open>
  The state the services act on: the bucket and three collections of the document store.
  \<open>addDoc\<close> appends; the generated document ids of notifications play no role and are
  left out. The document store never fails in this model (\<open>getDoc\<close> of a missing id
  reports that the document does not exist).
\<close>

record world =
  bucket :: bucket
  repositories :: "string \<rightharpoonup> Repository"
  pullRequests :: "string \<rightharpoonup> PullRequest"
  notifications :: "notification list"

text \<open>\<open>createNotification\<close> (notificationService.ts); \<open>userId\<close> may be \<open>undefined\<close>.\<close>

definition createNotification ::
  "env \<Rightarrow> string option \<Rightarrow> string \<Rightarrow> string \<Rightarrow> jsobj \<Rightarrow> world \<Rightarrow> (string + unit) \<times> world" where
  "createNotification e userId' type msg details' w =
    (if js_or userId' '''' = [] then (Inl ''userId is required'', w)
     else case currentUser e of
       None \<Rightarrow> (Inl ''User not authenticated'', w)
     | Some user \<Rightarrow>
        (Inr (),
         w\<lparr>notifications := notifications w @
             [\<lparr>userId = js_or userId' '''', ntype = type, message = msg, details = details',
               read = False, n_createdAt = now e, n_createdBy = Some (uid user)\<rparr>]\<rparr>))"

section \<open>Versioned file store (s3Service.ts)\<close>

text \<open>The blob key scheme, as the template strings of the source build it.\<close>

definition fileKey :: "string \<Rightarrow> string \<Rightarrow> string" where
  "fileKey repoId fileName = ''repositories/'' @ repoId @ ''/files/'' @ fileName"

definition versionKey :: "string \<Rightarrow> string \<Rightarrow> string \<Rightarrow> string \<Rightarrow> string" where
  "versionKey repoId folder fileName timestamp =
     ''repositories/'' @ repoId @ ''/'' @ folder @ ''/'' @ fileName @ ''/'' @ timestamp @ ''.txt''"

definition historyKey :: "string \<Rightarrow> string \<Rightarrow> string \<Rightarrow> string" where
  "historyKey repoId fileName timestamp = versionKey repoId ''history'' fileName timestamp"

definition pendingKey :: "string \<Rightarrow> string \<Rightarrow> string \<Rightarrow> string" where
  "pendingKey repoId fileName timestamp = versionKey repoId ''pending'' fileName timestamp"

definition commitKey :: "string \<Rightarrow> string \<Rightarrow> string \<Rightarrow> string" where
  "commitKey repoId fileName timestamp =
     ''repositories/'' @ repoId @ ''/commits/'' @ fileName @ ''/'' @ timestamp @ ''.json''"

definition pendingMetaKey :: "string \<Rightarrow> string \<Rightarrow> string \<Rightarrow> string" where
  "pendingMetaKey repoId fileName timestamp =
     ''repositories/'' @ repoId @ ''/pending-meta/'' @ fileName @ ''/'' @ timestamp @ ''.json''"

definition textExtensions :: "string list" where
  "textExtensions =
    [''.txt'', ''.md'', ''.json'', ''.js'', ''.jsx'', ''.ts'', ''.tsx'', ''.html'', ''.css'',
     ''.scss'', ''.xml'', ''.yaml'', ''.yml'', ''.csv'', ''.log'', ''.sh'', ''.bat'', ''.ps1'',
     ''.py'', ''.rb'', ''.php'', ''.java'', ''.c'', ''.cpp'', ''.h'', ''.cs'', ''.go'', ''.rs'',
     ''.swift'', ''.kt'', ''.sql'', ''.gitignore'', ''.env'', ''.config'', ''.toml'']"

definition isTextFile :: "string \<Rightarrow> bool" where
  "isTextFile fileName = list_ex (\<lambda>ext. suffix ext (toLowerCase fileName)) textExtensions"

text \<open>
  \<open>fileContent: string | ArrayBuffer | Blob\<close>. A \<open>Blob\<close> is read into an
  \<open>ArrayBuffer\<close> before use, so \<open>Buf\<close> stands for both. An empty string is falsy, a
  buffer never is.
\<close>

datatype fileContent = Str jsstring | Buf "byte list"

definition truthy :: "fileContent \<Rightarrow> bool" where
  "truthy c = (case c of Str s \<Rightarrow> s \<noteq> [] | Buf bs \<Rightarrow> True)"

text \<open>\<open>uploadFileToS3\<close>. The signed URL of the result is left out.\<close>

definition uploadFileToS3 ::
  "env \<Rightarrow> string \<Rightarrow> string \<Rightarrow> fileContent \<Rightarrow> string \<Rightarrow> bucket \<Rightarrow> (string + unit) \<times> bucket" where
  "uploadFileToS3 e repoId fileName fileContent contentType b =
    (if \<not> initialized e then (Inl ''AWS S3 is not properly configured'', b)
     else case currentUser e of
       None \<Rightarrow> (Inl ''User not authenticated'', b)
     | Some user \<Rightarrow>
        if \<not> truthy fileContent then (Inl ''File content cannot be empty'', b)
        else
          let finalContentType =
                (if contentType = [] \<or> contentType = ''text/plain''
                 then (if isTextFile fileName then ''text/plain'' else ''application/octet-stream'')
                 else contentType);
              content = (case fileContent of Str s \<Rightarrow> TextEncoder_encode s | Buf bs \<Rightarrow> bs)
          in (Inr (),
              PutObject e (fileKey repoId fileName) (Bytes content) finalContentType
                [(''user-id'', uid user), (''uploaded-at'', now e), (''original-filename'', fileName)] b))"

text \<open>\<open>downloadFileFromS3\<close>, and its alias \<open>getFileContent\<close>.\<close>

definition downloadFileFromS3 ::
  "env \<Rightarrow> string \<Rightarrow> string \<Rightarrow> bucket \<Rightarrow> string + (fileContent \<times> (string \<times> string) list)" where
  "downloadFileFromS3 e repoId fileName b =
    (if \<not> initialized e then Inl ''AWS S3 is not properly configured''
     else case GetObject b (fileKey repoId fileName) of
       None \<Rightarrow> Inl NoSuchKey_message
     | Some data \<Rightarrow>
        let bodyContents = bodyBytes (Body data) in
        Inr (if js_includes (ContentType data) ''text'' \<or> isTextFile fileName
             then Str (TextDecoder_decode bodyContents)
             else Buf bodyContents,
             Metadata data))"

definition getFileContent ::
  "env \<Rightarrow> string \<Rightarrow> string \<Rightarrow> bucket \<Rightarrow> string + (fileContent \<times> (string \<times> string) list)" where
  "getFileContent e repoId fileName b = downloadFileFromS3 e repoId fileName b"

text \<open>
  \<open>commitFileVersion\<close>: three writes, then the timestamp. \<open>previousVersion: undefined\<close>
  is left out by \<open>JSON.stringify\<close>.
\<close>

definition commitFileVersion ::
  "env \<Rightarrow> string \<Rightarrow> string \<Rightarrow> jsstring \<Rightarrow> string \<Rightarrow> string option \<Rightarrow> bucket
     \<Rightarrow> (string + string) \<times> bucket" where
  "commitFileVersion e repoId fileName fileContent commitMessage previousVersionTimestamp b =
    (if \<not> initialized e then (Inl ''AWS S3 is not properly configured'', b)
     else case currentUser e of
       None \<Rightarrow> (Inl ''User not authenticated'', b)
     | Some user \<Rightarrow>
        let timestamp = now e;
            b1 = PutObject e (fileKey repoId fileName) (Bytes (TextEncoder_encode fileContent))
                   ''text/plain''
                   [(''user-id'', uid user), (''user-email'', js_or (email user) ''''),
                    (''uploaded-at'', timestamp), (''original-filename'', fileName)] b;
            b2 = PutObject e (historyKey repoId fileName timestamp)
                   (Bytes (TextEncoder_encode fileContent)) ''text/plain''
                   [(''user-id'', uid user), (''user-email'', js_or (email user) ''''),
                    (''commit-message'', commitMessage), (''timestamp'', timestamp),
                    (''previous-version'', js_or previousVersionTimestamp '''')] b1;
            commitData =
              [(''message'', commitMessage), (''timestamp'', timestamp),
               (''author'', js_or (email user) (uid user))]
              @ (case previousVersionTimestamp of None \<Rightarrow> [] | Some p \<Rightarrow> [(''previousVersion'', p)]);
            b3 = PutObject e (commitKey repoId fileName timestamp) (Json commitData)
                   ''application/json'' [] b2
        in (Inr timestamp, b3))"

text \<open>
  \<open>getFileCommitHistory\<close>. \<open>entryId\<close> is
  \<open>item.Key.split('/').pop()?.replace('.json', '') || ''\<close>; an entry is
  \<open>{...commitData, id}\<close>; an object whose body does not parse is skipped.
\<close>

definition entryId :: "string \<Rightarrow> string" where
  "entryId k = js_remove_first ''.json'' (last (js_split CHR ''/'' k))"

fun commitEntries :: "bucket \<Rightarrow> string list \<Rightarrow> string + jsobj list" where
  "commitEntries b [] = Inr []"
| "commitEntries b (k # ks) =
    (case GetObject b k of
       None \<Rightarrow> Inl NoSuchKey_message
     | Some result \<Rightarrow>
        (case commitEntries b ks of
           Inl err \<Rightarrow> Inl err
         | Inr cs \<Rightarrow>
            Inr (case JSON_parse (Body result) of
                   None \<Rightarrow> cs
                 | Some commitData \<Rightarrow> AList.update ''id'' (entryId k) commitData # cs)))"

definition getFileCommitHistory :: "env \<Rightarrow> string \<Rightarrow> string \<Rightarrow> bucket \<Rightarrow> string + jsobj list" where
  "getFileCommitHistory e repoId fileName b =
    (if \<not> initialized e then Inl ''AWS S3 is not properly configured''
     else case commitEntries b
                 (ListObjectsV2 b (''repositories/'' @ repoId @ ''/commits/'' @ fileName @ ''/'')) of
       Inl err \<Rightarrow> Inl err
     | Inr cs \<Rightarrow> Inr (js_sort (byDateDesc e) cs))"

definition getFileVersion ::
  "env \<Rightarrow> string \<Rightarrow> string \<Rightarrow> string \<Rightarrow> bool \<Rightarrow> bucket \<Rightarrow> string + jsstring" where
  "getFileVersion e repoId fileName timestamp fromPending b =
    (if \<not> initialized e then Inl ''AWS S3 is not properly configured''
     else
       let folder = (if fromPending then ''pending'' else ''history'') in
       case GetObject b (versionKey repoId folder fileName timestamp) of
         None \<Rightarrow> Inl ''Version not found''
       | Some result \<Rightarrow> Inr (TextDecoder_decode (bodyBytes (Body result))))"

text \<open>
  \<open>uploadFileWithCommit\<close>. The upload of the current content goes through
  \<open>uploadFileToS3\<close> (which asks \<open>getCurrentUser()\<close> itself); the history copy and the
  commit metadata carry the \<open>user\<close> argument when one is given.
\<close>

definition uploadFileWithCommit ::
  "env \<Rightarrow> string \<Rightarrow> string \<Rightarrow> fileContent \<Rightarrow> string \<Rightarrow> user option \<Rightarrow> bucket
     \<Rightarrow> (string + string) \<times> bucket" where
  "uploadFileWithCommit e repoId fileName fileContent commitMessage user b =
    (if \<not> initialized e then (Inl ''AWS S3 is not properly configured'', b)
     else case (case user of None \<Rightarrow> currentUser e | Some u \<Rightarrow> Some u) of
       None \<Rightarrow> (Inl ''User not authenticated'', b)
     | Some currentUser' \<Rightarrow>
        let timestamp = now e in
        (case uploadFileToS3 e repoId fileName fileContent ''text/plain'' b of
           (Inl err, b1) \<Rightarrow> (Inl (js_or (Some err) ''Failed to upload file content''), b1)
         | (Inr u, b1) \<Rightarrow>
            let fileContentString =
                  (case fileContent of Str s \<Rightarrow> s | Buf bs \<Rightarrow> TextDecoder_decode bs);
                b2 = PutObject e (historyKey repoId fileName timestamp)
                       (Bytes (TextEncoder_encode fileContentString)) ''text/plain''
                       [(''user-id'', uid currentUser'),
                        (''user-email'', js_or (email currentUser') ''''),
                        (''commit-message'', commitMessage), (''timestamp'', timestamp)] b1;
                commitData =
                  [(''message'', commitMessage), (''timestamp'', timestamp),
                   (''author'', js_or (email currentUser') (uid currentUser'))];
                b3 = PutObject e (commitKey repoId fileName timestamp) (Json commitData)
                       ''application/json'' [] b2
            in (Inr timestamp, b3)))"

text \<open>
  \<open>restoreFileVersion\<close>; \<open>commitMessage\<close> defaults to \<open>"Restored previous version"\<close>.
\<close>

definition restoreFileVersion ::
  "env \<Rightarrow> string \<Rightarrow> string \<Rightarrow> string \<Rightarrow> string option \<Rightarrow> bucket \<Rightarrow> (string + unit) \<times> bucket" where
  "restoreFileVersion e repoId fileName timestamp commitMessage b =
    (if \<not> initialized e then (Inl ''AWS S3 is not properly configured'', b)
     else case currentUser e of
       None \<Rightarrow> (Inl ''User not authenticated'', b)
     | Some user \<Rightarrow>
        (case getFileVersion e repoId fileName timestamp False b of
           Inl err \<Rightarrow> (Inl (js_or (Some err) ''Failed to retrieve file version''), b)
         | Inr content \<Rightarrow>
            if content = [] then (Inl ''Failed to retrieve file version'', b)
            else
              let restoreCommitMessage =
                    (case commitMessage of None \<Rightarrow> ''Restored previous version'' | Some m \<Rightarrow> m)
                    @ '' (from '' @ toLocaleString e timestamp @ '')''
              in (case commitFileVersion e repoId fileName content restoreCommitMessage None b of
                    (Inl err, b') \<Rightarrow> (Inl (js_or (Some err) ''Failed to create restore commit''), b')
                  | (Inr t, b') \<Rightarrow> (Inr (), b'))))"

section \<open>Pending-commit approval flow (s3Service.ts)\<close>

text \<open>
  \<open>createPendingCommit\<close>: the pending blob, its metadata with \<open>status: 'pending'\<close>, and
  a notification for the owner when the caller is not the owner. A failure of the
  notification step is ignored by the source.
\<close>

definition createPendingCommit ::
  "env \<Rightarrow> string \<Rightarrow> string \<Rightarrow> jsstring \<Rightarrow> string \<Rightarrow> world \<Rightarrow> (string + string) \<times> world" where
  "createPendingCommit e repoId fileName fileContent commitMessage w =
    (if \<not> initialized e then (Inl ''AWS S3 is not properly configured'', w)
     else case currentUser e of
       None \<Rightarrow> (Inl ''User not authenticated'', w)
     | Some user \<Rightarrow>
        let timestamp = now e;
            b1 = PutObject e (pendingKey repoId fileName timestamp)
                   (Bytes (TextEncoder_encode fileContent)) ''text/plain''
                   [(''user-id'', uid user), (''user-email'', js_or (email user) ''''),
                    (''commit-message'', commitMessage), (''timestamp'', timestamp)] (bucket w);
            commitData =
              [(''message'', commitMessage), (''timestamp'', timestamp),
               (''author'', js_or (email user) (uid user)), (''authorId'', uid user),
               (''fileName'', fileName), (''status'', ''pending'')];
            b2 = PutObject e (pendingMetaKey repoId fileName timestamp) (Json commitData)
                   ''application/json'' [] b1;
            w2 = w\<lparr>bucket := b2\<rparr>;
            w3 = (case getRepository e repoId (repositories w2) of
                    Inl err \<Rightarrow> w2
                  | Inr repository \<Rightarrow>
                     if ownerId repository \<noteq> uid user
                     then snd (createNotification e (Some (ownerId repository)) ''commit_request''
                                 (js_or (email user) ''A collaborator'' @ '' has submitted changes to ''
                                    @ fileName @ '' for your approval'')
                                 ([(''repositoryId'', repoId), (''repositoryName'', name repository),
                                   (''fileName'', fileName), (''commitTimestamp'', timestamp),
                                   (''requesterId'', uid user)]
                                  @ (case email user of None \<Rightarrow> [] | Some m \<Rightarrow> [(''requesterEmail'', m)]))
                                 w2)
                     else w2)
        in (Inr timestamp, w3))"

text \<open>
  \<open>getPendingCommitRequests\<close>. A request is
  \<open>{...commitData, id, fileName, path}\<close> with \<open>fileName\<close> the last but one part of the
  key (a property set to \<open>undefined\<close> is a property removed).
\<close>

definition requestEntry :: "string \<Rightarrow> string \<Rightarrow> jsobj \<Rightarrow> jsobj" where
  "requestEntry repoId k commitData =
    (let pathParts = js_split CHR ''/'' k;
         fileName = (if 2 \<le> length pathParts then Some (pathParts ! (length pathParts - 2)) else None);
         withId = AList.update ''id'' (entryId k) commitData;
         withName = (case fileName of None \<Rightarrow> AList.delete ''fileName'' withId
                     | Some f \<Rightarrow> AList.update ''fileName'' f withId)
     in AList.update ''path''
          (''repositories/'' @ repoId @ ''/pending/'' @ tmplUndefined fileName @ ''/''
             @ tmplUndefined (map_of commitData ''timestamp'') @ ''.txt'')
          withName)"

fun requestEntries :: "string \<Rightarrow> bucket \<Rightarrow> string list \<Rightarrow> string + jsobj list" where
  "requestEntries repoId b [] = Inr []"
| "requestEntries repoId b (k # ks) =
    (case GetObject b k of
       None \<Rightarrow> Inl NoSuchKey_message
     | Some result \<Rightarrow>
        (case requestEntries repoId b ks of
           Inl err \<Rightarrow> Inl err
         | Inr rs \<Rightarrow>
            Inr (case JSON_parse (Body result) of
                   None \<Rightarrow> rs
                 | Some commitData \<Rightarrow> requestEntry repoId k commitData # rs)))"

definition getPendingCommitRequests :: "env \<Rightarrow> string \<Rightarrow> bucket \<Rightarrow> string + jsobj list" where
  "getPendingCommitRequests e repoId b =
    (if \<not> initialized e then Inl ''AWS S3 is not properly configured''
     else case requestEntries repoId b
                 (ListObjectsV2 b (''repositories/'' @ repoId @ ''/pending-meta/'')) of
       Inl err \<Rightarrow> Inl err
     | Inr rs \<Rightarrow> Inr (js_sort (byDateDesc e) rs))"

text \<open>
  \<open>processPendingCommit\<close>. Every failure after the ownership check is caught by the
  inner \<open>catch\<close> and reported as \<open>'Failed to access commit request'\<close>. The results of
  \<open>uploadFileWithCommit\<close> and of \<open>createNotification\<close> are not looked at.
\<close>

definition processedMetadata :: "env \<Rightarrow> user \<Rightarrow> jsobj \<Rightarrow> string \<Rightarrow> string option \<Rightarrow> jsobj" where
  "processedMetadata e user metadata newStatus comment =
     AList.update ''comment'' (js_or comment '''')
       (AList.update ''processedAt'' (now e)
         (AList.update ''processedBy'' (js_or (email user) (uid user))
           (AList.update ''status'' newStatus metadata)))"

definition processPendingCommit ::
  "env \<Rightarrow> string \<Rightarrow> string \<Rightarrow> string \<Rightarrow> bool \<Rightarrow> string option \<Rightarrow> world \<Rightarrow> (string + unit) \<times> world" where
  "processPendingCommit e repoId requestId fileName approve comment w =
    (if \<not> initialized e then (Inl ''AWS S3 is not properly configured'', w)
     else case currentUser e of
       None \<Rightarrow> (Inl ''User not authenticated'', w)
     | Some user \<Rightarrow>
        (case getRepository e repoId (repositories w) of
           Inl err \<Rightarrow> (Inl (js_or (Some err) ''Repository not found''), w)
         | Inr repository \<Rightarrow>
            if ownerId repository \<noteq> uid user
            then (Inl ''Only the repository owner can approve commit requests'', w)
            else
              let metadataKey = pendingMetaKey repoId fileName requestId in
              (case GetObject (bucket w) metadataKey of
                 None \<Rightarrow> (Inl ''Failed to access commit request'', w)
               | Some metadataResult \<Rightarrow>
                  (case JSON_parse (Body metadataResult) of
                     None \<Rightarrow> (Inl ''Failed to access commit request'', w)
                   | Some metadata \<Rightarrow>
                      let notify = (\<lambda>w'.
                            snd (createNotification e (map_of metadata ''authorId'')
                                   (if approve then ''commit_request_approved''
                                    else ''commit_request_rejected'')
                                   (if approve
                                    then ''Your changes to '' @ fileName @ '' have been approved and applied''
                                    else ''Your changes to '' @ fileName @ '' have been rejected'')
                                   [(''repositoryId'', repoId), (''repositoryName'', name repository),
                                    (''fileName'', fileName), (''commitTimestamp'', requestId),
                                    (''comment'', js_or comment '''')]
                                   w'))
                      in
                      if approve then
                        (case GetObject (bucket w) (pendingKey repoId fileName requestId) of
                           None \<Rightarrow> (Inl ''Failed to access commit request'', w)
                         | Some fileResult \<Rightarrow>
                            let fileContent = TextDecoder_decode (bodyBytes (Body fileResult));
                                b1 = snd (uploadFileWithCommit e repoId fileName (Str fileContent)
                                            (tmplUndefined (map_of metadata ''message'')
                                               @ '' (Approved by '' @ tmplNull (email user) @ '')'')
                                            (Some user) (bucket w));
                                b2 = PutObject e metadataKey
                                       (Json (processedMetadata e user metadata ''approved'' comment))
                                       ''application/json'' [] b1
                            in (Inr (), notify (w\<lparr>bucket := b2\<rparr>)))
                      else
                        let b2 = PutObject e metadataKey
                                   (Json (processedMetadata e user metadata ''rejected'' comment))
                                   ''application/json'' [] (bucket w)
                        in (Inr (), notify (w\<lparr>bucket := b2\<rparr>))))))"

section \<open>Pull requests (pullRequestService.ts)\<close>

text \<open>
  \<open>listRepositoryFiles\<close> returns plain objects; they are kept as lists of properties so
  that a property read is a lookup, \<open>undefined\<close> (\<open>None\<close>) when the object has no such
  property. The listed object has exactly the properties \<open>name\<close>, \<open>path\<close>, \<open>size\<close>,
  \<open>contentType\<close>, \<open>createdAt\<close> and \<open>downloadUrl\<close>; \<open>createdAt\<close> is a \<open>Date\<close>
  object made from the object's \<open>LastModified\<close>.
\<close>

datatype jsval = JString string | JNumber nat | JDate string

type_synonym fileInfo = "(string \<times> jsval) list"

definition fileInfoOf :: "env \<Rightarrow> bucket \<Rightarrow> string \<Rightarrow> fileInfo option" where
  "fileInfoOf e b k =
    (case GetObject b k of
       None \<Rightarrow> None
     | Some metadata \<Rightarrow>
        Some [(''name'', JString (last (js_split CHR ''/'' k))),
              (''path'', JString k),
              (''size'', JNumber (length (bodyBytes (Body metadata)))),
              (''contentType'', JString (js_or (Some (ContentType metadata)) ''application/octet-stream'')),
              (''createdAt'', JDate (LastModified metadata)),
              (''downloadUrl'', JString (getSignedUrl e k 3600))])"

fun fileInfos :: "env \<Rightarrow> bucket \<Rightarrow> string list \<Rightarrow> string + fileInfo list" where
  "fileInfos e b [] = Inr []"
| "fileInfos e b (k # ks) =
    (case fileInfoOf e b k of
       None \<Rightarrow> Inl NoSuchKey_message
     | Some f \<Rightarrow> (case fileInfos e b ks of Inl err \<Rightarrow> Inl err | Inr fs \<Rightarrow> Inr (f # fs)))"

definition listRepositoryFiles :: "env \<Rightarrow> string \<Rightarrow> bucket \<Rightarrow> string + fileInfo list" where
  "listRepositoryFiles e repoId b =
    (if \<not> initialized e then Inl ''AWS S3 is not properly configured''
     else fileInfos e b (ListObjectsV2_delimited b (''repositories/'' @ repoId @ ''/files/'')))"

text \<open>
  \<open>a !== b\<close> on property values. Two \<open>Date\<close> objects of two listings are two objects,
  never identical; \<open>undefined !== undefined\<close> is false.
\<close>

fun strictNotEqual :: "jsval option \<Rightarrow> jsval option \<Rightarrow> bool" where
  "strictNotEqual None None = False"
| "strictNotEqual (Some (JString a)) (Some (JString b)) = (a \<noteq> b)"
| "strictNotEqual (Some (JNumber a)) (Some (JNumber b)) = (a \<noteq> b)"
| "strictNotEqual x y = True"

text \<open>\<open>file.name\<close> of a listed file, as pushed to \<open>changedFiles\<close>.\<close>

definition nameOf :: "fileInfo \<Rightarrow> string" where
  "nameOf f = (case map_of f ''name'' of Some (JString n) \<Rightarrow> n | _ \<Rightarrow> ''undefined'')"

text \<open>
  \<open>getChangedFiles\<close>. \<open>new Map(targetFiles.map(file => [file.name, file]))\<close> keeps the
  last file of a name; the loop reads the property \<open>lastModified\<close> of both files.
\<close>

definition targetFileMap :: "fileInfo list \<Rightarrow> string \<Rightarrow> fileInfo option" where
  "targetFileMap targetFiles = map_of (rev (map (\<lambda>file. (nameOf file, file)) targetFiles))"

definition isChanged :: "fileInfo list \<Rightarrow> fileInfo \<Rightarrow> bool" where
  "isChanged targetFiles sourceFile =
    (case targetFileMap targetFiles (nameOf sourceFile) of
       None \<Rightarrow> True
     | Some targetFile \<Rightarrow>
         strictNotEqual (map_of sourceFile ''lastModified'') (map_of targetFile ''lastModified''))"

definition getChangedFiles :: "env \<Rightarrow> string \<Rightarrow> string \<Rightarrow> bucket \<Rightarrow> string + string list" where
  "getChangedFiles e sourceRepoId' targetRepoId' b =
    (case currentUser e of
       None \<Rightarrow> Inl ''User not authenticated''
     | Some user \<Rightarrow>
        (case listRepositoryFiles e sourceRepoId' b of
           Inl err \<Rightarrow> Inl (js_or (Some err) ''Failed to list source repository files'')
         | Inr sourceFiles \<Rightarrow>
            (case listRepositoryFiles e targetRepoId' b of
               Inl err \<Rightarrow> Inl (js_or (Some err) ''Failed to list target repository files'')
             | Inr targetFiles \<Rightarrow>
                Inr (map nameOf (filter (isChanged targetFiles) sourceFiles)))))"

definition getPullRequest :: "(string \<rightharpoonup> PullRequest) \<Rightarrow> string \<Rightarrow> string + PullRequest" where
  "getPullRequest prs pullRequestId =
    (case prs pullRequestId of None \<Rightarrow> Inl ''Pull request not found'' | Some pr \<Rightarrow> Inr pr)"

text \<open>
  \<open>updatePullRequestStatus\<close>: the permission check, \<open>updateDoc\<close> of \<open>status\<close> and
  \<open>updatedAt\<close>, and a notification for the creator.
\<close>

definition updatePullRequestStatus ::
  "env \<Rightarrow> string \<Rightarrow> prStatus \<Rightarrow> string option \<Rightarrow> world \<Rightarrow> (string + unit) \<times> world" where
  "updatePullRequestStatus e pullRequestId status' comment w =
    (case currentUser e of
       None \<Rightarrow> (Inl ''User not authenticated'', w)
     | Some user \<Rightarrow>
        (case getPullRequest (pullRequests w) pullRequestId of
           Inl err \<Rightarrow> (Inl (js_or (Some err) ''Pull request not found''), w)
         | Inr pullRequest \<Rightarrow>
            if targetOwnerId pullRequest \<noteq> uid user \<and> status' \<noteq> Closed
            then (Inl ''Only the repository owner can update this pull request'', w)
            else
              (Inr (),
               w\<lparr>pullRequests := (pullRequests w)
                     (pullRequestId \<mapsto> pullRequest\<lparr>status := status', pr_updatedAt := now e\<rparr>),
                  notifications := notifications w @
                    [\<lparr>userId = creator_id (createdBy pullRequest),
                      ntype = ''pull_request_'' @ statusString status',
                      message = ''Your pull request '' @ [CHR 0x22] @ title pullRequest @ [CHR 0x22]
                                  @ '' was '' @ statusString status',
                      details = [(''pullRequestId'', pullRequestId), (''comment'', js_or comment ''''),
                                 (''targetRepoName'', targetRepoName pullRequest)],
                      read = False, n_createdAt = now e, n_createdBy = None\<rparr>]\<rparr>)))"

text \<open>
  The loop of \<open>mergePullRequest\<close> over the changed files: the bucket after it and
  \<open>filesMerged\<close>. A file whose content cannot be read, or is empty, is skipped.
\<close>

fun mergeFiles ::
  "env \<Rightarrow> string \<Rightarrow> PullRequest \<Rightarrow> user \<Rightarrow> string list \<Rightarrow> nat \<times> bucket \<Rightarrow> nat \<times> bucket" where
  "mergeFiles e pullRequestId pullRequest user [] acc = acc"
| "mergeFiles e pullRequestId pullRequest user (fileName # rest) (filesMerged, b) =
    (case getFileContent e (sourceRepoId pullRequest) fileName b of
       Inl err \<Rightarrow> mergeFiles e pullRequestId pullRequest user rest (filesMerged, b)
     | Inr (content, md) \<Rightarrow>
        if \<not> truthy content
        then mergeFiles e pullRequestId pullRequest user rest (filesMerged, b)
        else
          (case uploadFileWithCommit e (targetRepoId pullRequest) fileName content
                  (''Merge PR #'' @ take 8 pullRequestId @ '': '' @ title pullRequest)
                  (Some user) b of
             (Inl err, b') \<Rightarrow> mergeFiles e pullRequestId pullRequest user rest (filesMerged, b')
           | (Inr t, b') \<Rightarrow>
               mergeFiles e pullRequestId pullRequest user rest (filesMerged + 1, b')))"

text \<open>
  \<open>mergePullRequest\<close>. The result of the final \<open>updatePullRequestStatus\<close> is not looked
  at.
\<close>

definition mergePullRequest ::
  "env \<Rightarrow> string \<Rightarrow> string option \<Rightarrow> world \<Rightarrow> (string + unit) \<times> world" where
  "mergePullRequest e pullRequestId comment w =
    (case currentUser e of
       None \<Rightarrow> (Inl ''User not authenticated'', w)
     | Some user \<Rightarrow>
        (case getPullRequest (pullRequests w) pullRequestId of
           Inl err \<Rightarrow> (Inl (js_or (Some err) ''Pull request not found''), w)
         | Inr pullRequest \<Rightarrow>
            if targetOwnerId pullRequest \<noteq> uid user
            then (Inl ''Only the repository owner can merge this pull request'', w)
            else if status pullRequest \<noteq> Open
            then (Inl (''This pull request is already '' @ statusString (status pullRequest)), w)
            else
              let stored = (case changedFiles pullRequest of None \<Rightarrow> [] | Some fs \<Rightarrow> fs);
                  computed =
                    (if stored = []
                     then getChangedFiles e (sourceRepoId pullRequest) (targetRepoId pullRequest) (bucket w)
                     else Inr stored)
              in (case computed of
                    Inl err \<Rightarrow> (Inl (js_or (Some err) ''Failed to determine changed files''), w)
                  | Inr changedFiles' \<Rightarrow>
                     let (filesMerged, b') =
                           mergeFiles e pullRequestId pullRequest user changedFiles' (0, bucket w)
                     in (Inr (),
                         snd (updatePullRequestStatus e pullRequestId Merged comment
                                (w\<lparr>bucket := b'\<rparr>))))))"

section \<open>Sample data\<close>

text \<open>
  Three users, a platform and small worlds, used where a theorem is applied to a concrete
  input: \<open>alice\<close> owns the repositories, \<open>bob\<close> is a collaborator and the creator of
  the pull request, \<open>mallory\<close> is neither.
\<close>

definition alice :: user where
  "alice = \<lparr>uid = ''alice'', email = Some ''alice@example.org'', displayName = Some ''Alice''\<rparr>"

definition bob :: user where
  "bob = \<lparr>uid = ''bob'', email = Some ''bob@example.org'', displayName = None\<rparr>"

definition mallory :: user where
  "mallory = \<lparr>uid = ''mallory'', email = None, displayName = None\<rparr>"

definition sampleTime :: "string \<Rightarrow> int option" where
  "sampleTime s =
    (if s = ''2024-05-01T10:00:00.000Z'' then Some 1714557600000
     else if s = ''2024-05-02T10:00:00.000Z'' then Some 1714644000000
     else if s = ''2024-05-03T10:00:00.000Z'' then Some 1714730400000
     else None)"

definition envAt :: "user option \<Rightarrow> string \<Rightarrow> env" where
  "envAt u t =
    \<lparr>initialized = True, currentUser = u, now = t, getTime = sampleTime,
     toLocaleString = (\<lambda>s. s), getSignedUrl = (\<lambda>k n. k @ ''?signed'')\<rparr>"

definition samplePR :: "prStatus \<Rightarrow> string list \<Rightarrow> PullRequest" where
  "samplePR st fs =
    \<lparr>title = ''Fix typo'', pr_description = ''one letter'',
     sourceRepoId = ''fork1'', sourceRepoName = ''demo-fork'',
     targetRepoId = ''repo1'', targetRepoName = ''demo'',
     targetOwnerId = ''alice'', sourceBranch = Some ''main'', targetBranch = Some ''main'',
     status = st, pr_createdAt = ''2024-05-01T10:00:00.000Z'',
     pr_updatedAt = ''2024-05-01T10:00:00.000Z'',
     createdBy = \<lparr>creator_id = ''bob'', creator_name = ''Anonymous'', creator_email = ''bob@example.org''\<rparr>,
     changedFiles = Some fs\<rparr>"

definition sampleRepo :: Repository where
  "sampleRepo =
    \<lparr>repo_id = None, name = ''demo'', description = ''a private one'', ownerId = ''alice'',
     createdAt = ''2024-01-01T00:00:00.000Z'', updatedAt = ''2024-02-01T00:00:00.000Z'',
     isPublic = False, collaborators = Some [''bob''], forkedFrom = Some ''repo0''\<rparr>"

definition textObject :: "byte list \<Rightarrow> string \<Rightarrow> s3object" where
  "textObject bs t = \<lparr>Body = Bytes bs, ContentType = ''text/plain'', Metadata = [], LastModified = t\<rparr>"

definition prWorld :: "prStatus \<Rightarrow> string list \<Rightarrow> bucket \<Rightarrow> world" where
  "prWorld st fs b =
    \<lparr>bucket = b, repositories = [''repo1'' \<mapsto> sampleRepo],
     pullRequests = [''pr1'' \<mapsto> samplePR st fs], notifications = []\<rparr>"

text \<open>The bucket after one commit by \<open>alice\<close> to an empty bucket.\<close>

definition committedBucket :: "jsstring \<Rightarrow> bucket" where
  "committedBucket content =
     snd (commitFileVersion (envAt (Some alice) ''2024-05-01T10:00:00.000Z'') ''repo1''
            ''readme.txt'' content ''init'' None [])"

text \<open>
  A repository of \<open>alice\<close> with a pending change submitted by \<open>bob\<close>, and the same
  world after \<open>alice\<close> has rejected, or approved, that change.
\<close>

definition repoWorld :: "bucket \<Rightarrow> world" where
  "repoWorld b =
    \<lparr>bucket = b, repositories = [''repo1'' \<mapsto> sampleRepo], pullRequests = Map.empty,
     notifications = []\<rparr>"

definition pendingWorld :: world where
  "pendingWorld =
     snd (createPendingCommit (envAt (Some bob) ''2024-05-01T10:00:00.000Z'') ''repo1''
            ''readme.txt'' [104, 105] ''fix'' (repoWorld []))"

definition rejectedWorld :: world where
  "rejectedWorld =
     snd (processPendingCommit (envAt (Some alice) ''2024-05-02T10:00:00.000Z'') ''repo1''
            ''2024-05-01T10:00:00.000Z'' ''readme.txt'' False None pendingWorld)"

definition approvedWorld :: world where
  "approvedWorld =
     snd (processPendingCommit (envAt (Some alice) ''2024-05-02T10:00:00.000Z'') ''repo1''
            ''2024-05-01T10:00:00.000Z'' ''readme.txt'' True None pendingWorld)"

text \<open>
  The rejected request, and a second request of \<open>bob\<close> that is still pending; its key
  comes after the key of the first.
\<close>

definition twoRequestsWorld :: world where
  "twoRequestsWorld =
     snd (createPendingCommit (envAt (Some bob) ''2024-05-03T10:00:00.000Z'') ''repo1''
            ''todo.txt'' [104, 105] ''more'' rejectedWorld)"

text \<open>
  The repository after \<open>bob\<close> has submitted \<open>n\<close> changes to \<open>readme.txt\<close>, one each
  second from 10:00:00 on; \<open>secondAt n\<close> is the clock at the submission after \<open>n\<close>
  others, and \<open>requestData n\<close> the record \<open>createPendingCommit\<close> writes for it.
\<close>

definition twoDigits :: "nat \<Rightarrow> string" where
  "twoDigits n = [char_of (48 + n div 10), char_of (48 + n mod 10)]"

definition secondAt :: "nat \<Rightarrow> string" where
  "secondAt n = ''2024-05-01T10:'' @ twoDigits (n div 60) @ '':'' @ twoDigits (n mod 60) @ ''.000Z''"

primrec afterRequests :: "nat \<Rightarrow> world" where
  "afterRequests 0 = repoWorld []"
| "afterRequests (Suc n) =
     snd (createPendingCommit (envAt (Some bob) (secondAt n)) ''repo1'' ''readme.txt'' [104, 105]
            ''fix'' (afterRequests n))"

definition requestData :: "nat \<Rightarrow> jsobj" where
  "requestData n =
     [(''message'', ''fix''), (''timestamp'', secondAt n), (''author'', ''bob@example.org''),
      (''authorId'', ''bob''), (''fileName'', ''readme.txt''), (''status'', ''pending'')]"

text \<open>
  A fork and its origin, each with a file \<open>a.txt\<close>; the fork's was written a day later.
\<close>

definition diffBucket :: bucket where
  "diffBucket =
    [(''repositories/fork1/files/a.txt'', textObject [104, 105] ''2024-05-02T10:00:00.000Z''),
     (''repositories/repo1/files/a.txt'', textObject [104] ''2024-05-01T10:00:00.000Z'')]"

text \<open>
  A fork with two text files, \<open>a.txt\<close> beginning with a byte order mark, and the world after
  \<open>alice\<close> has merged a pull request that names them and a file the fork does not have.
\<close>

definition mergeBucket :: bucket where
  "mergeBucket =
    [(''repositories/fork1/files/a.txt'',
        textObject [239, 187, 191, 104, 105] ''2024-05-01T10:00:00.000Z''),
     (''repositories/fork1/files/b.txt'', textObject [104, 105] ''2024-05-01T10:00:00.000Z'')]"

definition mergedWorld :: world where
  "mergedWorld =
     snd (mergePullRequest (envAt (Some alice) ''2024-05-02T10:00:00.000Z'') ''pr1'' None
            (prWorld Open [''a.txt'', ''missing.txt'', ''b.txt''] mergeBucket))"

section \<open>Theorems\<close>

subsection \<open>Text encoding: decoding what was encoded\<close>

text \<open>
  A string without unpaired surrogates that does not begin with U+FEFF survives
  \<open>TextEncoder\<close> followed by \<open>TextDecoder\<close>; whatever \<open>TextDecoder\<close> returns is
  without unpaired surrogates.
\<close>

lemma step1: "b < 128 \<Longrightarrow> utf8_step b bs = (b, 0)"
  by (simp add: utf8_step_def)

lemma step2:
  assumes "2 \<le> a" "a < 32" "d < 64"
  shows "utf8_step (192 + a) ((128 + d) # rest) = (64 * a + d, 1)"
  using assms by (auto simp add: utf8_step_def cont_def)

lemma step3:
  assumes "a < 16" "b < 64" "d < 64" "a = 0 \<longrightarrow> 32 \<le> b" "a = 13 \<longrightarrow> b < 32"
  shows "utf8_step (224 + a) ((128 + b) # (128 + d) # rest) = (4096 * a + 64 * b + d, 2)"
  using assms by (auto simp add: utf8_step_def cont_def)

lemma step4:
  assumes "a < 5" "b < 64" "d < 64" "f < 64" "a = 0 \<longrightarrow> 16 \<le> b" "a = 4 \<longrightarrow> b < 16"
  shows "utf8_step (240 + a) ((128 + b) # (128 + d) # (128 + f) # rest)
           = (262144 * a + 4096 * b + 64 * d + f, 3)"
  using assms by (auto simp add: utf8_step_def cont_def)

lemma digits2: "(c::nat) = 64 * (c div 64) + c mod 64"
  by simp

lemma digits3: "(c::nat) = 4096 * (c div 4096) + 64 * ((c div 64) mod 64) + c mod 64"
proof -
  have "c div 64 = 64 * (c div 64 div 64) + (c div 64) mod 64" by simp
  moreover have "c div 64 div 64 = c div 4096" by (simp add: div_mult2_eq)
  moreover have "c = 64 * (c div 64) + c mod 64" by simp
  ultimately show ?thesis by linarith
qed

lemma digits4:
  "(c::nat) = 262144 * (c div 262144) + 4096 * ((c div 4096) mod 64) + 64 * ((c div 64) mod 64) + c mod 64"
proof -
  have "c div 4096 = 64 * (c div 4096 div 64) + (c div 4096) mod 64" by simp
  moreover have "c div 4096 div 64 = c div 262144" by (simp add: div_mult2_eq)
  moreover note digits3 [of c]
  ultimately show ?thesis by linarith
qed

lemma decode_bytes_of_scalar:
  assumes "scalarValue c"
  shows "utf8_decode (utf8_bytes c @ rest) = c # utf8_decode rest"
proof -
  consider "c < 0x80" | "0x80 \<le> c" "c < 0x800" | "0x800 \<le> c" "c < 0x10000" | "0x10000 \<le> c"
    by linarith
  then show ?thesis
  proof cases
    case 1
    then show ?thesis by (simp add: utf8_bytes_def step1)
  next
    case 2
    define a where "a = c div 64"
    define d where "d = c mod 64"
    have c: "c = 64 * a + d" and d: "d < 64" by (simp_all add: a_def d_def)
    have a: "2 \<le> a" "a < 32" using 2 c d by linarith+
    have "utf8_bytes c = [192 + a, 128 + d]"
      using 2 by (simp add: utf8_bytes_def a_def d_def)
    then show ?thesis using step2 [OF a d, of rest] c by simp
  next
    case 3
    define a where "a = c div 4096"
    define b where "b = (c div 64) mod 64"
    define d where "d = c mod 64"
    have c: "c = 4096 * a + 64 * b + d" unfolding a_def b_def d_def by (rule digits3)
    have bd: "b < 64" "d < 64" by (simp_all add: b_def d_def)
    have a: "a < 16" using 3 c bd by linarith
    have lo: "a = 0 \<longrightarrow> 32 \<le> b" using 3 c bd by auto
    have sur: "\<not> (0xD800 \<le> c \<and> c \<le> 0xDFFF)" using assms by (simp add: scalarValue_def)
    have hi: "a = 13 \<longrightarrow> b < 32" using sur c bd by auto
    have "utf8_bytes c = [224 + a, 128 + b, 128 + d]"
      using 3 by (simp add: utf8_bytes_def a_def b_def d_def)
    then show ?thesis using step3 [OF a bd lo hi, of rest] c by simp
  next
    case 4
    define a where "a = c div 262144"
    define b where "b = (c div 4096) mod 64"
    define d where "d = (c div 64) mod 64"
    define f where "f = c mod 64"
    have c: "c = 262144 * a + 4096 * b + 64 * d + f" unfolding a_def b_def d_def f_def by (rule digits4)
    have bd: "b < 64" "d < 64" "f < 64" by (simp_all add: b_def d_def f_def)
    have top: "c < 0x110000" using assms by (simp add: scalarValue_def)
    have a: "a < 5" using top c bd by linarith
    have lo: "a = 0 \<longrightarrow> 16 \<le> b" using 4 c bd by auto
    have hi: "a = 4 \<longrightarrow> b < 16" using top c bd by auto
    have "utf8_bytes c = [240 + a, 128 + b, 128 + d, 128 + f]"
      using 4 by (simp add: utf8_bytes_def a_def b_def d_def f_def)
    then show ?thesis using step4 [OF a bd lo hi, of rest] c by simp
  qed
qed

lemma decode_concat_bytes:
  "list_all scalarValue cs \<Longrightarrow> utf8_decode (concat (map utf8_bytes cs) @ rest) = cs @ utf8_decode rest"
  by (induction cs) (simp_all add: decode_bytes_of_scalar)

lemma scalars_wellFormed: "wellFormed s \<Longrightarrow> list_all scalarValue (scalars s)"
proof (induction s rule: wellFormed.induct)
  case 1
  then show ?case by simp
next
  case (2 c)
  then show ?case by (auto simp: scalarValue_def isHigh_def isLow_def)
next
  case (3 c d cs)
  then show ?case by (auto simp: scalarValue_def isHigh_def isLow_def split: if_splits)
qed

lemma units_scalars: "wellFormed s \<Longrightarrow> concat (map utf16_units (scalars s)) = s"
proof (induction s rule: wellFormed.induct)
  case 1
  then show ?case by simp
next
  case (2 c)
  then show ?case by (auto simp: utf16_units_def)
next
  case (3 c d cs)
  show ?case
  proof (cases "isHigh c")
    case True
    with 3 have d: "isLow d" and wf: "wellFormed cs" by simp_all
    define h where "h = c - 0xD800"
    define l where "l = d - 0xDC00"
    have h: "c = 0xD800 + h" "h < 1024" using True by (auto simp add: h_def isHigh_def)
    have l: "d = 0xDC00 + l" "l < 1024" using d by (auto simp add: l_def isLow_def)
    have "utf16_units (0x10000 + (c - 0xD800) * 1024 + (d - 0xDC00)) = [c, d]"
      using h l by (simp add: utf16_units_def)
    then show ?thesis using True d wf 3 by simp
  next
    case False
    with 3 show ?thesis by (auto simp: utf16_units_def)
  qed
qed

lemma stripBOM_scalars:
  "wellFormed s \<Longrightarrow> (case s of [] \<Rightarrow> True | c # r \<Rightarrow> c \<noteq> 0xFEFF) \<Longrightarrow> stripBOM (scalars s) = scalars s"
  by (induction s rule: wellFormed.induct) (auto simp: stripBOM_def isHigh_def isLow_def)

lemma decode_encode:
  assumes "wellFormed s" and "case s of [] \<Rightarrow> True | c # r \<Rightarrow> c \<noteq> 0xFEFF"
  shows "TextDecoder_decode (TextEncoder_encode s) = s"
proof -
  have "utf8_decode (TextEncoder_encode s) = scalars s"
    using decode_concat_bytes [OF scalars_wellFormed [OF assms(1)], of "[]"]
    by (simp add: TextEncoder_encode_def)
  then show ?thesis
    using assms by (simp add: TextDecoder_decode_def stripBOM_scalars units_scalars)
qed

lemma scalar_FFFD: "scalarValue 0xFFFD"
  by (simp add: scalarValue_def)

lemma step_scalar: "scalarValue (fst (utf8_step b bs))"
proof -
  consider "b < 0x80" | "0xC2 \<le> b" "b \<le> 0xDF" | "0xE0 \<le> b" "b \<le> 0xEF"
    | "0xF0 \<le> b" "b \<le> 0xF4" | "0x80 \<le> b" "b < 0xC2" | "0xF4 < b"
    by linarith
  then show ?thesis
  proof cases
    case 1
    then show ?thesis by (simp add: utf8_step_def scalarValue_def)
  next
    case 2
    then have "utf8_step b bs =
       (case bs of
          b2 # r \<Rightarrow> if cont b2 then ((b - 0xC0) * 64 + (b2 - 0x80), 1) else (0xFFFD, 0)
        | [] \<Rightarrow> (0xFFFD, 0))"
      by (simp add: utf8_step_def)
    then show ?thesis using 2
      by (auto simp: cont_def scalarValue_def split: list.splits)
  next
    case 3
    then have "utf8_step b bs =
       (case bs of
          b2 # r \<Rightarrow>
            if (if b = 0xE0 then 0xA0 else 0x80) \<le> b2 \<and> b2 \<le> (if b = 0xED then 0x9F else 0xBF) then
              (case r of
                 b3 # r' \<Rightarrow>
                   if cont b3 then ((b - 0xE0) * 4096 + (b2 - 0x80) * 64 + (b3 - 0x80), 2)
                   else (0xFFFD, 1)
               | [] \<Rightarrow> (0xFFFD, 1))
            else (0xFFFD, 0)
        | [] \<Rightarrow> (0xFFFD, 0))"
      by (simp add: utf8_step_def)
    moreover have "b \<le> 236 \<or> b = 237 \<or> 238 \<le> b" by linarith
    ultimately show ?thesis using 3
      by (auto simp: cont_def scalarValue_def split: list.splits)
  next
    case 4
    then have "utf8_step b bs =
       (case bs of
          b2 # r \<Rightarrow>
            if (if b = 0xF0 then 0x90 else 0x80) \<le> b2 \<and> b2 \<le> (if b = 0xF4 then 0x8F else 0xBF) then
              (case r of
                 b3 # r' \<Rightarrow>
                   if cont b3 then
                     (case r' of
                        b4 # r'' \<Rightarrow>
                          if cont b4
                          then ((b - 0xF0) * 262144 + (b2 - 0x80) * 4096 + (b3 - 0x80) * 64
                                 + (b4 - 0x80), 3)
                          else (0xFFFD, 2)
                      | [] \<Rightarrow> (0xFFFD, 2))
                   else (0xFFFD, 1)
               | [] \<Rightarrow> (0xFFFD, 1))
            else (0xFFFD, 0)
        | [] \<Rightarrow> (0xFFFD, 0))"
      by (simp add: utf8_step_def)
    moreover have "b = 240 \<or> b = 241 \<or> b = 242 \<or> b = 243 \<or> b = 244" using 4 by linarith
    ultimately show ?thesis
      by (auto simp: cont_def scalarValue_def split: list.splits)
  next
    case 5
    then show ?thesis by (simp add: utf8_step_def scalarValue_def)
  next
    case 6
    then show ?thesis by (simp add: utf8_step_def scalarValue_def)
  qed
qed

lemma decode_scalars: "list_all scalarValue (utf8_decode bs)"
  by (induction bs rule: utf8_decode.induct) (simp_all add: step_scalar)

lemma wellFormed_bmp:
  "c < 0x10000 \<Longrightarrow> \<not> isHigh c \<Longrightarrow> \<not> isLow c \<Longrightarrow> wellFormed (c # s) = wellFormed s"
  by (cases s) simp_all

lemma wellFormed_units: "list_all scalarValue cs \<Longrightarrow> wellFormed (concat (map utf16_units cs))"
proof (induction cs)
  case Nil
  then show ?case by simp
next
  case (Cons c cs)
  then have c: "scalarValue c" and wf: "wellFormed (concat (map utf16_units cs))" by simp_all
  show ?case
  proof (cases "c < 0x10000")
    case True
    then have "\<not> isHigh c" "\<not> isLow c" using c by (auto simp: scalarValue_def isHigh_def isLow_def)
    moreover have "utf16_units c = [c]" using True by (simp add: utf16_units_def)
    ultimately show ?thesis using True wf by (simp add: wellFormed_bmp)
  next
    case False
    define x where "x = c - 0x10000"
    have x: "c = 0x10000 + x" "x < 1048576" using False c by (auto simp: x_def scalarValue_def)
    have "x div 1024 < 1024" using x by simp
    then have "isHigh (0xD800 + x div 1024)" "isLow (0xDC00 + x mod 1024)"
      by (simp_all add: isHigh_def isLow_def)
    moreover have "utf16_units c = [0xD800 + x div 1024, 0xDC00 + x mod 1024]"
      using False by (simp add: utf16_units_def x_def)
    ultimately show ?thesis using wf by simp
  qed
qed

lemma stripBOM_scalars_all: "list_all scalarValue cs \<Longrightarrow> list_all scalarValue (stripBOM cs)"
  by (cases cs) (simp_all add: stripBOM_def)

lemma wellFormed_decode: "wellFormed (TextDecoder_decode bs)"
  by (simp add: TextDecoder_decode_def wellFormed_units stripBOM_scalars_all decode_scalars)

subsection \<open>The object store\<close>

lemma GetObject_PutObject:
  "GetObject (PutObject e k bd ct md b) k' =
     (if k' = k then Some \<lparr>Body = bd, ContentType = ct, Metadata = md, LastModified = now e\<rparr>
      else GetObject b k')"
  by (simp add: GetObject_def PutObject_def update_conv')

lemma GetObject_Some_iff: "(GetObject b k \<noteq> None) = (k \<in> fst ` set b)"
  by (simp add: GetObject_def map_of_eq_None_iff)

lemma set_keysUnder: "set (keysUnder b p) = {k. GetObject b k \<noteq> None \<and> prefix p k}"
proof -
  have "set (keysUnder b p) = {k \<in> fst ` set b. prefix p k}"
    by (auto simp: keysUnder_def)
  then show ?thesis by (simp add: GetObject_Some_iff [symmetric])
qed

lemma distinct_keysUnder: "distinct (keysUnder b p)"
  by (simp add: keysUnder_def)

text \<open>A page holds keys of the bucket only, and all of them when they are at most 1000.\<close>

lemma listed_present: "k \<in> set (ListObjectsV2 b p) \<Longrightarrow> GetObject b k \<noteq> None"
  using set_take_subset [of 1000 "keysUnder b p"] by (auto simp: ListObjectsV2_def set_keysUnder)

lemma listed_prefix: "k \<in> set (ListObjectsV2 b p) \<Longrightarrow> prefix p k"
  using set_take_subset [of 1000 "keysUnder b p"] by (auto simp: ListObjectsV2_def set_keysUnder)

lemma set_ListObjectsV2:
  "length (keysUnder b p) \<le> 1000
     \<Longrightarrow> set (ListObjectsV2 b p) = {k. GetObject b k \<noteq> None \<and> prefix p k}"
  by (simp add: ListObjectsV2_def set_keysUnder)

subsection \<open>Sorting\<close>

lemma set_insertSorted: "set (insertSorted cmp x ys) = insert x (set ys)"
  by (induction ys) auto

lemma set_js_sort: "set (js_sort cmp xs) = set xs"
  by (induction xs) (simp_all add: js_sort_def set_insertSorted)

lemma sorted_insertSorted:
  assumes "sorted_wrt (\<lambda>a b. t b \<le> t a) ys"
    and "\<And>y. y \<in> set ys \<Longrightarrow> (cmp x y \<le> 0) = (t y \<le> (t x :: int))"
  shows "sorted_wrt (\<lambda>a b. t b \<le> t a) (insertSorted cmp x ys)"
  using assms
proof (induction ys)
  case Nil
  then show ?case by simp
next
  case (Cons y ys)
  show ?case
  proof (cases "cmp x y \<le> 0")
    case True
    then have "t y \<le> t x" using Cons.prems(2) [of y] by simp
    then show ?thesis using True Cons.prems(1) by auto
  next
    case False
    then have "t x \<le> t y" using Cons.prems(2) [of y] by simp
    moreover have "sorted_wrt (\<lambda>a b. t b \<le> t a) (insertSorted cmp x ys)"
      using Cons by simp
    ultimately show ?thesis using False Cons.prems(1) by (auto simp: set_insertSorted)
  qed
qed

lemma byDateDesc_valid:
  "timestampTime e a = Some ta \<Longrightarrow> timestampTime e b = Some tb \<Longrightarrow> byDateDesc e a b = tb - ta"
  by (simp add: byDateDesc_def)

lemma sorted_js_sort:
  assumes "\<forall>x\<in>set xs. timestampTime e x \<noteq> None"
  shows "sorted_wrt (\<lambda>a b. the (timestampTime e b) \<le> the (timestampTime e a))
           (js_sort (byDateDesc e) xs)"
  using assms
proof (induction xs)
  case Nil
  then show ?case by (simp add: js_sort_def)
next
  case (Cons x xs)
  then have sorted: "sorted_wrt (\<lambda>a b. the (timestampTime e b) \<le> the (timestampTime e a))
      (js_sort (byDateDesc e) xs)" by simp
  obtain tx where tx: "timestampTime e x = Some tx" using Cons.prems by auto
  have cmp: "(byDateDesc e x y \<le> 0) = (the (timestampTime e y) \<le> the (timestampTime e x))"
    if "y \<in> set (js_sort (byDateDesc e) xs)" for y
  proof -
    from that Cons.prems obtain ty where "timestampTime e y = Some ty"
      by (auto simp: set_js_sort)
    then show ?thesis using tx by (simp add: byDateDesc_valid)
  qed
  have "sorted_wrt (\<lambda>a b. the (timestampTime e b) \<le> the (timestampTime e a))
      (insertSorted (byDateDesc e) x (js_sort (byDateDesc e) xs))"
    using sorted cmp by (rule sorted_insertSorted)
  then show ?case by (simp add: js_sort_def)
qed


subsection \<open>Keys\<close>

lemma commit_prefix: "prefix (''repositories/'' @ R @ ''/commits/'' @ F @ ''/'') (commitKey R F T)"
  by (simp add: commitKey_def)

lemma pendingMeta_prefix: "prefix (''repositories/'' @ R @ ''/pending-meta/'') (pendingMetaKey R F T)"
  by (simp add: pendingMetaKey_def)

lemma keys_differ [simp]:
  "fileKey R F \<noteq> versionKey R ''history'' F' T'"
  "fileKey R F \<noteq> versionKey R ''pending'' F' T'"
  "fileKey R F \<noteq> commitKey R F' T'"
  "fileKey R F \<noteq> pendingMetaKey R F' T'"
  "versionKey R ''history'' F T \<noteq> commitKey R F' T'"
  "versionKey R ''history'' F T \<noteq> pendingMetaKey R F' T'"
  "versionKey R ''history'' F T \<noteq> versionKey R ''pending'' F' T'"
  "versionKey R ''pending'' F T \<noteq> commitKey R F' T'"
  "versionKey R ''pending'' F T \<noteq> pendingMetaKey R F' T'"
  "commitKey R F T \<noteq> pendingMetaKey R F' T'"
  by (simp_all add: fileKey_def versionKey_def commitKey_def pendingMetaKey_def)

lemma key_inj [simp]:
  "(fileKey R F = fileKey R F') = (F = F')"
  "(versionKey R d F T = versionKey R d F T') = (T = T')"
  "(commitKey R F T = commitKey R F T') = (T = T')"
  "(pendingMetaKey R F T = pendingMetaKey R F T') = (T = T')"
  by (simp_all add: fileKey_def versionKey_def commitKey_def pendingMetaKey_def)

subsection \<open>Committing and listing\<close>

lemma commitFileVersion_result:
  assumes "commitFileVersion e R F content M prev b = (Inr T, b')"
  shows "initialized e" and "T = now e" and "currentUser e \<noteq> None"
    and "map_option Body (GetObject b' (historyKey R F T)) = Some (Bytes (TextEncoder_encode content))"
    and "map_option Body (GetObject b' (fileKey R F)) = Some (Bytes (TextEncoder_encode content))"
    and "\<exists>r d. GetObject b' (commitKey R F T) = Some r \<and> Body r = Json d
           \<and> map_of d ''timestamp'' = Some T \<and> map_of d ''message'' = Some M"
    and "\<And>k. k \<noteq> fileKey R F \<Longrightarrow> k \<noteq> historyKey R F T \<Longrightarrow> k \<noteq> commitKey R F T
           \<Longrightarrow> GetObject b' k = GetObject b k"
  using assms
  by (auto simp: commitFileVersion_def Let_def GetObject_PutObject historyKey_def
      split: if_splits option.splits)

lemma update_other [simp]: "k' \<noteq> k \<Longrightarrow> map_of (AList.update k v al) k' = map_of al k'"
  by (simp add: update_conv')

lemma commitEntries_listed:
  assumes "\<forall>k\<in>set ks. GetObject b k \<noteq> None"
  shows "\<exists>cs. commitEntries b ks = Inr cs
           \<and> (\<forall>k\<in>set ks. \<forall>r d. GetObject b k = Some r \<longrightarrow> Body r = Json d
                 \<longrightarrow> AList.update ''id'' (entryId k) d \<in> set cs)"
  using assms
proof (induction ks)
  case Nil
  then show ?case by simp
next
  case (Cons k ks)
  then obtain cs where cs: "commitEntries b ks = Inr cs"
    and mem: "\<forall>k\<in>set ks. \<forall>r d. GetObject b k = Some r \<longrightarrow> Body r = Json d
                 \<longrightarrow> AList.update ''id'' (entryId k) d \<in> set cs"
    by auto
  from Cons.prems obtain r where r: "GetObject b k = Some r" by auto
  show ?case
  proof (cases "Body r")
    case (Bytes bs)
    then show ?thesis using cs mem r by (auto simp: JSON_parse_def)
  next
    case (Json d)
    then show ?thesis using cs mem r by (auto simp: JSON_parse_def)
  qed
qed

lemma history_succeeds:
  assumes "initialized e"
  shows "\<exists>cs. getFileCommitHistory e R F b = Inr cs"
proof -
  let ?ks = "ListObjectsV2 b (''repositories/'' @ R @ ''/commits/'' @ F @ ''/'')"
  have "\<forall>k\<in>set ?ks. GetObject b k \<noteq> None" using listed_present by blast
  from commitEntries_listed [OF this] obtain cs where "commitEntries b ?ks = Inr cs" by blast
  then show ?thesis using assms by (simp add: getFileCommitHistory_def)
qed

lemma history_lists_commit:
  assumes "initialized e" and "GetObject b k = Some r" and "Body r = Json d"
    and "prefix (''repositories/'' @ R @ ''/commits/'' @ F @ ''/'') k"
    and "length (keysUnder b (''repositories/'' @ R @ ''/commits/'' @ F @ ''/'')) \<le> 1000"
  shows "\<exists>cs. getFileCommitHistory e R F b = Inr cs \<and> AList.update ''id'' (entryId k) d \<in> set cs"
proof -
  let ?ks = "ListObjectsV2 b (''repositories/'' @ R @ ''/commits/'' @ F @ ''/'')"
  have "\<forall>k\<in>set ?ks. GetObject b k \<noteq> None" using listed_present by blast
  from commitEntries_listed [OF this] obtain cs where cs: "commitEntries b ?ks = Inr cs"
    and mem: "\<forall>k\<in>set ?ks. \<forall>r d. GetObject b k = Some r \<longrightarrow> Body r = Json d
                 \<longrightarrow> AList.update ''id'' (entryId k) d \<in> set cs"
    by blast
  have "set ?ks = {k. GetObject b k \<noteq> None \<and> prefix (''repositories/'' @ R @ ''/commits/'' @ F @ ''/'') k}"
    using assms(5) by (rule set_ListObjectsV2)
  then have "k \<in> set ?ks" using assms(2,4) by auto
  then have "AList.update ''id'' (entryId k) d \<in> set cs" using mem assms(2,3) by blast
  then show ?thesis using cs assms(1) by (simp add: getFileCommitHistory_def set_js_sort)
qed

text \<open>A commit adds one key under the prefix of the file's commit records.\<close>

lemma commit_adds_one_record:
  assumes "commitFileVersion e R F content M prev b = (Inr T, b')"
  shows "length (keysUnder b' (''repositories/'' @ R @ ''/commits/'' @ F @ ''/''))
           \<le> Suc (length (keysUnder b (''repositories/'' @ R @ ''/commits/'' @ F @ ''/'')))"
proof -
  let ?p = "''repositories/'' @ R @ ''/commits/'' @ F @ ''/''"
  have other: "\<not> prefix ?p (fileKey R F)" "\<not> prefix ?p (historyKey R F T)"
    by (simp_all add: fileKey_def historyKey_def versionKey_def)
  have "set (keysUnder b' ?p) \<subseteq> insert (commitKey R F T) (set (keysUnder b ?p))"
  proof
    fix k
    assume "k \<in> set (keysUnder b' ?p)"
    then have k: "GetObject b' k \<noteq> None" "prefix ?p k" by (simp_all add: set_keysUnder)
    show "k \<in> insert (commitKey R F T) (set (keysUnder b ?p))"
    proof (cases "k = commitKey R F T")
      case True
      then show ?thesis by simp
    next
      case False
      moreover from k(2) other have "k \<noteq> fileKey R F" "k \<noteq> historyKey R F T" by auto
      ultimately have "GetObject b' k = GetObject b k"
        using commitFileVersion_result(7) [OF assms] by blast
      then show ?thesis using k by (simp add: set_keysUnder)
    qed
  qed
  then have "card (set (keysUnder b' ?p)) \<le> card (insert (commitKey R F T) (set (keysUnder b ?p)))"
    by (intro card_mono) simp_all
  also have "\<dots> \<le> Suc (card (set (keysUnder b ?p)))" by (rule card_insert_le_m1) simp_all
  finally show ?thesis by (simp add: distinct_card distinct_keysUnder)
qed


lemma version_after_commit:
  assumes "commitFileVersion e R F content M prev b = (Inr T, b')"
    and "initialized e'"
  shows "getFileVersion e' R F T False b' = Inr (TextDecoder_decode (TextEncoder_encode content))"
  using commitFileVersion_result(4) [OF assms(1)] assms(2)
  by (auto simp: getFileVersion_def historyKey_def bodyBytes_def)

subsection \<open>C1: a commit can be listed and read back\<close>

text \<open>
  C1, as stated, fails at the content: \<open>TextDecoder\<close> drops a leading U+FEFF, and
  \<open>TextEncoder\<close> replaces an unpaired surrogate by U+FFFD. Committing the string
  \<open>"\\uFEFFhi"\<close> and fetching the version gives \<open>"hi"\<close>; committing \<open>"h\\uD800"\<close>
  gives \<open>"h\\uFFFD"\<close>.
\<close>

lemma encode_BOM_hi: "TextEncoder_encode [0xFEFF, 104, 105] = [239, 187, 191, 104, 105]"
  by (simp add: TextEncoder_encode_def utf8_bytes_def isHigh_def isLow_def)

lemma decode_BOM_hi: "TextDecoder_decode [239, 187, 191, 104, 105] = [104, 105]"
  by (simp add: TextDecoder_decode_def utf8_step_def cont_def stripBOM_def utf16_units_def)

lemma encode_lone_surrogate: "TextEncoder_encode [104, 0xD800] = [104, 239, 191, 189]"
  by (simp add: TextEncoder_encode_def utf8_bytes_def isHigh_def isLow_def)

lemma decode_replacement: "TextDecoder_decode [104, 239, 191, 189] = [104, 0xFFFD]"
  by (simp add: TextDecoder_decode_def utf8_step_def cont_def stripBOM_def utf16_units_def)

lemma encode_hi: "TextEncoder_encode [104, 105] = [104, 105]"
  by (simp add: TextEncoder_encode_def utf8_bytes_def isHigh_def isLow_def)

lemma decode_hi: "TextDecoder_decode [104, 105] = [104, 105]"
  by (simp add: TextDecoder_decode_def utf8_step_def cont_def stripBOM_def utf16_units_def)

theorem commit_then_read_counterexample:
  "fst (commitFileVersion (envAt (Some alice) ''2024-05-01T10:00:00.000Z'') ''repo1'' ''readme.txt''
          [0xFEFF, 104, 105] ''init'' None []) = Inr ''2024-05-01T10:00:00.000Z''
   \<and> getFileVersion (envAt (Some alice) ''2024-05-01T10:00:00.000Z'') ''repo1'' ''readme.txt''
        ''2024-05-01T10:00:00.000Z'' False
        (snd (commitFileVersion (envAt (Some alice) ''2024-05-01T10:00:00.000Z'') ''repo1''
                ''readme.txt'' [0xFEFF, 104, 105] ''init'' None []))
      = Inr [104, 105]
   \<and> fst (commitFileVersion (envAt (Some alice) ''2024-05-01T10:00:00.000Z'') ''repo1'' ''readme.txt''
          [104, 0xD800] ''init'' None []) = Inr ''2024-05-01T10:00:00.000Z''
   \<and> getFileVersion (envAt (Some alice) ''2024-05-01T10:00:00.000Z'') ''repo1'' ''readme.txt''
        ''2024-05-01T10:00:00.000Z'' False
        (snd (commitFileVersion (envAt (Some alice) ''2024-05-01T10:00:00.000Z'') ''repo1''
                ''readme.txt'' [104, 0xD800] ''init'' None []))
      = Inr [104, 0xFFFD]"
  by (simp add: commitFileVersion_def getFileVersion_def envAt_def alice_def Let_def
      GetObject_PutObject historyKey_def bodyBytes_def encode_BOM_hi decode_BOM_hi
      encode_lone_surrogate decode_replacement)

text \<open>
  C1, amended. If \<open>commitFileVersion\<close> succeeds with timestamp \<open>T\<close>, then on the
  bucket it leaves (no write in between) \<open>getFileCommitHistory\<close> succeeds, and when the
  file had fewer than 1000 commit records before, so that the one page the function reads
  holds them all, its list has an entry whose timestamp is \<open>T\<close> and whose message is the
  commit message; \<open>getFileVersion\<close> at \<open>T\<close> returns the content passed through
  \<open>TextEncoder\<close> and \<open>TextDecoder\<close>: exactly the content passed to commit whenever
  that string has no unpaired surrogate and does not begin with U+FEFF.
\<close>

theorem commit_then_read:
  assumes "commitFileVersion e R F content M prev b = (Inr T, b')"
    and "initialized e'"
  shows "(\<exists>cs. getFileCommitHistory e' R F b' = Inr cs
            \<and> (length (keysUnder b (''repositories/'' @ R @ ''/commits/'' @ F @ ''/'')) < 1000
                 \<longrightarrow> (\<exists>c\<in>set cs. map_of c ''timestamp'' = Some T \<and> map_of c ''message'' = Some M)))
       \<and> getFileVersion e' R F T False b' = Inr (TextDecoder_decode (TextEncoder_encode content))
       \<and> (wellFormed content \<and> (case content of [] \<Rightarrow> True | c # cs \<Rightarrow> c \<noteq> 0xFEFF)
            \<longrightarrow> getFileVersion e' R F T False b' = Inr content)"
proof -
  let ?p = "''repositories/'' @ R @ ''/commits/'' @ F @ ''/''"
  from commitFileVersion_result(6) [OF assms(1)] obtain r d
    where r: "GetObject b' (commitKey R F T) = Some r" "Body r = Json d"
      and d: "map_of d ''timestamp'' = Some T" "map_of d ''message'' = Some M"
    by blast
  from history_succeeds [OF assms(2)] obtain cs
    where cs: "getFileCommitHistory e' R F b' = Inr cs"
    by blast
  have listed: "\<exists>c\<in>set cs. map_of c ''timestamp'' = Some T \<and> map_of c ''message'' = Some M"
    if few: "length (keysUnder b ?p) < 1000"
  proof -
    have "length (keysUnder b' ?p) \<le> 1000"
      using commit_adds_one_record [OF assms(1)] few by simp
    from history_lists_commit [OF assms(2) r commit_prefix this] cs
    have mem: "AList.update ''id'' (entryId (commitKey R F T)) d \<in> set cs"
      by simp
    have "map_of (AList.update ''id'' (entryId (commitKey R F T)) d) ''timestamp'' = Some T"
         "map_of (AList.update ''id'' (entryId (commitKey R F T)) d) ''message'' = Some M"
      using d by simp_all
    then show ?thesis using mem by blast
  qed
  have version: "getFileVersion e' R F T False b' = Inr (TextDecoder_decode (TextEncoder_encode content))"
    using assms by (rule version_after_commit)
  show ?thesis using cs listed version by (simp add: decode_encode)
qed

theorem commit_then_read_witness:
  "(\<exists>cs. getFileCommitHistory (envAt None ''2024-05-02T10:00:00.000Z'') ''repo1'' ''readme.txt''
           (snd (commitFileVersion (envAt (Some alice) ''2024-05-01T10:00:00.000Z'') ''repo1''
                   ''readme.txt'' [104, 105] ''init'' None [])) = Inr cs
        \<and> (\<exists>c\<in>set cs. map_of c ''timestamp'' = Some ''2024-05-01T10:00:00.000Z''
                \<and> map_of c ''message'' = Some ''init''))
   \<and> getFileVersion (envAt None ''2024-05-02T10:00:00.000Z'') ''repo1'' ''readme.txt''
        ''2024-05-01T10:00:00.000Z'' False
        (snd (commitFileVersion (envAt (Some alice) ''2024-05-01T10:00:00.000Z'') ''repo1''
                ''readme.txt'' [104, 105] ''init'' None []))
      = Inr [104, 105]"
proof -
  have h: "commitFileVersion (envAt (Some alice) ''2024-05-01T10:00:00.000Z'') ''repo1''
             ''readme.txt'' [104, 105] ''init'' None []
           = (Inr ''2024-05-01T10:00:00.000Z'',
              snd (commitFileVersion (envAt (Some alice) ''2024-05-01T10:00:00.000Z'') ''repo1''
                     ''readme.txt'' [104, 105] ''init'' None []))"
    by (simp add: commitFileVersion_def envAt_def alice_def Let_def)
  have i: "initialized (envAt None ''2024-05-02T10:00:00.000Z'')"
    by (simp add: envAt_def)
  have w: "wellFormed [104, 105] \<and> (case [104, 105 :: nat] of [] \<Rightarrow> True | c # cs \<Rightarrow> c \<noteq> 0xFEFF)"
    by (simp add: isHigh_def isLow_def)
  have n: "length (keysUnder [] (''repositories/'' @ ''repo1'' @ ''/commits/'' @ ''readme.txt'' @ ''/''))
             < 1000"
    by (simp add: keysUnder_def)
  show ?thesis using commit_then_read [OF h i] w n by blast
qed

subsection \<open>The pending-commit flow\<close>

lemma createNotification_frame:
  "bucket (snd (createNotification e i t m d w)) = bucket w"
  "repositories (snd (createNotification e i t m d w)) = repositories w"
  "pullRequests (snd (createNotification e i t m d w)) = pullRequests w"
  by (simp_all add: createNotification_def split: option.splits)

lemma getRepository_owner:
  assumes "currentUser e = Some u" and "repos R = Some d" and "ownerId d = uid u"
  shows "\<exists>r. getRepository e R repos = Inr r \<and> ownerId r = uid u \<and> name r = name d"
  using assms by (simp add: getRepository_def Let_def)

lemma createPendingCommit_result:
  assumes "initialized e" and "currentUser e = Some u"
  shows "fst (createPendingCommit e R F content M w) = Inr (now e)"
    and "bucket (snd (createPendingCommit e R F content M w)) =
           PutObject e (pendingMetaKey R F (now e))
             (Json [(''message'', M), (''timestamp'', now e), (''author'', js_or (email u) (uid u)),
                    (''authorId'', uid u), (''fileName'', F), (''status'', ''pending'')])
             ''application/json'' []
             (PutObject e (pendingKey R F (now e)) (Bytes (TextEncoder_encode content)) ''text/plain''
                [(''user-id'', uid u), (''user-email'', js_or (email u) ''''),
                 (''commit-message'', M), (''timestamp'', now e)] (bucket w))"
    and "repositories (snd (createPendingCommit e R F content M w)) = repositories w"
  using assms
  by (simp_all add: createPendingCommit_def Let_def createNotification_frame
      split: sum.splits)

lemma uploadFileWithCommit_result:
  assumes "initialized e" and "currentUser e = Some cu" and "truthy content"
  shows "uploadFileWithCommit e R F content M (Some u) b =
          (Inr (now e),
           PutObject e (commitKey R F (now e))
             (Json [(''message'', M), (''timestamp'', now e), (''author'', js_or (email u) (uid u))])
             ''application/json'' []
             (PutObject e (historyKey R F (now e))
                (Bytes (TextEncoder_encode (case content of Str s \<Rightarrow> s | Buf bs \<Rightarrow> TextDecoder_decode bs)))
                ''text/plain''
                [(''user-id'', uid u), (''user-email'', js_or (email u) ''''),
                 (''commit-message'', M), (''timestamp'', now e)]
                (PutObject e (fileKey R F)
                   (Bytes (case content of Str s \<Rightarrow> TextEncoder_encode s | Buf bs \<Rightarrow> bs))
                   (if isTextFile F then ''text/plain'' else ''application/octet-stream'')
                   [(''user-id'', uid cu), (''uploaded-at'', now e), (''original-filename'', F)] b)))"
  using assms by (simp add: uploadFileWithCommit_def uploadFileToS3_def Let_def)

lemma uploadFileWithCommit_frame:
  assumes "k \<noteq> fileKey R F" and "k \<noteq> historyKey R F (now e)" and "k \<noteq> commitKey R F (now e)"
  shows "GetObject (snd (uploadFileWithCommit e R F content M u b)) k = GetObject b k"
  using assms
  by (simp add: uploadFileWithCommit_def uploadFileToS3_def Let_def GetObject_PutObject
      split: option.splits)

lemma map_of_processedMetadata:
  "map_of (processedMetadata e u m s c) ''status'' = Some s"
  "map_of (processedMetadata e u m s c) ''processedBy'' = Some (js_or (email u) (uid u))"
  "p \<noteq> ''status'' \<Longrightarrow> p \<noteq> ''processedBy'' \<Longrightarrow> p \<noteq> ''processedAt'' \<Longrightarrow> p \<noteq> ''comment''
     \<Longrightarrow> map_of (processedMetadata e u m s c) p = map_of m p"
  by (simp_all add: processedMetadata_def update_conv')

lemma processPendingCommit_bucket:
  assumes "initialized e" and "currentUser e = Some u" and "repositories w R = Some repo"
    and "ownerId repo = uid u"
    and "GetObject (bucket w) (pendingMetaKey R F req) = Some mr" and "Body mr = Json m"
    and "approve \<longrightarrow> GetObject (bucket w) (pendingKey R F req) = Some fr"
  shows "fst (processPendingCommit e R req F approve comment w) = Inr ()"
    and "bucket (snd (processPendingCommit e R req F approve comment w)) =
          PutObject e (pendingMetaKey R F req)
            (Json (processedMetadata e u m (if approve then ''approved'' else ''rejected'') comment))
            ''application/json'' []
            (if approve
             then snd (uploadFileWithCommit e R F (Str (TextDecoder_decode (bodyBytes (Body fr))))
                         (tmplUndefined (map_of m ''message'') @ '' (Approved by ''
                            @ tmplNull (email u) @ '')'')
                         (Some u) (bucket w))
             else bucket w)"
proof -
  from getRepository_owner [of e u "repositories w" R repo, OF assms(2,3,4)] obtain r
    where r: "getRepository e R (repositories w) = Inr r" "ownerId r = uid u" by blast
  show "fst (processPendingCommit e R req F approve comment w) = Inr ()"
    using assms r by (cases approve) (simp_all add: processPendingCommit_def Let_def JSON_parse_def)
  show "bucket (snd (processPendingCommit e R req F approve comment w)) =
          PutObject e (pendingMetaKey R F req)
            (Json (processedMetadata e u m (if approve then ''approved'' else ''rejected'') comment))
            ''application/json'' []
            (if approve
             then snd (uploadFileWithCommit e R F (Str (TextDecoder_decode (bodyBytes (Body fr))))
                         (tmplUndefined (map_of m ''message'') @ '' (Approved by ''
                            @ tmplNull (email u) @ '')'')
                         (Some u) (bucket w))
             else bucket w)"
    using assms r
    by (cases approve)
      (simp_all add: processPendingCommit_def Let_def JSON_parse_def createNotification_frame)
qed

lemma isTextFile_readme: "isTextFile ''readme.txt''"
  by code_simp

lemmas pending_eval =
  createPendingCommit_def processPendingCommit_def getRepository_def createNotification_def
  uploadFileWithCommit_def uploadFileToS3_def processedMetadata_def JSON_parse_def
  includesOpt_def truthy_def bodyBytes_def js_or_def tmplNull_def tmplUndefined_def
  GetObject_PutObject Let_def envAt_def alice_def bob_def sampleRepo_def repoWorld_def
  pendingWorld_def rejectedWorld_def historyKey_def pendingKey_def isTextFile_readme
  encode_hi decode_hi

lemma hd_content: "content \<noteq> [] \<Longrightarrow> hd content \<noteq> c \<Longrightarrow> (case content of [] \<Rightarrow> True | x # xs \<Rightarrow> x \<noteq> c)"
  by (cases content) simp_all


subsection \<open>C6: approving a pending commit\<close>

text \<open>
  C6, as stated, fails at the attribution: \<open>processPendingCommit\<close> passes the
  approving owner to \<open>uploadFileWithCommit\<close>, so the commit metadata and the history
  blob of the new version name \<open>alice\<close>, not the submitter \<open>bob\<close>.
\<close>

theorem approved_commit_author_counterexample:
  "map_option Body
     (GetObject (bucket pendingWorld)
        (pendingMetaKey ''repo1'' ''readme.txt'' ''2024-05-01T10:00:00.000Z''))
     = Some (Json [(''message'', ''fix''), (''timestamp'', ''2024-05-01T10:00:00.000Z''),
                   (''author'', ''bob@example.org''), (''authorId'', ''bob''),
                   (''fileName'', ''readme.txt''), (''status'', ''pending'')])
   \<and> fst (processPendingCommit (envAt (Some alice) ''2024-05-02T10:00:00.000Z'') ''repo1''
            ''2024-05-01T10:00:00.000Z'' ''readme.txt'' True None pendingWorld) = Inr ()
   \<and> map_option Body
        (GetObject (bucket approvedWorld)
           (commitKey ''repo1'' ''readme.txt'' ''2024-05-02T10:00:00.000Z''))
     = Some (Json [(''message'', ''fix (Approved by alice@example.org)''),
                   (''timestamp'', ''2024-05-02T10:00:00.000Z''),
                   (''author'', ''alice@example.org'')])
   \<and> map_option Metadata
        (GetObject (bucket approvedWorld)
           (historyKey ''repo1'' ''readme.txt'' ''2024-05-02T10:00:00.000Z''))
     = Some [(''user-id'', ''alice''), (''user-email'', ''alice@example.org''),
             (''commit-message'', ''fix (Approved by alice@example.org)''),
             (''timestamp'', ''2024-05-02T10:00:00.000Z'')]"
  by (simp add: pending_eval approvedWorld_def)


text \<open>
  C6, amended. A collaborator who is not the owner submits non-empty content without
  unpaired surrogates and without a leading U+FEFF through \<open>createPendingCommit\<close>, and
  the owner approves the request. Then both calls succeed; the file's current content and
  the history snapshot at the time of approval are the submitted content; the commit
  metadata of the new version has the approving owner as \<open>author\<close> and the submitter's
  message followed by \<open>(Approved by <owner's e-mail>)\<close>; the pending metadata keeps the
  submitter under \<open>author\<close> and \<open>authorId\<close>, has status \<open>approved\<close>, and records the
  owner under \<open>processedBy\<close>.
\<close>

theorem approved_commit_attribution:
  assumes "initialized e1" and "currentUser e1 = Some submitter"
    and "initialized e2" and "currentUser e2 = Some owner"
    and "repositories w R = Some repo" and "ownerId repo = uid owner"
    and "uid submitter \<noteq> uid owner"
    and "wellFormed content" and "content \<noteq> []" and "hd content \<noteq> 0xFEFF"
    and "w1 = snd (createPendingCommit e1 R F content M w)"
    and "w2 = snd (processPendingCommit e2 R (now e1) F True comment w1)"
  shows "fst (createPendingCommit e1 R F content M w) = Inr (now e1)
       \<and> fst (processPendingCommit e2 R (now e1) F True comment w1) = Inr ()
       \<and> map_option Body (GetObject (bucket w2) (fileKey R F)) = Some (Bytes (TextEncoder_encode content))
       \<and> map_option Body (GetObject (bucket w2) (historyKey R F (now e2)))
           = Some (Bytes (TextEncoder_encode content))
       \<and> map_option Body (GetObject (bucket w2) (commitKey R F (now e2)))
           = Some (Json [(''message'', M @ '' (Approved by '' @ tmplNull (email owner) @ '')''),
                         (''timestamp'', now e2),
                         (''author'', js_or (email owner) (uid owner))])
       \<and> (\<exists>m'. map_option Body (GetObject (bucket w2) (pendingMetaKey R F (now e1))) = Some (Json m')
              \<and> map_of m' ''author'' = Some (js_or (email submitter) (uid submitter))
              \<and> map_of m' ''authorId'' = Some (uid submitter)
              \<and> map_of m' ''status'' = Some ''approved''
              \<and> map_of m' ''processedBy'' = Some (js_or (email owner) (uid owner)))"
proof -
  let ?m = "[(''message'', M), (''timestamp'', now e1),
             (''author'', js_or (email submitter) (uid submitter)),
             (''authorId'', uid submitter), (''fileName'', F), (''status'', ''pending'')]"
  let ?mr = "\<lparr>Body = Json ?m, ContentType = ''application/json'', Metadata = [],
              LastModified = now e1\<rparr>"
  let ?fr = "\<lparr>Body = Bytes (TextEncoder_encode content), ContentType = ''text/plain'',
              Metadata = [(''user-id'', uid submitter), (''user-email'', js_or (email submitter) ''''),
                          (''commit-message'', M), (''timestamp'', now e1)],
              LastModified = now e1\<rparr>"
  note cp = createPendingCommit_result [OF assms(1,2), of R F content M w]
  have repo1: "repositories w1 R = Some repo" using assms(5,11) cp(3) by simp
  have meta1: "GetObject (bucket w1) (pendingMetaKey R F (now e1)) = Some ?mr"
    using assms(11) cp(2) by (simp add: GetObject_PutObject)
  have file1: "True \<longrightarrow> GetObject (bucket w1) (pendingKey R F (now e1)) = Some ?fr"
    using assms(11) cp(2) by (simp add: GetObject_PutObject pendingKey_def)
  note pp = processPendingCommit_bucket
    [OF assms(3,4) repo1 assms(6) meta1 _ file1, of ?m comment, simplified]
  have rt: "TextDecoder_decode (TextEncoder_encode content) = content"
    using assms(8) hd_content [OF assms(9,10)] by (rule decode_encode)
  have tr: "truthy (Str content)" using assms(9) by (simp add: truthy_def)
  note up = uploadFileWithCommit_result [OF assms(3,4) tr]
  have b2: "bucket w2 =
          PutObject e2 (pendingMetaKey R F (now e1))
            (Json (processedMetadata e2 owner ?m ''approved'' comment)) ''application/json'' []
            (snd (uploadFileWithCommit e2 R F (Str content)
                    (M @ '' (Approved by '' @ tmplNull (email owner) @ '')'') (Some owner) (bucket w1)))"
    using pp(2) assms(12) by (simp add: bodyBytes_def rt tmplUndefined_def)
  have cur: "map_option Body (GetObject (bucket w2) (fileKey R F)) = Some (Bytes (TextEncoder_encode content))"
    by (simp add: b2 up GetObject_PutObject historyKey_def)
  have hist: "map_option Body (GetObject (bucket w2) (historyKey R F (now e2)))
           = Some (Bytes (TextEncoder_encode content))"
    by (simp add: b2 up GetObject_PutObject historyKey_def)
  have commit: "map_option Body (GetObject (bucket w2) (commitKey R F (now e2)))
           = Some (Json [(''message'', M @ '' (Approved by '' @ tmplNull (email owner) @ '')''),
                         (''timestamp'', now e2),
                         (''author'', js_or (email owner) (uid owner))])"
    by (simp add: b2 up GetObject_PutObject historyKey_def)
  let ?m' = "processedMetadata e2 owner ?m ''approved'' comment"
  have meta: "map_option Body (GetObject (bucket w2) (pendingMetaKey R F (now e1))) = Some (Json ?m')"
    by (simp add: b2 GetObject_PutObject)
  have fields: "map_of ?m' ''author'' = Some (js_or (email submitter) (uid submitter))"
    "map_of ?m' ''authorId'' = Some (uid submitter)"
    "map_of ?m' ''status'' = Some ''approved''"
    "map_of ?m' ''processedBy'' = Some (js_or (email owner) (uid owner))"
    by (simp_all add: map_of_processedMetadata)
  from cp(1) pp(1) cur hist commit meta fields show ?thesis by blast
qed

theorem approved_commit_attribution_witness:
  "fst (processPendingCommit (envAt (Some alice) ''2024-05-02T10:00:00.000Z'') ''repo1''
            ''2024-05-01T10:00:00.000Z'' ''readme.txt'' True None pendingWorld) = Inr ()
   \<and> map_option Body (GetObject (bucket approvedWorld) (fileKey ''repo1'' ''readme.txt''))
       = Some (Bytes (TextEncoder_encode [104, 105]))
   \<and> (\<exists>m'. map_option Body
              (GetObject (bucket approvedWorld)
                 (pendingMetaKey ''repo1'' ''readme.txt'' ''2024-05-01T10:00:00.000Z''))
             = Some (Json m')
          \<and> map_of m' ''author'' = Some ''bob@example.org''
          \<and> map_of m' ''processedBy'' = Some ''alice@example.org'')"
proof -
  let ?e1 = "envAt (Some bob) ''2024-05-01T10:00:00.000Z''"
  let ?e2 = "envAt (Some alice) ''2024-05-02T10:00:00.000Z''"
  have 1: "initialized ?e1" and 2: "currentUser ?e1 = Some bob"
    and 3: "initialized ?e2" and 4: "currentUser ?e2 = Some alice"
    by (simp_all add: envAt_def)
  have 5: "repositories (repoWorld []) ''repo1'' = Some sampleRepo" by (simp add: repoWorld_def)
  have 6: "ownerId sampleRepo = uid alice" by (simp add: sampleRepo_def alice_def)
  have 7: "uid bob \<noteq> uid alice" by (simp add: bob_def alice_def)
  have 8: "wellFormed [104, 105]" by (simp add: isHigh_def isLow_def)
  have 9: "[104, 105 :: nat] \<noteq> []" and 10: "hd [104, 105 :: nat] \<noteq> 0xFEFF" by simp_all
  have n1: "now ?e1 = ''2024-05-01T10:00:00.000Z''" by (simp add: envAt_def)
  have 11: "pendingWorld = snd (createPendingCommit ?e1 ''repo1'' ''readme.txt'' [104, 105] ''fix''
              (repoWorld []))"
    by (simp add: pendingWorld_def)
  have 12: "approvedWorld = snd (processPendingCommit ?e2 ''repo1'' (now ?e1) ''readme.txt'' True None
              pendingWorld)"
    by (simp add: approvedWorld_def n1)
  have b: "js_or (email bob) (uid bob) = ''bob@example.org''"
    and a: "js_or (email alice) (uid alice) = ''alice@example.org''"
    by (simp_all add: js_or_def bob_def alice_def)
  note t = approved_commit_attribution [OF 1 2 3 4 5 6 7 8 9 10 11 12, unfolded n1 a b]
  from t obtain m' where m': "map_option Body
              (GetObject (bucket approvedWorld)
                 (pendingMetaKey ''repo1'' ''readme.txt'' ''2024-05-01T10:00:00.000Z''))
             = Some (Json m')"
      "map_of m' ''author'' = Some ''bob@example.org''"
      "map_of m' ''processedBy'' = Some ''alice@example.org''"
    by blast
  from t have p: "fst (processPendingCommit ?e2 ''repo1'' ''2024-05-01T10:00:00.000Z''
      ''readme.txt'' True None pendingWorld) = Inr ()"
    and f: "map_option Body (GetObject (bucket approvedWorld) (fileKey ''repo1'' ''readme.txt''))
       = Some (Bytes (TextEncoder_encode [104, 105]))"
    by blast+
  from p f m' show ?thesis by blast
qed

subsection \<open>C7: transitions of a pending change\<close>

text \<open>
  C7, as stated, fails: \<open>processPendingCommit\<close> reads the metadata record and never
  looks at its status. A change that \<open>alice\<close> has rejected is approved by a second
  call, which applies the content and sets the status to \<open>approved\<close>.
\<close>

theorem process_rejected_counterexample:
  "map_option Body
     (GetObject (bucket rejectedWorld)
        (pendingMetaKey ''repo1'' ''readme.txt'' ''2024-05-01T10:00:00.000Z''))
     = Some (Json [(''message'', ''fix''), (''timestamp'', ''2024-05-01T10:00:00.000Z''),
                   (''author'', ''bob@example.org''), (''authorId'', ''bob''),
                   (''fileName'', ''readme.txt''), (''status'', ''rejected''),
                   (''processedBy'', ''alice@example.org''),
                   (''processedAt'', ''2024-05-02T10:00:00.000Z''), (''comment'', '''')])
   \<and> fst (processPendingCommit (envAt (Some alice) ''2024-05-03T10:00:00.000Z'') ''repo1''
            ''2024-05-01T10:00:00.000Z'' ''readme.txt'' True None rejectedWorld) = Inr ()
   \<and> map_option Body
        (GetObject
           (bucket (snd (processPendingCommit (envAt (Some alice) ''2024-05-03T10:00:00.000Z'')
                           ''repo1'' ''2024-05-01T10:00:00.000Z'' ''readme.txt'' True None
                           rejectedWorld)))
           (pendingMetaKey ''repo1'' ''readme.txt'' ''2024-05-01T10:00:00.000Z''))
     = Some (Json [(''message'', ''fix''), (''timestamp'', ''2024-05-01T10:00:00.000Z''),
                   (''author'', ''bob@example.org''), (''authorId'', ''bob''),
                   (''fileName'', ''readme.txt''), (''status'', ''approved''),
                   (''processedBy'', ''alice@example.org''),
                   (''processedAt'', ''2024-05-03T10:00:00.000Z''), (''comment'', '''')])
   \<and> map_option Body
        (GetObject
           (bucket (snd (processPendingCommit (envAt (Some alice) ''2024-05-03T10:00:00.000Z'')
                           ''repo1'' ''2024-05-01T10:00:00.000Z'' ''readme.txt'' True None
                           rejectedWorld)))
           (fileKey ''repo1'' ''readme.txt''))
     = Some (Bytes [104, 105])"
  by (simp add: pending_eval)


text \<open>
  C7, amended. \<open>processPendingCommit\<close> re-reads the pending-metadata record before
  acting, and acts whatever status the record holds: for the repository's owner, a record
  that is there (and, to approve, a pending blob that is there) the call succeeds and
  rewrites the record at the same key with status \<open>approved\<close> or \<open>rejected\<close> as
  asked, the owner under \<open>processedBy\<close>, and the author and message it had. Nothing in
  the statement restricts the status found, so \<open>rejected\<close> to \<open>approved\<close> and
  \<open>approved\<close> to \<open>rejected\<close> are possible.
\<close>

theorem process_ignores_status:
  assumes "initialized e" and "currentUser e = Some u" and "repositories w R = Some repo"
    and "ownerId repo = uid u"
    and "GetObject (bucket w) (pendingMetaKey R F req) = Some mr" and "Body mr = Json m"
    and "approve \<longrightarrow> GetObject (bucket w) (pendingKey R F req) \<noteq> None"
  shows "fst (processPendingCommit e R req F approve comment w) = Inr ()
       \<and> (\<exists>m'. map_option Body
                  (GetObject (bucket (snd (processPendingCommit e R req F approve comment w)))
                     (pendingMetaKey R F req)) = Some (Json m')
              \<and> map_of m' ''status'' = Some (if approve then ''approved'' else ''rejected'')
              \<and> map_of m' ''processedBy'' = Some (js_or (email u) (uid u))
              \<and> map_of m' ''author'' = map_of m ''author''
              \<and> map_of m' ''message'' = map_of m ''message'')"
proof -
  obtain fr where fr: "approve \<longrightarrow> GetObject (bucket w) (pendingKey R F req) = Some fr"
    using assms(7) by (cases approve) auto
  note res = processPendingCommit_bucket [OF assms(1-6) fr, of comment]
  let ?m' = "processedMetadata e u m (if approve then ''approved'' else ''rejected'') comment"
  have "map_option Body
          (GetObject (bucket (snd (processPendingCommit e R req F approve comment w)))
             (pendingMetaKey R F req)) = Some (Json ?m')"
    by (simp add: res(2) GetObject_PutObject)
  moreover have "map_of ?m' ''status'' = Some (if approve then ''approved'' else ''rejected'')"
    "map_of ?m' ''processedBy'' = Some (js_or (email u) (uid u))"
    "map_of ?m' ''author'' = map_of m ''author''"
    "map_of ?m' ''message'' = map_of m ''message''"
    by (simp_all add: map_of_processedMetadata)
  ultimately show ?thesis using res(1) by blast
qed

theorem process_ignores_status_witness:
  "fst (processPendingCommit (envAt (Some alice) ''2024-05-03T10:00:00.000Z'') ''repo1''
          ''2024-05-01T10:00:00.000Z'' ''readme.txt'' True None rejectedWorld) = Inr ()
   \<and> (\<exists>m'. map_option Body
              (GetObject
                 (bucket (snd (processPendingCommit (envAt (Some alice) ''2024-05-03T10:00:00.000Z'')
                                 ''repo1'' ''2024-05-01T10:00:00.000Z'' ''readme.txt'' True None
                                 rejectedWorld)))
                 (pendingMetaKey ''repo1'' ''readme.txt'' ''2024-05-01T10:00:00.000Z''))
             = Some (Json m')
          \<and> map_of m' ''status'' = Some ''approved'')"
proof -
  let ?e = "envAt (Some alice) ''2024-05-03T10:00:00.000Z''"
  let ?m = "[(''message'', ''fix''), (''timestamp'', ''2024-05-01T10:00:00.000Z''),
             (''author'', ''bob@example.org''), (''authorId'', ''bob''),
             (''fileName'', ''readme.txt''), (''status'', ''rejected''),
             (''processedBy'', ''alice@example.org''),
             (''processedAt'', ''2024-05-02T10:00:00.000Z''), (''comment'', '''')]"
  let ?mr = "\<lparr>Body = Json ?m, ContentType = ''application/json'', Metadata = [],
              LastModified = ''2024-05-02T10:00:00.000Z''\<rparr>"
  have 1: "initialized ?e" and 2: "currentUser ?e = Some alice" by (simp_all add: envAt_def)
  have 3: "repositories rejectedWorld ''repo1'' = Some sampleRepo"
    by (simp add: pending_eval)
  have 4: "ownerId sampleRepo = uid alice" by (simp add: sampleRepo_def alice_def)
  have 5: "GetObject (bucket rejectedWorld)
             (pendingMetaKey ''repo1'' ''readme.txt'' ''2024-05-01T10:00:00.000Z'') = Some ?mr"
    by (simp add: pending_eval)
  have 6: "Body ?mr = Json ?m" by simp
  have 7: "True \<longrightarrow> GetObject (bucket rejectedWorld)
             (pendingKey ''repo1'' ''readme.txt'' ''2024-05-01T10:00:00.000Z'') \<noteq> None"
    by (simp add: pending_eval)
  show ?thesis using process_ignores_status [OF 1 2 3 4 5 6 7, of None] by auto
qed


subsection \<open>C8: restoring a version\<close>

lemma getFileVersion_initialized:
  "initialized e \<Longrightarrow> initialized e' \<Longrightarrow> getFileVersion e' R F T p b = getFileVersion e R F T p b"
  by (simp add: getFileVersion_def)

lemma getFileVersion_wellFormed: "getFileVersion e R F T p b = Inr v \<Longrightarrow> wellFormed v"
  by (auto simp: getFileVersion_def Let_def wellFormed_decode split: if_splits option.splits)

lemma restoreFileVersion_result:
  assumes "restoreFileVersion e R F T msg b = (Inr (), b')"
  shows "\<exists>v m. getFileVersion e R F T False b = Inr v \<and> v \<noteq> []
           \<and> commitFileVersion e R F v m None b = (Inr (now e), b')"
proof -
  let ?m = "(case msg of None \<Rightarrow> ''Restored previous version'' | Some m \<Rightarrow> m)
              @ '' (from '' @ toLocaleString e T @ '')''"
  have i: "initialized e"
    using assms by (cases "initialized e") (simp_all add: restoreFileVersion_def)
  obtain u where u: "currentUser e = Some u"
    using assms i by (cases "currentUser e") (simp_all add: restoreFileVersion_def)
  obtain v where v: "getFileVersion e R F T False b = Inr v"
    using assms i u by (cases "getFileVersion e R F T False b") (simp_all add: restoreFileVersion_def)
  have ne: "v \<noteq> []"
    using assms i u v by (cases "v = []") (simp_all add: restoreFileVersion_def)
  obtain r b2 where c: "commitFileVersion e R F v ?m None b = (r, b2)"
    by (cases "commitFileVersion e R F v ?m None b") simp
  have b2: "b2 = b'" and r: "\<exists>t. r = Inr t"
    using assms i u v ne c by (cases r; simp add: restoreFileVersion_def)+
  then obtain t where c': "commitFileVersion e R F v ?m None b = (Inr t, b')"
    using c by blast
  from commitFileVersion_result(2) [OF c'] have "t = now e" .
  then show ?thesis using v ne c' by blast
qed

lemmas keys_differ_sym [simp] = keys_differ [THEN not_sym]

lemma encode_BOM_BOM_h:
  "TextEncoder_encode [0xFEFF, 0xFEFF, 104] = [239, 187, 191, 239, 187, 191, 104]"
  by (simp add: TextEncoder_encode_def utf8_bytes_def isHigh_def isLow_def)

lemma decode_BOM_BOM_h: "TextDecoder_decode [239, 187, 191, 239, 187, 191, 104] = [0xFEFF, 104]"
  by (simp add: TextDecoder_decode_def utf8_step_def cont_def stripBOM_def utf16_units_def)

lemma encode_BOM_h: "TextEncoder_encode [0xFEFF, 104] = [239, 187, 191, 104]"
  by (simp add: TextEncoder_encode_def utf8_bytes_def isHigh_def isLow_def)

lemma decode_BOM_h: "TextDecoder_decode [239, 187, 191, 104] = [104]"
  by (simp add: TextDecoder_decode_def utf8_step_def cont_def stripBOM_def utf16_units_def)


text \<open>
  C8, as stated, fails in two ways. The restored content passes through \<open>TextDecoder\<close>
  twice: a version whose bytes begin with two byte order marks reads as \<open>"\\uFEFFh"\<close>
  at \<open>T\<close> and as \<open>"h"\<close> at the new timestamp. And the new version is keyed by the
  clock alone: a restore that runs at a clock reading equal to \<open>T\<close> overwrites the
  commit metadata stored at \<open>T\<close>.
\<close>

theorem restore_round_trip_counterexample:
  "fst (restoreFileVersion (envAt (Some alice) ''2024-05-02T10:00:00.000Z'') ''repo1'' ''readme.txt''
          ''2024-05-01T10:00:00.000Z'' None (committedBucket [0xFEFF, 0xFEFF, 104])) = Inr ()
   \<and> getFileVersion (envAt (Some alice) ''2024-05-02T10:00:00.000Z'') ''repo1'' ''readme.txt''
        ''2024-05-01T10:00:00.000Z'' False (committedBucket [0xFEFF, 0xFEFF, 104])
      = Inr [0xFEFF, 104]
   \<and> getFileVersion (envAt (Some alice) ''2024-05-02T10:00:00.000Z'') ''repo1'' ''readme.txt''
        ''2024-05-02T10:00:00.000Z'' False
        (snd (restoreFileVersion (envAt (Some alice) ''2024-05-02T10:00:00.000Z'') ''repo1''
                ''readme.txt'' ''2024-05-01T10:00:00.000Z'' None
                (committedBucket [0xFEFF, 0xFEFF, 104])))
      = Inr [104]
   \<and> fst (restoreFileVersion (envAt (Some alice) ''2024-05-01T10:00:00.000Z'') ''repo1'' ''readme.txt''
          ''2024-05-01T10:00:00.000Z'' None (committedBucket [104, 105])) = Inr ()
   \<and> map_option Body
        (GetObject (committedBucket [104, 105])
           (commitKey ''repo1'' ''readme.txt'' ''2024-05-01T10:00:00.000Z''))
      = Some (Json [(''message'', ''init''), (''timestamp'', ''2024-05-01T10:00:00.000Z''),
                    (''author'', ''alice@example.org'')])
   \<and> map_option Body
        (GetObject
           (snd (restoreFileVersion (envAt (Some alice) ''2024-05-01T10:00:00.000Z'') ''repo1''
                   ''readme.txt'' ''2024-05-01T10:00:00.000Z'' None (committedBucket [104, 105])))
           (commitKey ''repo1'' ''readme.txt'' ''2024-05-01T10:00:00.000Z''))
      = Some (Json [(''message'', ''Restored previous version (from 2024-05-01T10:00:00.000Z)''),
                    (''timestamp'', ''2024-05-01T10:00:00.000Z''),
                    (''author'', ''alice@example.org'')])"
  by (simp add: restoreFileVersion_def committedBucket_def commitFileVersion_def
      getFileVersion_def envAt_def alice_def Let_def GetObject_PutObject historyKey_def
      bodyBytes_def js_or_def encode_BOM_BOM_h decode_BOM_BOM_h encode_BOM_h decode_BOM_h
      encode_hi decode_hi)


text \<open>
  C8, amended. If \<open>restoreFileVersion\<close> of \<open>T\<close> succeeds at a clock reading other
  than \<open>T\<close>, the version at \<open>T\<close> had some content \<open>v\<close>; the version at the new
  timestamp (the clock reading of the restore) is \<open>v\<close> passed through \<open>TextEncoder\<close>
  and \<open>TextDecoder\<close>, which is \<open>v\<close> itself unless \<open>v\<close> begins with U+FEFF; the
  version at \<open>T\<close> still reads \<open>v\<close>, and the history object and the commit metadata
  stored at \<open>T\<close> are the objects they were.
\<close>

theorem restore_round_trip:
  assumes "restoreFileVersion e R F T msg b = (Inr (), b')"
    and "now e \<noteq> T"
    and "initialized e'"
  shows "\<exists>v. getFileVersion e' R F T False b = Inr v
           \<and> getFileVersion e' R F (now e) False b' = Inr (TextDecoder_decode (TextEncoder_encode v))
           \<and> ((case v of [] \<Rightarrow> True | c # cs \<Rightarrow> c \<noteq> 0xFEFF)
                 \<longrightarrow> getFileVersion e' R F (now e) False b' = Inr v)
           \<and> getFileVersion e' R F T False b' = Inr v
           \<and> GetObject b' (historyKey R F T) = GetObject b (historyKey R F T)
           \<and> GetObject b' (commitKey R F T) = GetObject b (commitKey R F T)"
proof -
  from restoreFileVersion_result [OF assms(1)] obtain v m
    where v: "getFileVersion e R F T False b = Inr v"
      and c: "commitFileVersion e R F v m None b = (Inr (now e), b')"
    by blast
  have ne: "T \<noteq> now e" using assms(2) by blast
  have init: "initialized e" using commitFileVersion_result(1) [OF c] .
  have before: "getFileVersion e' R F T False b = Inr v"
    using v getFileVersion_initialized [OF init assms(3), of R F T False b] by simp
  have new: "getFileVersion e' R F (now e) False b' = Inr (TextDecoder_decode (TextEncoder_encode v))"
    using c assms(3) by (rule version_after_commit)
  have wf: "wellFormed v" using v by (rule getFileVersion_wellFormed)
  have clean: "(case v of [] \<Rightarrow> True | c # cs \<Rightarrow> c \<noteq> 0xFEFF)
                 \<longrightarrow> getFileVersion e' R F (now e) False b' = Inr v"
  proof
    assume "case v of [] \<Rightarrow> True | c # cs \<Rightarrow> c \<noteq> 0xFEFF"
    with wf have "TextDecoder_decode (TextEncoder_encode v) = v" by (rule decode_encode)
    then show "getFileVersion e' R F (now e) False b' = Inr v" using new by simp
  qed
  have hist: "GetObject b' (historyKey R F T) = GetObject b (historyKey R F T)"
    using ne by (intro commitFileVersion_result(7) [OF c]) (simp_all add: historyKey_def)
  have meta: "GetObject b' (commitKey R F T) = GetObject b (commitKey R F T)"
    using ne by (intro commitFileVersion_result(7) [OF c]) (simp_all add: historyKey_def)
  have after: "getFileVersion e' R F T False b' = Inr v"
    using before hist assms(3) by (simp add: getFileVersion_def historyKey_def)
  from before new clean after hist meta show ?thesis by (intro exI [of _ v] conjI)
qed

theorem restore_round_trip_witness:
  "getFileVersion (envAt None ''2024-05-03T10:00:00.000Z'') ''repo1'' ''readme.txt''
        ''2024-05-02T10:00:00.000Z'' False
        (snd (restoreFileVersion (envAt (Some alice) ''2024-05-02T10:00:00.000Z'') ''repo1''
                ''readme.txt'' ''2024-05-01T10:00:00.000Z'' None (committedBucket [104, 105])))
      = Inr [104, 105]
   \<and> GetObject
        (snd (restoreFileVersion (envAt (Some alice) ''2024-05-02T10:00:00.000Z'') ''repo1''
                ''readme.txt'' ''2024-05-01T10:00:00.000Z'' None (committedBucket [104, 105])))
        (historyKey ''repo1'' ''readme.txt'' ''2024-05-01T10:00:00.000Z'')
      = GetObject (committedBucket [104, 105])
          (historyKey ''repo1'' ''readme.txt'' ''2024-05-01T10:00:00.000Z'')"
proof -
  let ?e = "envAt (Some alice) ''2024-05-02T10:00:00.000Z''"
  let ?e' = "envAt None ''2024-05-03T10:00:00.000Z''"
  let ?b = "committedBucket [104, 105]"
  let ?b' = "snd (restoreFileVersion ?e ''repo1'' ''readme.txt'' ''2024-05-01T10:00:00.000Z'' None ?b)"
  have h: "restoreFileVersion ?e ''repo1'' ''readme.txt'' ''2024-05-01T10:00:00.000Z'' None ?b
             = (Inr (), ?b')"
    by (simp add: restoreFileVersion_def committedBucket_def commitFileVersion_def
        getFileVersion_def envAt_def alice_def Let_def GetObject_PutObject historyKey_def
        bodyBytes_def encode_hi decode_hi)
  have n: "now ?e \<noteq> ''2024-05-01T10:00:00.000Z''" by (simp add: envAt_def)
  have i: "initialized ?e'" by (simp add: envAt_def)
  have before: "getFileVersion ?e' ''repo1'' ''readme.txt'' ''2024-05-01T10:00:00.000Z'' False ?b
                  = Inr [104, 105]"
    by (simp add: committedBucket_def commitFileVersion_def getFileVersion_def envAt_def
        alice_def Let_def GetObject_PutObject historyKey_def bodyBytes_def encode_hi decode_hi)
  from restore_round_trip [OF h n i] obtain v
    where v: "getFileVersion ?e' ''repo1'' ''readme.txt'' ''2024-05-01T10:00:00.000Z'' False ?b = Inr v"
      and clean: "(case v of [] \<Rightarrow> True | c # cs \<Rightarrow> c \<noteq> 0xFEFF)
            \<longrightarrow> getFileVersion ?e' ''repo1'' ''readme.txt'' (now ?e) False ?b' = Inr v"
      and hist: "GetObject ?b' (historyKey ''repo1'' ''readme.txt'' ''2024-05-01T10:00:00.000Z'')
            = GetObject ?b (historyKey ''repo1'' ''readme.txt'' ''2024-05-01T10:00:00.000Z'')"
    by blast
  from v before have "v = [104, 105]" by simp
  with clean have "getFileVersion ?e' ''repo1'' ''readme.txt'' (now ?e) False ?b' = Inr [104, 105]"
    by simp
  moreover have "now ?e = ''2024-05-02T10:00:00.000Z''" by (simp add: envAt_def)
  ultimately show ?thesis using hist by simp
qed

subsection \<open>C10: the listing of pending requests\<close>

lemma requestEntries_listed:
  assumes "\<forall>k\<in>set ks. GetObject b k \<noteq> None"
  shows "\<exists>rs. requestEntries R b ks = Inr rs
           \<and> (\<forall>k\<in>set ks. \<forall>r m. GetObject b k = Some r \<longrightarrow> Body r = Json m
                 \<longrightarrow> requestEntry R k m \<in> set rs)"
  using assms
proof (induction ks)
  case Nil
  then show ?case by simp
next
  case (Cons k ks)
  then obtain rs where rs: "requestEntries R b ks = Inr rs"
    and mem: "\<forall>k\<in>set ks. \<forall>r m. GetObject b k = Some r \<longrightarrow> Body r = Json m
                 \<longrightarrow> requestEntry R k m \<in> set rs"
    by auto
  from Cons.prems obtain r where r: "GetObject b k = Some r" by auto
  show ?case
  proof (cases "Body r")
    case (Bytes bs)
    then show ?thesis using rs mem r by (auto simp: JSON_parse_def)
  next
    case (Json d)
    then show ?thesis using rs mem r by (auto simp: JSON_parse_def)
  qed
qed

lemma requestEntry_keeps:
  assumes "p \<noteq> ''id''" and "p \<noteq> ''fileName''" and "p \<noteq> ''path''"
  shows "map_of (requestEntry R k m) p = map_of m p"
  using assms
  by (simp add: requestEntry_def Let_def update_conv' delete_conv' split: option.splits)

lemma processPendingCommit_meta_after:
  assumes "processPendingCommit e R req F approve comment w = (Inr (), w')"
  shows "\<exists>r m'. GetObject (bucket w') (pendingMetaKey R F req) = Some r \<and> Body r = Json m'
           \<and> map_of m' ''status'' = Some (if approve then ''approved'' else ''rejected'')"
proof -
  have i: "initialized e"
    using assms by (cases "initialized e") (simp_all add: processPendingCommit_def)
  obtain u where u: "currentUser e = Some u"
    using assms i by (cases "currentUser e") (simp_all add: processPendingCommit_def)
  obtain repo where repo: "getRepository e R (repositories w) = Inr repo"
    using assms i u
    by (cases "getRepository e R (repositories w)") (simp_all add: processPendingCommit_def)
  have own: "ownerId repo = uid u"
    using assms i u repo by (cases "ownerId repo = uid u") (simp_all add: processPendingCommit_def)
  obtain mr where mr: "GetObject (bucket w) (pendingMetaKey R F req) = Some mr"
    using assms i u repo own
    by (cases "GetObject (bucket w) (pendingMetaKey R F req)")
      (simp_all add: processPendingCommit_def)
  obtain m where m: "Body mr = Json m"
    using assms i u repo own mr
    by (cases "Body mr") (simp_all add: processPendingCommit_def JSON_parse_def)
  let ?m' = "processedMetadata e u m (if approve then ''approved'' else ''rejected'') comment"
  have "\<exists>b1. bucket w' = PutObject e (pendingMetaKey R F req) (Json ?m') ''application/json'' [] b1"
  proof (cases approve)
    case True
    obtain fr where "GetObject (bucket w) (pendingKey R F req) = Some fr"
      using assms i u repo own mr m True
      by (cases "GetObject (bucket w) (pendingKey R F req)")
        (simp_all add: processPendingCommit_def JSON_parse_def)
    then show ?thesis
      using assms i u repo own mr m True
      by (auto simp: processPendingCommit_def JSON_parse_def Let_def createNotification_frame)
  next
    case False
    then show ?thesis
      using assms i u repo own mr m
      by (auto simp: processPendingCommit_def JSON_parse_def Let_def createNotification_frame)
  qed
  then obtain b1
    where "bucket w' = PutObject e (pendingMetaKey R F req) (Json ?m') ''application/json'' [] b1"
    by blast
  then show ?thesis by (simp add: GetObject_PutObject map_of_processedMetadata)
qed


lemma requestEntries_only:
  assumes "requestEntries R b ks = Inr rs" and "x \<in> set rs"
  shows "\<exists>k\<in>set ks. \<exists>r m. GetObject b k = Some r \<and> Body r = Json m \<and> x = requestEntry R k m"
  using assms
proof (induction ks arbitrary: rs)
  case Nil
  then show ?case by simp
next
  case (Cons k ks)
  from Cons.prems(1) obtain r where r: "GetObject b k = Some r"
    by (cases "GetObject b k") simp_all
  from Cons.prems(1) r obtain rs' where rs': "requestEntries R b ks = Inr rs'"
    by (cases "requestEntries R b ks") simp_all
  show ?case
  proof (cases "Body r")
    case (Bytes bs)
    then have "rs = rs'" using Cons.prems(1) r rs' by (simp add: JSON_parse_def)
    then show ?thesis using Cons.IH [OF rs'] Cons.prems(2) by auto
  next
    case (Json m)
    then have "rs = requestEntry R k m # rs'" using Cons.prems(1) r rs' by (simp add: JSON_parse_def)
    then show ?thesis using Cons.IH [OF rs'] Cons.prems(2) r Json by auto
  qed
qed

text \<open>
  What \<open>getPendingCommitRequests\<close> does with the one page it reads. It succeeds. When
  the repository has at most 1000 keys under its pending-meta prefix, it returns a request
  for every JSON record stored there, with the status and timestamp the record holds,
  whatever that status is, and a request that \<open>processPendingCommit\<close> has processed is
  still stored at its key, now with status \<open>approved\<close> or \<open>rejected\<close>, and is part of
  the list. When the \<open>timestamp\<close> of every record parses as a date, the list is in
  descending order of these dates.
\<close>

theorem pending_requests_within_page:
  assumes "initialized e"
  shows "\<exists>rs. getPendingCommitRequests e R b = Inr rs
      \<and> (length (keysUnder b (''repositories/'' @ R @ ''/pending-meta/'')) \<le> 1000
           \<longrightarrow> (\<forall>k r m. prefix (''repositories/'' @ R @ ''/pending-meta/'') k
                    \<and> GetObject b k = Some r \<and> Body r = Json m
                 \<longrightarrow> requestEntry R k m \<in> set rs
                     \<and> map_of (requestEntry R k m) ''status'' = map_of m ''status''
                     \<and> map_of (requestEntry R k m) ''timestamp'' = map_of m ''timestamp''))
      \<and> ((\<forall>k r m. prefix (''repositories/'' @ R @ ''/pending-meta/'') k
                    \<and> GetObject b k = Some r \<and> Body r = Json m
                 \<longrightarrow> (\<exists>t u. map_of m ''timestamp'' = Some t \<and> getTime e t = Some u))
           \<longrightarrow> sorted_wrt
                 (\<lambda>x y. \<exists>tx ux ty uy. map_of x ''timestamp'' = Some tx \<and> getTime e tx = Some ux
                           \<and> map_of y ''timestamp'' = Some ty \<and> getTime e ty = Some uy
                           \<and> uy \<le> ux) rs)
      \<and> (length (keysUnder b (''repositories/'' @ R @ ''/pending-meta/'')) \<le> 1000
           \<longrightarrow> (\<forall>e2 req F approve comment w w'.
                 processPendingCommit e2 R req F approve comment w = (Inr (), w') \<and> b = bucket w'
                 \<longrightarrow> (\<exists>m'. requestEntry R (pendingMetaKey R F req) m' \<in> set rs
                         \<and> map_of (requestEntry R (pendingMetaKey R F req) m') ''status''
                             = Some (if approve then ''approved'' else ''rejected''))))"
proof -
  let ?p = "''repositories/'' @ R @ ''/pending-meta/''"
  let ?ks = "ListObjectsV2 b ?p"
  let ?Q = "\<lambda>x y. \<exists>tx ux ty uy. map_of x ''timestamp'' = Some tx \<and> getTime e tx = Some ux
                           \<and> map_of y ''timestamp'' = Some ty \<and> getTime e ty = Some uy
                           \<and> uy \<le> ux"
  have "\<forall>k\<in>set ?ks. GetObject b k \<noteq> None" using listed_present by blast
  from requestEntries_listed [OF this, of R] obtain es where es: "requestEntries R b ?ks = Inr es"
    and mem: "\<forall>k\<in>set ?ks. \<forall>r m. GetObject b k = Some r \<longrightarrow> Body r = Json m
                 \<longrightarrow> requestEntry R k m \<in> set es"
    by blast
  let ?rs = "js_sort (byDateDesc e) es"
  have res: "getPendingCommitRequests e R b = Inr ?rs"
    using assms es by (simp add: getPendingCommitRequests_def)
  have listed: "requestEntry R k m \<in> set ?rs"
    if "length (keysUnder b ?p) \<le> 1000" "prefix ?p k" "GetObject b k = Some r" "Body r = Json m"
    for k r m
  proof -
    have "set ?ks = {k. GetObject b k \<noteq> None \<and> prefix ?p k}"
      using that(1) by (rule set_ListObjectsV2)
    then have "k \<in> set ?ks" using that(2,3) by auto
    then show ?thesis using mem that(3,4) by (simp add: set_js_sort)
  qed
  have a: "length (keysUnder b ?p) \<le> 1000
           \<longrightarrow> (\<forall>k r m. prefix ?p k \<and> GetObject b k = Some r \<and> Body r = Json m
                 \<longrightarrow> requestEntry R k m \<in> set ?rs
                     \<and> map_of (requestEntry R k m) ''status'' = map_of m ''status''
                     \<and> map_of (requestEntry R k m) ''timestamp'' = map_of m ''timestamp'')"
    using listed by (simp add: requestEntry_keeps)
  have s: "sorted_wrt ?Q ?rs"
    if parse: "\<forall>k r m. prefix ?p k \<and> GetObject b k = Some r \<and> Body r = Json m
                 \<longrightarrow> (\<exists>t u. map_of m ''timestamp'' = Some t \<and> getTime e t = Some u)"
  proof -
    have stamp: "\<exists>t u. map_of x ''timestamp'' = Some t \<and> getTime e t = Some u
                   \<and> timestampTime e x = Some u"
      if "x \<in> set es" for x
    proof -
      from requestEntries_only [OF es that] obtain k r m
        where k: "k \<in> set ?ks" "GetObject b k = Some r" "Body r = Json m"
          and x: "x = requestEntry R k m"
        by blast
      from k(1) have "prefix ?p k" by (rule listed_prefix)
      with parse k(2,3) obtain t u where "map_of m ''timestamp'' = Some t" "getTime e t = Some u"
        by blast
      then show ?thesis using x by (simp add: requestEntry_keeps timestampTime_def)
    qed
    then have "\<forall>x\<in>set es. timestampTime e x \<noteq> None" by force
    then have "sorted_wrt (\<lambda>x y. the (timestampTime e y) \<le> the (timestampTime e x)) ?rs"
      by (rule sorted_js_sort)
    moreover have "?Q x y"
      if "x \<in> set ?rs" "y \<in> set ?rs" "the (timestampTime e y) \<le> the (timestampTime e x)" for x y
    proof -
      from that(1) stamp obtain tx ux
        where x: "map_of x ''timestamp'' = Some tx" "getTime e tx = Some ux" "timestampTime e x = Some ux"
        unfolding set_js_sort by blast
      from that(2) stamp obtain ty uy
        where y: "map_of y ''timestamp'' = Some ty" "getTime e ty = Some uy" "timestampTime e y = Some uy"
        unfolding set_js_sort by blast
      from that(3) x(3) y(3) have "uy \<le> ux" by simp
      with x(1,2) y(1,2) show ?thesis by blast
    qed
    ultimately show ?thesis by (rule sorted_wrt_mono_rel [rotated])
  qed
  have c: "\<exists>m'. requestEntry R (pendingMetaKey R F req) m' \<in> set ?rs
                     \<and> map_of (requestEntry R (pendingMetaKey R F req) m') ''status''
                         = Some (if approve then ''approved'' else ''rejected'')"
    if "length (keysUnder b ?p) \<le> 1000"
      "processPendingCommit e2 R req F approve comment w = (Inr (), w')" "b = bucket w'"
    for e2 req F approve comment w w'
  proof -
    from processPendingCommit_meta_after [OF that(2)] that(3) obtain r m'
      where r: "GetObject b (pendingMetaKey R F req) = Some r" "Body r = Json m'"
        and st: "map_of m' ''status'' = Some (if approve then ''approved'' else ''rejected'')"
      by blast
    have "requestEntry R (pendingMetaKey R F req) m' \<in> set ?rs"
      using that(1) pendingMeta_prefix r by (rule listed)
    then show ?thesis using st by (auto simp: requestEntry_keeps)
  qed
  from res a s c show ?thesis by blast
qed

lemma length_keysUnder: "length (keysUnder b p) \<le> length b"
proof -
  have "length (keysUnder b p) = length (remdups (filter (prefix p) (map fst b)))"
    by (simp add: keysUnder_def)
  also have "\<dots> \<le> length (filter (prefix p) (map fst b))" by (rule length_remdups_leq)
  also have "\<dots> \<le> length (map fst b)" by (rule length_filter_le)
  finally show ?thesis by simp
qed

lemma twoRequests_bodies:
  "map (\<lambda>(k, r). (k, Body r)) (bucket twoRequestsWorld) =
    [(''repositories/repo1/pending/readme.txt/2024-05-01T10:00:00.000Z.txt'', Bytes [104, 105]),
     (''repositories/repo1/pending-meta/readme.txt/2024-05-01T10:00:00.000Z.json'',
      Json [(''message'', ''fix''), (''timestamp'', ''2024-05-01T10:00:00.000Z''),
            (''author'', ''bob@example.org''), (''authorId'', ''bob''),
            (''fileName'', ''readme.txt''), (''status'', ''rejected''),
            (''processedBy'', ''alice@example.org''),
            (''processedAt'', ''2024-05-02T10:00:00.000Z''), (''comment'', '''')]),
     (''repositories/repo1/pending/todo.txt/2024-05-03T10:00:00.000Z.txt'', Bytes [104, 105]),
     (''repositories/repo1/pending-meta/todo.txt/2024-05-03T10:00:00.000Z.json'',
      Json [(''message'', ''more''), (''timestamp'', ''2024-05-03T10:00:00.000Z''),
            (''author'', ''bob@example.org''), (''authorId'', ''bob''),
            (''fileName'', ''todo.txt''), (''status'', ''pending'')])]"
  by (simp add: pending_eval twoRequestsWorld_def pendingMetaKey_def versionKey_def
      GetObject_def PutObject_def)

text \<open>The list for the two requests of the sample world: the newer one first.\<close>

lemma listing_two_requests:
  "getPendingCommitRequests (envAt None ''2024-05-03T10:00:00.000Z'') ''repo1''
     (bucket twoRequestsWorld)
   = Inr [[(''message'', ''more''), (''timestamp'', ''2024-05-03T10:00:00.000Z''),
           (''author'', ''bob@example.org''), (''authorId'', ''bob''),
           (''fileName'', ''todo.txt''), (''status'', ''pending''),
           (''id'', ''2024-05-03T10:00:00.000Z''),
           (''path'', ''repositories/repo1/pending/todo.txt/2024-05-03T10:00:00.000Z.txt'')],
          [(''message'', ''fix''), (''timestamp'', ''2024-05-01T10:00:00.000Z''),
           (''author'', ''bob@example.org''), (''authorId'', ''bob''),
           (''fileName'', ''readme.txt''), (''status'', ''rejected''),
           (''processedBy'', ''alice@example.org''),
           (''processedAt'', ''2024-05-02T10:00:00.000Z''), (''comment'', ''''),
           (''id'', ''2024-05-01T10:00:00.000Z''),
           (''path'', ''repositories/repo1/pending/readme.txt/2024-05-01T10:00:00.000Z.txt'')]]"
  by (simp add: pending_eval twoRequestsWorld_def pendingMetaKey_def versionKey_def
      getPendingCommitRequests_def ListObjectsV2_def keysUnder_def requestEntry_def entryId_def
      js_sort_def byDateDesc_def timestampTime_def sampleTime_def GetObject_def PutObject_def)

text \<open>
  The theorem at the sample world. The key of the rejected request comes first in the
  page, and the pending request, which is newer, comes first in the list.
\<close>

theorem pending_requests_within_page_sample:
  "\<exists>rs i j. getPendingCommitRequests (envAt None ''2024-05-03T10:00:00.000Z'') ''repo1''
               (bucket twoRequestsWorld) = Inr rs
      \<and> i < j \<and> j < length rs
      \<and> map_of (rs ! i) ''timestamp'' = Some ''2024-05-03T10:00:00.000Z''
      \<and> map_of (rs ! i) ''status'' = Some ''pending''
      \<and> map_of (rs ! j) ''timestamp'' = Some ''2024-05-01T10:00:00.000Z''
      \<and> map_of (rs ! j) ''status'' = Some ''rejected''"
proof -
  let ?e = "envAt None ''2024-05-03T10:00:00.000Z''"
  let ?b = "bucket twoRequestsWorld"
  let ?p = "''repositories/'' @ ''repo1'' @ ''/pending-meta/''"
  let ?k1 = "pendingMetaKey ''repo1'' ''readme.txt'' ''2024-05-01T10:00:00.000Z''"
  let ?k2 = "pendingMetaKey ''repo1'' ''todo.txt'' ''2024-05-03T10:00:00.000Z''"
  let ?m1 = "[(''message'', ''fix''), (''timestamp'', ''2024-05-01T10:00:00.000Z''),
             (''author'', ''bob@example.org''), (''authorId'', ''bob''),
             (''fileName'', ''readme.txt''), (''status'', ''rejected''),
             (''processedBy'', ''alice@example.org''),
             (''processedAt'', ''2024-05-02T10:00:00.000Z''), (''comment'', '''')]"
  let ?m2 = "[(''message'', ''more''), (''timestamp'', ''2024-05-03T10:00:00.000Z''),
             (''author'', ''bob@example.org''), (''authorId'', ''bob''),
             (''fileName'', ''todo.txt''), (''status'', ''pending'')]"
  let ?Q = "\<lambda>x y. \<exists>tx ux ty uy. map_of x ''timestamp'' = Some tx \<and> getTime ?e tx = Some ux
                           \<and> map_of y ''timestamp'' = Some ty \<and> getTime ?e ty = Some uy
                           \<and> uy \<le> ux"
  have i: "initialized ?e" by (simp add: envAt_def)
  have "length ?b = 4"
    using arg_cong [OF twoRequests_bodies, of length] by simp
  then have few: "length (keysUnder ?b ?p) \<le> 1000"
    using length_keysUnder [of ?b ?p] by simp
  have stored: "m = ?m1 \<or> m = ?m2" if "GetObject ?b k = Some r" "Body r = Json m" for k r m
  proof -
    from that(1) have "(k, r) \<in> set ?b" unfolding GetObject_def by (rule map_of_SomeD)
    then have "(k, Body r) \<in> set (map (\<lambda>(k, r). (k, Body r)) ?b)" by force
    then show ?thesis unfolding twoRequests_bodies using that(2) by auto
  qed
  have parse: "\<forall>k r m. prefix ?p k \<and> GetObject ?b k = Some r \<and> Body r = Json m
                 \<longrightarrow> (\<exists>t u. map_of m ''timestamp'' = Some t \<and> getTime ?e t = Some u)"
  proof (intro allI impI)
    fix k r m
    assume "prefix ?p k \<and> GetObject ?b k = Some r \<and> Body r = Json m"
    then have "m = ?m1 \<or> m = ?m2" using stored by blast
    then show "\<exists>t u. map_of m ''timestamp'' = Some t \<and> getTime ?e t = Some u"
    proof
      assume "m = ?m1"
      then show ?thesis by (simp add: envAt_def sampleTime_def)
    next
      assume "m = ?m2"
      then show ?thesis by (simp add: envAt_def sampleTime_def)
    qed
  qed
  have g1: "map_option Body (GetObject ?b ?k1) = Some (Json ?m1)"
    by (simp add: pending_eval twoRequestsWorld_def pendingMetaKey_def versionKey_def)
  have g2: "map_option Body (GetObject ?b ?k2) = Some (Json ?m2)"
    by (simp add: pending_eval twoRequestsWorld_def pendingMetaKey_def versionKey_def)
  from g1 obtain r1 where r1: "GetObject ?b ?k1 = Some r1" "Body r1 = Json ?m1" by auto
  from g2 obtain r2 where r2: "GetObject ?b ?k2 = Some r2" "Body r2 = Json ?m2" by auto
  from pending_requests_within_page [OF i, of "''repo1''" ?b] few parse
  obtain rs where rs: "getPendingCommitRequests ?e ''repo1'' ?b = Inr rs"
    and all: "\<forall>k r m. prefix ?p k \<and> GetObject ?b k = Some r \<and> Body r = Json m
             \<longrightarrow> requestEntry ''repo1'' k m \<in> set rs
                 \<and> map_of (requestEntry ''repo1'' k m) ''status'' = map_of m ''status''
                 \<and> map_of (requestEntry ''repo1'' k m) ''timestamp'' = map_of m ''timestamp''"
    and sorted: "sorted_wrt ?Q rs"
    by blast
  let ?x1 = "requestEntry ''repo1'' ?k1 ?m1"
  let ?x2 = "requestEntry ''repo1'' ?k2 ?m2"
  from all pendingMeta_prefix r1
  have x1: "?x1 \<in> set rs" "map_of ?x1 ''status'' = map_of ?m1 ''status''"
    "map_of ?x1 ''timestamp'' = map_of ?m1 ''timestamp''"
    by blast+
  from all pendingMeta_prefix r2
  have x2: "?x2 \<in> set rs" "map_of ?x2 ''status'' = map_of ?m2 ''status''"
    "map_of ?x2 ''timestamp'' = map_of ?m2 ''timestamp''"
    by blast+
  from x1(1) obtain j where j: "j < length rs" "rs ! j = ?x1" by (auto simp: in_set_conv_nth)
  from x2(1) obtain i where i': "i < length rs" "rs ! i = ?x2" by (auto simp: in_set_conv_nth)
  have t1: "map_of (rs ! j) ''timestamp'' = Some ''2024-05-01T10:00:00.000Z''"
    and s1: "map_of (rs ! j) ''status'' = Some ''rejected''"
    using j(2) x1(2,3) by simp_all
  have t2: "map_of (rs ! i) ''timestamp'' = Some ''2024-05-03T10:00:00.000Z''"
    and s2: "map_of (rs ! i) ''status'' = Some ''pending''"
    using i'(2) x2(2,3) by simp_all
  have "i \<noteq> j" using t1 t2 by auto
  moreover have "\<not> j < i"
  proof
    assume "j < i"
    with sorted have "?Q (rs ! j) (rs ! i)" using i'(1) by (rule sorted_wrt_nth_less)
    then obtain tx ux ty uy
      where "map_of (rs ! j) ''timestamp'' = Some tx" "getTime ?e tx = Some ux"
        "map_of (rs ! i) ''timestamp'' = Some ty" "getTime ?e ty = Some uy" "uy \<le> ux"
      by blast
    with t1 t2 have "getTime ?e ''2024-05-01T10:00:00.000Z'' = Some ux"
      "getTime ?e ''2024-05-03T10:00:00.000Z'' = Some uy" "uy \<le> ux"
      by simp_all
    then show False by (simp add: envAt_def sampleTime_def)
  qed
  ultimately have "i < j" by simp
  with rs j(1) t1 s1 t2 s2 show ?thesis by blast
qed

text \<open>
  Beyond the page. The timestamps \<open>secondAt n\<close> are in ascending order, so the keys of
  the requests of \<open>afterRequests\<close> are, and the page holds the first 1000 of them.
\<close>

lemma digit_less:
  "a < 10 \<Longrightarrow> b < 10 \<Longrightarrow> (char_of (48 + a :: nat) < char_of (48 + b)) = (a < b)"
  by (simp add: less_char_def of_char_of)

lemma digit_eq:
  assumes "a < 10" and "b < 10"
  shows "(char_of (48 + a :: nat) = char_of (48 + b)) = (a = b)"
  using digit_less [OF assms] digit_less [OF assms(2,1)] by (metis less_irrefl linorder_neqE_nat)

lemma lex4:
  fixes a1 a2 a3 a4 b1 b2 b3 b4 :: nat
  assumes "600 * b1 + 60 * b2 + 10 * b3 + b4 < 600 * a1 + 60 * a2 + 10 * a3 + a4"
    and "a2 < 10" "a3 < 6" "a4 < 10" "b2 < 10" "b3 < 6" "b4 < 10"
  shows "b1 < a1 \<or> b1 = a1 \<and> (b2 < a2 \<or> b2 = a2 \<and> (b3 < a3 \<or> b3 = a3 \<and> b4 < a4))"
  using assms by linarith

lemma secondAt_digits:
  assumes "n < 6000"
  obtains a1 a2 a3 a4 where "n = 600 * a1 + 60 * a2 + 10 * a3 + a4"
    and "a1 < 10" "a2 < 10" "a3 < 6" "a4 < 10"
    and "secondAt n = ''2024-05-01T10:'' @ [char_of (48 + a1), char_of (48 + a2)] @ '':''
                        @ [char_of (48 + a3), char_of (48 + a4)] @ ''.000Z''"
proof
  let ?mm = "n div 60" and ?ss = "n mod 60"
  have "n = 60 * ?mm + ?ss" by simp
  moreover have "?mm = 10 * (?mm div 10) + ?mm mod 10" by simp
  moreover have "?ss = 10 * (?ss div 10) + ?ss mod 10" by simp
  ultimately show "n = 600 * (?mm div 10) + 60 * (?mm mod 10) + 10 * (?ss div 10) + ?ss mod 10"
    by linarith
  have "?mm < 100" using assms by simp
  then show "?mm div 10 < 10" by simp
  show "?mm mod 10 < 10" by simp
  have "?ss < 60" by simp
  then show "?ss div 10 < 6" by simp
  show "?ss mod 10 < 10" by simp
  show "secondAt n = ''2024-05-01T10:'' @ [char_of (48 + ?mm div 10), char_of (48 + ?mm mod 10)]
          @ '':'' @ [char_of (48 + ?ss div 10), char_of (48 + ?ss mod 10)] @ ''.000Z''"
    by (simp add: secondAt_def twoDigits_def)
qed

lemma secondAt_less:
  assumes "m < n" and "n < 6000"
  shows "secondAt m @ s < secondAt n @ s"
proof -
  from assms have "m < 6000" by simp
  from secondAt_digits [OF this] obtain b1 b2 b3 b4
    where m: "m = 600 * b1 + 60 * b2 + 10 * b3 + b4" "b1 < 10" "b2 < 10" "b3 < 6" "b4 < 10"
      "secondAt m = ''2024-05-01T10:'' @ [char_of (48 + b1), char_of (48 + b2)] @ '':''
                        @ [char_of (48 + b3), char_of (48 + b4)] @ ''.000Z''"
    by blast
  from secondAt_digits [OF assms(2)] obtain a1 a2 a3 a4
    where n: "n = 600 * a1 + 60 * a2 + 10 * a3 + a4" "a1 < 10" "a2 < 10" "a3 < 6" "a4 < 10"
      "secondAt n = ''2024-05-01T10:'' @ [char_of (48 + a1), char_of (48 + a2)] @ '':''
                        @ [char_of (48 + a3), char_of (48 + a4)] @ ''.000Z''"
    by blast
  have "b1 < a1 \<or> b1 = a1 \<and> (b2 < a2 \<or> b2 = a2 \<and> (b3 < a3 \<or> b3 = a3 \<and> b4 < a4))"
    using assms(1) m(1,3,4,5) n(1,3,4,5) by (intro lex4) simp_all
  moreover have "b3 < 10" "a3 < 10" using m(4) n(4) by simp_all
  ultimately show ?thesis
    unfolding m(6) n(6) using m(2,3,5) n(2,3,5) by (simp add: digit_less digit_eq)
qed

lemma secondAt_inj:
  assumes "secondAt m = secondAt n" and "m < 6000" and "n < 6000"
  shows "m = n"
proof (rule ccontr)
  assume "m \<noteq> n"
  then consider "m < n" | "n < m" by linarith
  then show False
  proof cases
    case 1
    from secondAt_less [OF this assms(3), of "[]"] assms(1) show False by simp
  next
    case 2
    from secondAt_less [OF this assms(2), of "[]"] assms(1) show False by simp
  qed
qed

lemma secondAt_last: "secondAt 1000 = ''2024-05-01T10:16:40.000Z''"
  by code_simp

lemma afterRequests_step:
  "bucket (afterRequests (Suc n)) =
     PutObject (envAt (Some bob) (secondAt n))
       (pendingMetaKey ''repo1'' ''readme.txt'' (secondAt n)) (Json (requestData n))
       ''application/json'' []
       (PutObject (envAt (Some bob) (secondAt n))
          (pendingKey ''repo1'' ''readme.txt'' (secondAt n)) (Bytes [104, 105]) ''text/plain''
          [(''user-id'', ''bob''), (''user-email'', ''bob@example.org''),
           (''commit-message'', ''fix''), (''timestamp'', secondAt n)]
          (bucket (afterRequests n)))"
proof -
  have "initialized (envAt (Some bob) (secondAt n))"
    "currentUser (envAt (Some bob) (secondAt n)) = Some bob"
    by (simp_all add: envAt_def)
  from createPendingCommit_result(2) [OF this]
  show ?thesis by (simp add: requestData_def envAt_def bob_def js_or_def encode_hi)
qed

lemma afterRequests_keys:
  "(GetObject (bucket (afterRequests N)) k \<noteq> None)
     = (\<exists>n<N. k = pendingKey ''repo1'' ''readme.txt'' (secondAt n)
              \<or> k = pendingMetaKey ''repo1'' ''readme.txt'' (secondAt n))"
proof (induction N)
  case 0
  then show ?case by (simp add: repoWorld_def GetObject_def)
next
  case (Suc N)
  show ?case
    unfolding afterRequests_step GetObject_PutObject using Suc by (auto simp: less_Suc_eq)
qed

lemma afterRequests_record:
  assumes "n < N" and "N \<le> 6000"
  shows "\<exists>r. GetObject (bucket (afterRequests N)) (pendingMetaKey ''repo1'' ''readme.txt'' (secondAt n))
               = Some r \<and> Body r = Json (requestData n)"
  using assms
proof (induction N)
  case 0
  then show ?case by simp
next
  case (Suc N)
  show ?case
  proof (cases "n = N")
    case True
    then show ?thesis unfolding afterRequests_step GetObject_PutObject by simp
  next
    case False
    with Suc.prems have n: "n < N" "N \<le> 6000" "n < 6000" "N < 6000" by simp_all
    then have "secondAt n \<noteq> secondAt N" using secondAt_inj [of n N] by auto
    then show ?thesis
      unfolding afterRequests_step GetObject_PutObject using Suc.IH [OF n(1,2)]
      by (simp add: pendingKey_def)
  qed
qed

lemma afterRequests_page:
  assumes "N \<le> 6000"
  shows "keysUnder (bucket (afterRequests N)) (''repositories/'' @ ''repo1'' @ ''/pending-meta/'')
           = map (\<lambda>n. pendingMetaKey ''repo1'' ''readme.txt'' (secondAt n)) [0..<N]"
proof (rule sorted_distinct_set_unique)
  let ?p = "''repositories/'' @ ''repo1'' @ ''/pending-meta/''"
  let ?key = "\<lambda>n. pendingMetaKey ''repo1'' ''readme.txt'' (secondAt n)"
  show "sorted (keysUnder (bucket (afterRequests N)) ?p)" by (simp add: keysUnder_def)
  show "distinct (keysUnder (bucket (afterRequests N)) ?p)" by (rule distinct_keysUnder)
  have less: "?key m < ?key n" if "m < n" "n < N" for m n
  proof -
    from that assms have "n < 6000" by simp
    from secondAt_less [OF that(1) this, of "''.json''"] show ?thesis
      by (simp add: pendingMetaKey_def)
  qed
  have "sorted_wrt (\<lambda>m n. ?key m \<le> ?key n) [0..<N]"
  proof (rule sorted_wrt_mono_rel)
    show "sorted_wrt (<) [0..<N]" by (rule sorted_wrt_upt)
    show "?key m \<le> ?key n" if "m \<in> set [0..<N]" "n \<in> set [0..<N]" "m < n" for m n
      using less [of m n] that by simp
  qed
  then show "sorted (map ?key [0..<N])" by (simp add: sorted_map)
  have "inj_on ?key (set [0..<N])"
  proof (rule inj_onI)
    fix m n
    assume "m \<in> set [0..<N]" "n \<in> set [0..<N]" "?key m = ?key n"
    then show "m = n" using less [of m n] less [of n m] by (metis atLeastLessThan_iff less_irrefl linorder_neqE_nat set_upt)
  qed
  then show "distinct (map ?key [0..<N])" by (simp add: distinct_map)
  have "\<not> prefix ?p (pendingKey ''repo1'' ''readme.txt'' t)" for t
    by (simp add: pendingKey_def versionKey_def)
  moreover have "prefix ?p (?key n)" for n by (rule pendingMeta_prefix)
  ultimately show "set (keysUnder (bucket (afterRequests N)) ?p) = set (map ?key [0..<N])"
    unfolding set_keysUnder afterRequests_keys by auto
qed

lemma length_insertSorted: "length (insertSorted cmp x ys) = Suc (length ys)"
  by (induction ys) simp_all

lemma length_js_sort: "length (js_sort cmp xs) = length xs"
  by (induction xs) (simp_all add: js_sort_def length_insertSorted)

lemma requestEntries_all:
  assumes "\<forall>n\<in>set ns. \<exists>r. GetObject b (key n) = Some r \<and> Body r = Json (m n)"
  shows "requestEntries R b (map key ns) = Inr (map (\<lambda>n. requestEntry R (key n) (m n)) ns)"
  using assms by (induction ns) (auto simp: JSON_parse_def)

text \<open>
  C10. The listing misses a request as soon as the repository has more than 1000 of them.
  \<open>bob\<close> has submitted 1001 changes to \<open>readme.txt\<close>, one each second from 10:00:00 to
  10:16:40. The record of the last one is stored, \<open>getPendingCommitRequests\<close> returns
  1000 requests, and none of them is the one of 10:16:40, whatever \<open>Date\<close> makes of the
  timestamps.
\<close>

theorem pending_request_beyond_page_not_listed:
  "map_option Body
     (GetObject (bucket (afterRequests 1001))
        (pendingMetaKey ''repo1'' ''readme.txt'' ''2024-05-01T10:16:40.000Z''))
     = Some (Json [(''message'', ''fix''), (''timestamp'', ''2024-05-01T10:16:40.000Z''),
                   (''author'', ''bob@example.org''), (''authorId'', ''bob''),
                   (''fileName'', ''readme.txt''), (''status'', ''pending'')])
   \<and> map_sum id length
        (getPendingCommitRequests
           ((envAt (Some alice) ''2024-05-02T10:00:00.000Z'')\<lparr>getTime := parse\<rparr>) ''repo1''
           (bucket (afterRequests 1001))) = Inr 1000
   \<and> map_sum id (\<lambda>rs. Some ''2024-05-01T10:16:40.000Z'' \<in> set (map (\<lambda>r. map_of r ''timestamp'') rs))
        (getPendingCommitRequests
           ((envAt (Some alice) ''2024-05-02T10:00:00.000Z'')\<lparr>getTime := parse\<rparr>) ''repo1''
           (bucket (afterRequests 1001))) = Inr False"
proof -
  let ?e = "(envAt (Some alice) ''2024-05-02T10:00:00.000Z'')\<lparr>getTime := parse\<rparr>"
  let ?b = "bucket (afterRequests 1001)"
  let ?key = "\<lambda>n. pendingMetaKey ''repo1'' ''readme.txt'' (secondAt n)"
  let ?es = "map (\<lambda>n. requestEntry ''repo1'' (?key n) (requestData n)) [0..<1000]"
  from afterRequests_record [of 1000 1001]
  have stored: "map_option Body (GetObject ?b (?key 1000)) = Some (Json (requestData 1000))"
    by auto
  have "keysUnder ?b (''repositories/'' @ ''repo1'' @ ''/pending-meta/'') = map ?key [0..<1001]"
    by (rule afterRequests_page) simp
  then have page: "ListObjectsV2 ?b (''repositories/'' @ ''repo1'' @ ''/pending-meta/'')
                     = map ?key [0..<1000]"
    by (simp add: ListObjectsV2_def take_map)
  have "\<forall>n\<in>set [0..<1000]. \<exists>r. GetObject ?b (?key n) = Some r \<and> Body r = Json (requestData n)"
    using afterRequests_record [of _ 1001] by simp
  then have "requestEntries ''repo1'' ?b (map ?key [0..<1000]) = Inr ?es"
    by (rule requestEntries_all)
  with page have res: "getPendingCommitRequests ?e ''repo1'' ?b = Inr (js_sort (byDateDesc ?e) ?es)"
    by (simp add: getPendingCommitRequests_def envAt_def)
  have len: "length (js_sort (byDateDesc ?e) ?es) = 1000"
    by (simp add: length_js_sort)
  have "Some (secondAt 1000) \<notin> (\<lambda>r. map_of r ''timestamp'') ` set ?es"
  proof
    assume "Some (secondAt 1000) \<in> (\<lambda>r. map_of r ''timestamp'') ` set ?es"
    then obtain n where n: "n < 1000"
      and "map_of (requestEntry ''repo1'' (?key n) (requestData n)) ''timestamp'' = Some (secondAt 1000)"
      by auto
    then have "secondAt n = secondAt 1000"
      by (simp add: requestEntry_keeps requestData_def)
    then have "n = 1000" using n by (intro secondAt_inj) simp_all
    with n show False by simp
  qed
  then have miss: "Some (secondAt 1000) \<notin> set (map (\<lambda>r. map_of r ''timestamp'') (js_sort (byDateDesc ?e) ?es))"
    by (simp add: set_js_sort)
  from stored res len miss show ?thesis
    by (simp add: secondAt_last [symmetric] requestData_def)
qed

subsection \<open>C2: the files a pull request changes\<close>

text \<open>
  C2. The claim holds for a file that the target does not have and fails for a file whose
  last-modified stamps differ: the comparison reads the property \<open>lastModified\<close>, which
  the objects of \<open>listRepositoryFiles\<close> do not have (the stamp is their \<open>createdAt\<close>),
  so it compares \<open>undefined\<close> with \<open>undefined\<close>. With \<open>a.txt\<close> in both repositories,
  written at different times, \<open>getChangedFiles\<close> returns no file.
\<close>

theorem getChangedFiles_misses_modified_file:
  "map_option LastModified (GetObject diffBucket (fileKey ''fork1'' ''a.txt''))
      = Some ''2024-05-02T10:00:00.000Z''
   \<and> map_option LastModified (GetObject diffBucket (fileKey ''repo1'' ''a.txt''))
      = Some ''2024-05-01T10:00:00.000Z''
   \<and> map_sum id (map nameOf)
        (listRepositoryFiles (envAt (Some bob) ''2024-05-03T10:00:00.000Z'') ''fork1'' diffBucket)
      = Inr [''a.txt'']
   \<and> map_sum id (map nameOf)
        (listRepositoryFiles (envAt (Some bob) ''2024-05-03T10:00:00.000Z'') ''repo1'' diffBucket)
      = Inr [''a.txt'']
   \<and> getChangedFiles (envAt (Some bob) ''2024-05-03T10:00:00.000Z'') ''fork1'' ''repo1'' diffBucket
      = Inr []"
  by code_simp


text \<open>
  What the function computes instead: the names of the source files whose name no target
  file has.
\<close>

lemma fileInfoOf_lastModified: "fileInfoOf e b k = Some f \<Longrightarrow> map_of f ''lastModified'' = None"
  by (auto simp: fileInfoOf_def split: option.splits)

lemma fileInfos_lastModified:
  "fileInfos e b ks = Inr fs \<Longrightarrow> \<forall>f\<in>set fs. map_of f ''lastModified'' = None"
proof (induction ks arbitrary: fs)
  case Nil
  then show ?case by simp
next
  case (Cons k ks)
  then show ?case
    by (auto simp: fileInfoOf_lastModified split: option.splits sum.splits)
qed

lemma targetFileMap_None: "(targetFileMap tfs n = None) = (n \<notin> nameOf ` set tfs)"
  by (auto simp: targetFileMap_def map_of_eq_None_iff image_iff)

lemma isChanged_listed:
  assumes "map_of f ''lastModified'' = None" and "\<forall>t\<in>set tfs. map_of t ''lastModified'' = None"
  shows "isChanged tfs f = (nameOf f \<notin> nameOf ` set tfs)"
proof (cases "targetFileMap tfs (nameOf f)")
  case None
  then show ?thesis by (simp add: isChanged_def targetFileMap_None [symmetric])
next
  case (Some t)
  then have "(nameOf f, t) \<in> set (rev (map (\<lambda>file. (nameOf file, file)) tfs))"
    unfolding targetFileMap_def by (rule map_of_SomeD)
  then have "t \<in> set tfs" by auto
  then have "map_of t ''lastModified'' = None" using assms(2) by blast
  moreover have "nameOf f \<in> nameOf ` set tfs"
    using Some targetFileMap_None [of tfs "nameOf f"] by simp
  ultimately show ?thesis using Some assms(1) by (simp add: isChanged_def)
qed

lemma getChangedFiles_only_new_names:
  assumes "listRepositoryFiles e s b = Inr sfs" and "listRepositoryFiles e t b = Inr tfs"
    and "currentUser e = Some u"
  shows "getChangedFiles e s t b = Inr (map nameOf (filter (\<lambda>f. nameOf f \<notin> nameOf ` set tfs) sfs))"
proof -
  have i: "initialized e"
    using assms(1) by (cases "initialized e") (simp_all add: listRepositoryFiles_def)
  have s: "\<forall>f\<in>set sfs. map_of f ''lastModified'' = None"
    using assms(1) i by (simp add: listRepositoryFiles_def fileInfos_lastModified)
  have t: "\<forall>f\<in>set tfs. map_of f ''lastModified'' = None"
    using assms(2) i by (simp add: listRepositoryFiles_def fileInfos_lastModified)
  have "filter (isChanged tfs) sfs = filter (\<lambda>f. nameOf f \<notin> nameOf ` set tfs) sfs"
    using s t by (intro filter_cong) (simp_all add: isChanged_listed)
  then show ?thesis using assms by (simp add: getChangedFiles_def)
qed

subsection \<open>C3: merging a pull request\<close>

text \<open>
  Keys of two different repositories never coincide, so the writes of a merge into the
  target leave the files of the source as they were, and what the loop of
  \<open>mergePullRequest\<close> reads for a file is what the source held before the merge.
\<close>

lemma slash_free_eq:
  assumes "CHR ''/'' \<notin> set a" and "CHR ''/'' \<notin> set b" and "a @ CHR ''/'' # x = b @ CHR ''/'' # y"
  shows "a = b"
  using assms
proof (induction a arbitrary: b)
  case Nil
  then show ?case by (cases b) auto
next
  case (Cons c a)
  then show ?case by (cases b) auto
qed

lemma other_repository_keys:
  assumes "S \<noteq> T" and "CHR ''/'' \<notin> set S" and "CHR ''/'' \<notin> set T"
  shows "fileKey S g \<noteq> fileKey T f"
    and "fileKey S g \<noteq> historyKey T f t"
    and "fileKey S g \<noteq> commitKey T f t"
proof -
  have "S @ CHR ''/'' # x \<noteq> T @ CHR ''/'' # y" for x y
    using assms slash_free_eq [of S T x y] by blast
  then show "fileKey S g \<noteq> fileKey T f" "fileKey S g \<noteq> historyKey T f t"
    "fileKey S g \<noteq> commitKey T f t"
    by (simp_all add: fileKey_def historyKey_def versionKey_def commitKey_def)
qed

lemma mergeFiles_frame:
  assumes "\<forall>f\<in>set fs. k \<noteq> fileKey (targetRepoId pr) f \<and> k \<noteq> historyKey (targetRepoId pr) f (now e)
             \<and> k \<noteq> commitKey (targetRepoId pr) f (now e)"
  shows "GetObject (snd (mergeFiles e i pr u fs (n, b))) k = GetObject b k"
  using assms
proof (induction fs arbitrary: n b)
  case Nil
  then show ?case by simp
next
  case (Cons f fs)
  then have rest: "\<And>n b. GetObject (snd (mergeFiles e i pr u fs (n, b))) k = GetObject b k"
    by simp
  have up: "GetObject (snd (uploadFileWithCommit e (targetRepoId pr) f c m (Some u) b)) k = GetObject b k"
    for c m
    using Cons.prems by (intro uploadFileWithCommit_frame) simp_all
  show ?case
  proof (cases "getFileContent e (sourceRepoId pr) f b")
    case (Inl err)
    then show ?thesis by (simp add: rest)
  next
    case (Inr cm)
    obtain c md where cm: "cm = (c, md)" by (cases cm)
    show ?thesis
    proof (cases "truthy c")
      case False
      then show ?thesis using Inr cm by (simp add: rest)
    next
      case True
      let ?up = "uploadFileWithCommit e (targetRepoId pr) f c
                  (''Merge PR #'' @ take 8 i @ '': '' @ title pr) (Some u) b"
      obtain r b' where r: "?up = (r, b')" by (cases ?up)
      have "GetObject b' k = GetObject b k" using up [of c "''Merge PR #'' @ take 8 i @ '': '' @ title pr"] r
        by simp
      then show ?thesis using Inr cm True r by (cases r) (simp_all add: rest)
    qed
  qed
qed

lemma getFileContent_cong:
  "GetObject b (fileKey S f) = GetObject b0 (fileKey S f)
     \<Longrightarrow> getFileContent e S f b = getFileContent e S f b0"
  by (simp add: getFileContent_def downloadFileFromS3_def)

lemma uploadFileWithCommit_written:
  assumes "initialized e" and "currentUser e = Some cu" and "truthy c"
    and "k = fileKey T f \<or> k = historyKey T f (now e) \<or> k = commitKey T f (now e)"
  shows "GetObject (snd (uploadFileWithCommit e T f c m (Some u) b)) k =
         GetObject (snd (uploadFileWithCommit e T f c m (Some u) [])) k"
  using assms(4)
  by (auto simp: uploadFileWithCommit_result [OF assms(1,2,3)] GetObject_PutObject historyKey_def)

lemma written_key_other_file:
  assumes "f \<noteq> g"
    and "k = fileKey T f \<or> k = historyKey T f t \<or> k = commitKey T f t"
  shows "k \<noteq> fileKey T g \<and> k \<noteq> historyKey T g t \<and> k \<noteq> commitKey T g t"
  using assms
  by (auto simp: historyKey_def fileKey_def versionKey_def commitKey_def)

lemma mergeFiles_copies:
  assumes "initialized e" and "currentUser e = Some cu"
    and "sourceRepoId pr \<noteq> targetRepoId pr"
    and "CHR ''/'' \<notin> set (sourceRepoId pr)" and "CHR ''/'' \<notin> set (targetRepoId pr)"
    and "\<forall>g. GetObject b (fileKey (sourceRepoId pr) g) = GetObject b0 (fileKey (sourceRepoId pr) g)"
    and "f \<in> set fs"
    and "getFileContent e (sourceRepoId pr) f b0 = Inr (c, md)" and "truthy c"
    and "k = fileKey (targetRepoId pr) f \<or> k = historyKey (targetRepoId pr) f (now e)
           \<or> k = commitKey (targetRepoId pr) f (now e)"
  shows "GetObject (snd (mergeFiles e i pr u fs (n, b))) k =
         GetObject (snd (uploadFileWithCommit e (targetRepoId pr) f c
                           (''Merge PR #'' @ take 8 i @ '': '' @ title pr) (Some u) [])) k"
  using assms(6,7)
proof (induction fs arbitrary: n b)
  case Nil
  then show ?case by simp
next
  case (Cons g fs)
  let ?S = "sourceRepoId pr" and ?T = "targetRepoId pr"
  let ?msg = "''Merge PR #'' @ take 8 i @ '': '' @ title pr"
  text \<open>The bucket after the first file, whatever happens to it, still has the source files.\<close>
  have step: "\<exists>n1 b1. mergeFiles e i pr u (g # fs) (n, b) = mergeFiles e i pr u fs (n1, b1)
      \<and> (\<forall>h. GetObject b1 (fileKey ?S h) = GetObject b0 (fileKey ?S h))
      \<and> (g = f \<longrightarrow> GetObject b1 k =
            GetObject (snd (uploadFileWithCommit e ?T f c ?msg (Some u) [])) k)"
  proof (cases "getFileContent e ?S g b")
    case (Inl err)
    have "g \<noteq> f"
    proof
      assume "g = f"
      then have "getFileContent e ?S g b = Inr (c, md)"
        using getFileContent_cong [of b ?S f b0 e] Cons.prems(1) assms(8) by simp
      then show False using Inl by simp
    qed
    then show ?thesis using Inl Cons.prems(1)
      by (intro exI [of _ n] exI [of _ b]) simp
  next
    case (Inr cm)
    obtain c' md' where cm: "cm = (c', md')" by (cases cm)
    show ?thesis
    proof (cases "truthy c'")
      case False
      have "g \<noteq> f"
      proof
        assume "g = f"
        then have "getFileContent e ?S g b = Inr (c, md)"
          using getFileContent_cong [of b ?S f b0 e] Cons.prems(1) assms(8) by simp
        then show False using Inr cm False assms(9) by simp
      qed
      then show ?thesis using Inr cm False Cons.prems(1)
        by (intro exI [of _ n] exI [of _ b]) simp
    next
      case True
      define b1 where "b1 = snd (uploadFileWithCommit e ?T g c' ?msg (Some u) b)"
      have res: "uploadFileWithCommit e ?T g c' ?msg (Some u) b = (Inr (now e), b1)"
        unfolding b1_def
        using uploadFileWithCommit_result [OF assms(1,2) True, of ?T g ?msg u b] by simp
      have run: "mergeFiles e i pr u (g # fs) (n, b) = mergeFiles e i pr u fs (n + 1, b1)"
        using Inr cm True res by simp
      have src: "GetObject b1 (fileKey ?S h) = GetObject b0 (fileKey ?S h)" for h
      proof -
        have "GetObject b1 (fileKey ?S h) = GetObject b (fileKey ?S h)"
          unfolding b1_def using other_repository_keys [OF assms(3,4,5)]
          by (intro uploadFileWithCommit_frame) simp_all
        then show ?thesis using Cons.prems(1) by simp
      qed
      have same: "GetObject b1 k = GetObject (snd (uploadFileWithCommit e ?T f c ?msg (Some u) [])) k"
        if "g = f"
      proof -
        have "getFileContent e ?S g b = Inr (c, md)"
          using getFileContent_cong [of b ?S f b0 e] Cons.prems(1) assms(8) that by simp
        then have "c' = c" using Inr cm by simp
        then show ?thesis
          unfolding b1_def
          using uploadFileWithCommit_written [OF assms(1,2,9) assms(10), of ?msg u b] that by simp
      qed
      from run src same show ?thesis
        by (intro exI [of _ "n + 1"] exI [of _ b1]) simp
    qed
  qed
  then obtain n1 b1 where run: "mergeFiles e i pr u (g # fs) (n, b) = mergeFiles e i pr u fs (n1, b1)"
    and src: "\<forall>h. GetObject b1 (fileKey ?S h) = GetObject b0 (fileKey ?S h)"
    and same: "g = f \<longrightarrow> GetObject b1 k =
            GetObject (snd (uploadFileWithCommit e ?T f c ?msg (Some u) [])) k"
    by blast
  show ?case
  proof (cases "f \<in> set fs")
    case True
    then show ?thesis using Cons.IH [OF src True] run by simp
  next
    case False
    then have gf: "g = f" using Cons.prems(2) by simp
    have "\<forall>h\<in>set fs. k \<noteq> fileKey ?T h \<and> k \<noteq> historyKey ?T h (now e) \<and> k \<noteq> commitKey ?T h (now e)"
    proof
      fix h
      assume "h \<in> set fs"
      then have "f \<noteq> h" using False by blast
      from written_key_other_file [OF this assms(10)]
      show "k \<noteq> fileKey ?T h \<and> k \<noteq> historyKey ?T h (now e) \<and> k \<noteq> commitKey ?T h (now e)" .
    qed
    then have "GetObject (snd (mergeFiles e i pr u fs (n1, b1))) k = GetObject b1 k"
      by (rule mergeFiles_frame)
    then show ?thesis using run same gf by simp
  qed
qed

lemma mergeFiles_source:
  assumes "sourceRepoId pr \<noteq> targetRepoId pr"
    and "CHR ''/'' \<notin> set (sourceRepoId pr)" and "CHR ''/'' \<notin> set (targetRepoId pr)"
  shows "GetObject (snd (mergeFiles e i pr u fs (n, b))) (fileKey (sourceRepoId pr) g)
           = GetObject b (fileKey (sourceRepoId pr) g)"
  using other_repository_keys [OF assms] by (intro mergeFiles_frame) simp

lemma mergePullRequest_result:
  assumes "currentUser e = Some u" and "pullRequests w i = Some pr"
    and "uid u = targetOwnerId pr" and "status pr = Open"
    and "changedFiles pr = Some fs" and "fs \<noteq> []"
  shows "fst (mergePullRequest e i comment w) = Inr ()"
    and "bucket (snd (mergePullRequest e i comment w)) = snd (mergeFiles e i pr u fs (0, bucket w))"
    and "map_option status (pullRequests (snd (mergePullRequest e i comment w)) i) = Some Merged"
    and "\<exists>n\<in>set (notifications (snd (mergePullRequest e i comment w))).
           userId n = creator_id (createdBy pr) \<and> ntype n = ''pull_request_merged''"
  using assms
  by (simp_all add: mergePullRequest_def updatePullRequestStatus_def getPullRequest_def
      case_prod_beta statusString_def)

lemma download_app_text:
  assumes "initialized e" and "GetObject b (fileKey S f) = Some src"
    and "Body src = Bytes (TextEncoder_encode s)"
    and "wellFormed s" and "s \<noteq> []" and "hd s \<noteq> 0xFEFF"
  shows "\<exists>c md. getFileContent e S f b = Inr (c, md) \<and> truthy c
           \<and> (case c of Str s \<Rightarrow> TextEncoder_encode s | Buf bs \<Rightarrow> bs) = TextEncoder_encode s"
proof -
  have rt: "TextDecoder_decode (TextEncoder_encode s) = s"
    using assms(4) hd_content [OF assms(5,6)] by (rule decode_encode)
  show ?thesis
    using assms(1,2,3,5)
    by (cases "js_includes (ContentType src) ''text'' \<or> isTextFile f")
      (simp_all add: getFileContent_def downloadFileFromS3_def bodyBytes_def rt truthy_def Let_def)
qed

lemma download_binary:
  assumes "initialized e" and "GetObject b (fileKey S f) = Some src"
    and "Body src = Bytes bs"
    and "\<not> js_includes (ContentType src) ''text''" and "\<not> isTextFile f"
  shows "getFileContent e S f b = Inr (Buf bs, Metadata src)"
  using assms by (simp add: getFileContent_def downloadFileFromS3_def bodyBytes_def)

text \<open>The fixture: a fork with two text files, one of them beginning with a byte order mark.\<close>

lemma isTextFile_a: "isTextFile ''a.txt''"
  by code_simp

lemma GetObject_Nil: "GetObject [] k = None"
  by (simp add: GetObject_def)

lemma GetObject_Cons: "GetObject ((k', v) # b) k = (if k = k' then Some v else GetObject b k)"
  by (simp add: GetObject_def)

lemma merge_fixture:
  "initialized (envAt (Some alice) ''2024-05-02T10:00:00.000Z'')"
  "currentUser (envAt (Some alice) ''2024-05-02T10:00:00.000Z'') = Some alice"
  "pullRequests (prWorld Open [''a.txt'', ''missing.txt'', ''b.txt''] mergeBucket) ''pr1''
     = Some (samplePR Open [''a.txt'', ''missing.txt'', ''b.txt''])"
  "uid alice = targetOwnerId (samplePR Open [''a.txt'', ''missing.txt'', ''b.txt''])"
  "status (samplePR Open [''a.txt'', ''missing.txt'', ''b.txt'']) = Open"
  "changedFiles (samplePR Open [''a.txt'', ''missing.txt'', ''b.txt''])
     = Some [''a.txt'', ''missing.txt'', ''b.txt'']"
  "[''a.txt'', ''missing.txt'', ''b.txt''] \<noteq> []"
  "sourceRepoId (samplePR Open [''a.txt'', ''missing.txt'', ''b.txt''])
     \<noteq> targetRepoId (samplePR Open [''a.txt'', ''missing.txt'', ''b.txt''])"
  "CHR ''/'' \<notin> set (sourceRepoId (samplePR Open [''a.txt'', ''missing.txt'', ''b.txt'']))"
  "CHR ''/'' \<notin> set (targetRepoId (samplePR Open [''a.txt'', ''missing.txt'', ''b.txt'']))"
  "sourceRepoId (samplePR Open [''a.txt'', ''missing.txt'', ''b.txt'']) = ''fork1''"
  "targetRepoId (samplePR Open [''a.txt'', ''missing.txt'', ''b.txt'']) = ''repo1''"
  "bucket (prWorld Open [''a.txt'', ''missing.txt'', ''b.txt''] mergeBucket) = mergeBucket"
  by (simp_all add: envAt_def alice_def prWorld_def samplePR_def)

lemma merge_fixture_a:
  "GetObject mergeBucket (fileKey ''fork1'' ''a.txt'')
     = Some (textObject [239, 187, 191, 104, 105] ''2024-05-01T10:00:00.000Z'')"
  "getFileContent (envAt (Some alice) ''2024-05-02T10:00:00.000Z'') ''fork1'' ''a.txt'' mergeBucket
     = Inr (Str [104, 105], [])"
  by (simp_all add: getFileContent_def downloadFileFromS3_def mergeBucket_def GetObject_Cons
      fileKey_def textObject_def bodyBytes_def envAt_def decode_BOM_hi isTextFile_a)

lemma merge_fixture_b:
  "GetObject mergeBucket (fileKey ''fork1'' ''b.txt'')
     = Some (textObject [104, 105] ''2024-05-01T10:00:00.000Z'')"
  by (simp add: mergeBucket_def GetObject_Cons fileKey_def)

text \<open>
  C3, as stated, fails at "byte-identical": \<open>a.txt\<close> of the fork is the five bytes
  \<open>EF BB BF 68 69\<close>; the merge by \<open>alice\<close> succeeds and sets the status to merged, and
  \<open>a.txt\<close> of the target is the two bytes \<open>68 69\<close>. A file that counts as text is decoded
  by \<open>downloadFileFromS3\<close> and encoded again by \<open>uploadFileToS3\<close>.
\<close>

theorem merge_not_byte_identical_counterexample:
  "fst (mergePullRequest (envAt (Some alice) ''2024-05-02T10:00:00.000Z'') ''pr1'' None
          (prWorld Open [''a.txt'', ''missing.txt'', ''b.txt''] mergeBucket)) = Inr ()
   \<and> map_option status (pullRequests mergedWorld ''pr1'') = Some Merged
   \<and> map_option Body (GetObject mergeBucket (fileKey ''fork1'' ''a.txt''))
       = Some (Bytes [239, 187, 191, 104, 105])
   \<and> map_option Body (GetObject (bucket mergedWorld) (fileKey ''repo1'' ''a.txt''))
       = Some (Bytes [104, 105])"
proof -
  let ?e = "envAt (Some alice) ''2024-05-02T10:00:00.000Z''"
  let ?fs = "[''a.txt'', ''missing.txt'', ''b.txt'']"
  let ?pr = "samplePR Open ?fs"
  let ?w = "prWorld Open ?fs mergeBucket"
  let ?msg = "''Merge PR #'' @ take 8 ''pr1'' @ '': '' @ title ?pr"
  note fx = merge_fixture
  note res = mergePullRequest_result [OF fx(2-7), of None]
  have t: "truthy (Str [104, 105])" by (simp add: truthy_def)
  have "GetObject (snd (mergeFiles ?e ''pr1'' ?pr alice ?fs (0, mergeBucket))) (fileKey ''repo1'' ''a.txt'')
          = GetObject (snd (uploadFileWithCommit ?e ''repo1'' ''a.txt'' (Str [104, 105]) ?msg
                              (Some alice) [])) (fileKey ''repo1'' ''a.txt'')"
    using mergeFiles_copies [OF fx(1,2,8,9,10), of mergeBucket mergeBucket "''a.txt''" ?fs
        "Str [104, 105]" "[]" "fileKey ''repo1'' ''a.txt''" "''pr1''" alice 0]
      merge_fixture_a(2) t
    by (simp add: fx(11,12))
  then have "map_option Body (GetObject (bucket mergedWorld) (fileKey ''repo1'' ''a.txt''))
               = Some (Bytes [104, 105])"
    using res(2)
    by (simp add: mergedWorld_def fx(13) uploadFileWithCommit_result [OF fx(1,2) t]
        GetObject_PutObject encode_hi)
  with res(1,3) merge_fixture_a(1) show ?thesis
    by (simp add: mergedWorld_def textObject_def)
qed

text \<open>
  C3, amended. For an open pull request with a non-empty list of changed files between two
  different repositories, merged by the target owner: the call succeeds, the status
  becomes merged and the creator is notified, whatever happens to the single files; every
  changed file that \<open>getFileContent\<close> reads from the source with a non-empty content is
  written to the target, as the re-encoded text or as the raw bytes, together with a commit
  record of its own (message \<open>Merge PR #\<dots>\<close>, author the merging owner); the copy is
  byte-identical for a text file whose bytes are the UTF-8 encoding of a non-empty string
  without unpaired surrogates and without a leading U+FEFF, and for a file that is not
  classified as text; the files of the source are unchanged.
\<close>

theorem merge_copies_and_marks_merged:
  assumes "initialized e" and "currentUser e = Some u"
    and "pullRequests w i = Some pr"
    and "uid u = targetOwnerId pr" and "status pr = Open"
    and "changedFiles pr = Some fs" and "fs \<noteq> []"
    and "sourceRepoId pr \<noteq> targetRepoId pr"
    and "CHR ''/'' \<notin> set (sourceRepoId pr)" and "CHR ''/'' \<notin> set (targetRepoId pr)"
    and "w' = snd (mergePullRequest e i comment w)"
  shows "fst (mergePullRequest e i comment w) = Inr ()
       \<and> map_option status (pullRequests w' i) = Some Merged
       \<and> (\<exists>n\<in>set (notifications w').
             userId n = creator_id (createdBy pr) \<and> ntype n = ''pull_request_merged'')
       \<and> (\<forall>f\<in>set fs. \<forall>c md.
             getFileContent e (sourceRepoId pr) f (bucket w) = Inr (c, md) \<and> truthy c
             \<longrightarrow> map_option Body (GetObject (bucket w') (fileKey (targetRepoId pr) f))
                   = Some (Bytes (case c of Str s \<Rightarrow> TextEncoder_encode s | Buf bs \<Rightarrow> bs))
                 \<and> map_option Body (GetObject (bucket w') (commitKey (targetRepoId pr) f (now e)))
                   = Some (Json [(''message'', ''Merge PR #'' @ take 8 i @ '': '' @ title pr),
                                 (''timestamp'', now e),
                                 (''author'', js_or (email u) (uid u))]))
       \<and> (\<forall>f\<in>set fs. \<forall>src s.
             GetObject (bucket w) (fileKey (sourceRepoId pr) f) = Some src
             \<and> Body src = Bytes (TextEncoder_encode s) \<and> wellFormed s \<and> s \<noteq> [] \<and> hd s \<noteq> 0xFEFF
             \<longrightarrow> map_option Body (GetObject (bucket w') (fileKey (targetRepoId pr) f)) = Some (Body src))
       \<and> (\<forall>f\<in>set fs. \<forall>src bs.
             GetObject (bucket w) (fileKey (sourceRepoId pr) f) = Some src \<and> Body src = Bytes bs
             \<and> \<not> js_includes (ContentType src) ''text'' \<and> \<not> isTextFile f
             \<longrightarrow> map_option Body (GetObject (bucket w') (fileKey (targetRepoId pr) f)) = Some (Body src))
       \<and> (\<forall>g. GetObject (bucket w') (fileKey (sourceRepoId pr) g)
                = GetObject (bucket w) (fileKey (sourceRepoId pr) g))"
proof -
  let ?S = "sourceRepoId pr" and ?T = "targetRepoId pr"
  let ?msg = "''Merge PR #'' @ take 8 i @ '': '' @ title pr"
  note res = mergePullRequest_result [OF assms(2-7), of comment]
  have bucket: "bucket w' = snd (mergeFiles e i pr u fs (0, bucket w))"
    using res(2) assms(11) by simp
  have copied: "map_option Body (GetObject (bucket w') (fileKey ?T f))
                   = Some (Bytes (case c of Str s \<Rightarrow> TextEncoder_encode s | Buf bs \<Rightarrow> bs))
                 \<and> map_option Body (GetObject (bucket w') (commitKey ?T f (now e)))
                   = Some (Json [(''message'', ?msg), (''timestamp'', now e),
                                 (''author'', js_or (email u) (uid u))])"
    if f: "f \<in> set fs" and c: "getFileContent e ?S f (bucket w) = Inr (c, md)" "truthy c"
    for f c md
  proof -
    note up = uploadFileWithCommit_result [OF assms(1,2) c(2), of ?T f _ u "[]"]
    have "GetObject (bucket w') (fileKey ?T f)
            = GetObject (snd (uploadFileWithCommit e ?T f c ?msg (Some u) [])) (fileKey ?T f)"
      unfolding bucket
      by (rule mergeFiles_copies [OF assms(1,2,8,9,10) _ f c]) simp_all
    moreover have "GetObject (bucket w') (commitKey ?T f (now e))
            = GetObject (snd (uploadFileWithCommit e ?T f c ?msg (Some u) [])) (commitKey ?T f (now e))"
      unfolding bucket
      by (rule mergeFiles_copies [OF assms(1,2,8,9,10) _ f c]) simp_all
    ultimately show ?thesis
      by (simp add: up GetObject_PutObject historyKey_def)
  qed
  have textual: "map_option Body (GetObject (bucket w') (fileKey ?T f)) = Some (Body src)"
    if "f \<in> set fs" "GetObject (bucket w) (fileKey ?S f) = Some src"
      "Body src = Bytes (TextEncoder_encode s)" "wellFormed s" "s \<noteq> []" "hd s \<noteq> 0xFEFF"
    for f src s
  proof -
    from download_app_text [OF assms(1) that(2-6)] obtain c md
      where "getFileContent e ?S f (bucket w) = Inr (c, md)" "truthy c"
        "(case c of Str s \<Rightarrow> TextEncoder_encode s | Buf bs \<Rightarrow> bs) = TextEncoder_encode s"
      by blast
    then show ?thesis using copied [OF that(1)] that(3) by simp
  qed
  have binary: "map_option Body (GetObject (bucket w') (fileKey ?T f)) = Some (Body src)"
    if "f \<in> set fs" "GetObject (bucket w) (fileKey ?S f) = Some src" "Body src = Bytes bs"
      "\<not> js_includes (ContentType src) ''text''" "\<not> isTextFile f"
    for f src bs
  proof -
    have "getFileContent e ?S f (bucket w) = Inr (Buf bs, Metadata src)"
      using assms(1) that(2-5) by (rule download_binary)
    moreover have "truthy (Buf bs)" by (simp add: truthy_def)
    ultimately show ?thesis using copied [OF that(1)] that(3) by simp
  qed
  have source: "GetObject (bucket w') (fileKey ?S g) = GetObject (bucket w) (fileKey ?S g)" for g
    unfolding bucket using assms(8,9,10) by (rule mergeFiles_source)
  from res(1) res(3,4) assms(11) copied textual binary source show ?thesis by blast
qed

text \<open>
  The theorem at the fixture: \<open>missing.txt\<close> cannot be read, \<open>b.txt\<close> after it is still
  copied byte for byte, and \<open>a.txt\<close> has its commit record.
\<close>

theorem merge_copies_and_marks_merged_witness:
  "fst (mergePullRequest (envAt (Some alice) ''2024-05-02T10:00:00.000Z'') ''pr1'' None
          (prWorld Open [''a.txt'', ''missing.txt'', ''b.txt''] mergeBucket)) = Inr ()
   \<and> map_option status (pullRequests mergedWorld ''pr1'') = Some Merged
   \<and> map_option Body (GetObject (bucket mergedWorld) (fileKey ''repo1'' ''b.txt''))
       = Some (Bytes [104, 105])
   \<and> map_option Body
        (GetObject (bucket mergedWorld) (commitKey ''repo1'' ''a.txt'' ''2024-05-02T10:00:00.000Z''))
       = Some (Json [(''message'', ''Merge PR #pr1: Fix typo''),
                     (''timestamp'', ''2024-05-02T10:00:00.000Z''),
                     (''author'', ''alice@example.org'')])
   \<and> GetObject (bucket mergedWorld) (fileKey ''fork1'' ''a.txt'')
       = Some (textObject [239, 187, 191, 104, 105] ''2024-05-01T10:00:00.000Z'')"
proof -
  let ?e = "envAt (Some alice) ''2024-05-02T10:00:00.000Z''"
  let ?fs = "[''a.txt'', ''missing.txt'', ''b.txt'']"
  let ?pr = "samplePR Open ?fs"
  let ?w = "prWorld Open ?fs mergeBucket"
  let ?b = "textObject [104, 105] ''2024-05-01T10:00:00.000Z''"
  note fx = merge_fixture
  note main = merge_copies_and_marks_merged [OF fx(1-10) mergedWorld_def, unfolded fx(11,12,13)]
  from main have ok: "fst (mergePullRequest ?e ''pr1'' None ?w) = Inr ()"
    and merged: "map_option status (pullRequests mergedWorld ''pr1'') = Some Merged"
    and readable: "\<forall>f\<in>set ?fs. \<forall>c md.
             getFileContent ?e ''fork1'' f mergeBucket = Inr (c, md) \<and> truthy c
             \<longrightarrow> map_option Body (GetObject (bucket mergedWorld) (fileKey ''repo1'' f))
                   = Some (Bytes (case c of Str s \<Rightarrow> TextEncoder_encode s | Buf bs \<Rightarrow> bs))
                 \<and> map_option Body (GetObject (bucket mergedWorld) (commitKey ''repo1'' f (now ?e)))
                   = Some (Json [(''message'', ''Merge PR #'' @ take 8 ''pr1'' @ '': '' @ title ?pr),
                                 (''timestamp'', now ?e),
                                 (''author'', js_or (email alice) (uid alice))])"
    and identical: "\<forall>f\<in>set ?fs. \<forall>src s.
             GetObject mergeBucket (fileKey ''fork1'' f) = Some src
             \<and> Body src = Bytes (TextEncoder_encode s) \<and> wellFormed s \<and> s \<noteq> [] \<and> hd s \<noteq> 0xFEFF
             \<longrightarrow> map_option Body (GetObject (bucket mergedWorld) (fileKey ''repo1'' f)) = Some (Body src)"
    and source: "\<forall>g. GetObject (bucket mergedWorld) (fileKey ''fork1'' g)
                = GetObject mergeBucket (fileKey ''fork1'' g)"
    by blast+
  have src: "Body ?b = Bytes (TextEncoder_encode [104, 105])" "wellFormed [104, 105]"
    "[104, 105] \<noteq> ([] :: nat list)" "hd [104, 105] \<noteq> (0xFEFF :: nat)"
    by (simp_all add: textObject_def encode_hi isHigh_def isLow_def)
  have "''b.txt'' \<in> set ?fs" by simp
  with identical have "GetObject mergeBucket (fileKey ''fork1'' ''b.txt'') = Some ?b
             \<and> Body ?b = Bytes (TextEncoder_encode [104, 105]) \<and> wellFormed [104, 105]
             \<and> [104, 105] \<noteq> ([] :: nat list) \<and> hd [104, 105] \<noteq> (0xFEFF :: nat)
             \<longrightarrow> map_option Body (GetObject (bucket mergedWorld) (fileKey ''repo1'' ''b.txt''))
                   = Some (Body ?b)"
    by blast
  with merge_fixture_b src
  have "map_option Body (GetObject (bucket mergedWorld) (fileKey ''repo1'' ''b.txt'')) = Some (Body ?b)"
    by blast
  then have b: "map_option Body (GetObject (bucket mergedWorld) (fileKey ''repo1'' ''b.txt''))
             = Some (Bytes [104, 105])"
    by (simp add: textObject_def)
  have "''a.txt'' \<in> set ?fs" by simp
  with readable have "getFileContent ?e ''fork1'' ''a.txt'' mergeBucket = Inr (Str [104, 105], [])
             \<and> truthy (Str [104, 105])
             \<longrightarrow> map_option Body (GetObject (bucket mergedWorld) (fileKey ''repo1'' ''a.txt''))
                   = Some (Bytes (case Str [104, 105] of Str s \<Rightarrow> TextEncoder_encode s | Buf bs \<Rightarrow> bs))
                 \<and> map_option Body (GetObject (bucket mergedWorld) (commitKey ''repo1'' ''a.txt'' (now ?e)))
                   = Some (Json [(''message'', ''Merge PR #'' @ take 8 ''pr1'' @ '': '' @ title ?pr),
                                 (''timestamp'', now ?e),
                                 (''author'', js_or (email alice) (uid alice))])"
    by blast
  moreover have "truthy (Str [104, 105])" by (simp add: truthy_def)
  ultimately
  have a: "map_option Body (GetObject (bucket mergedWorld) (commitKey ''repo1'' ''a.txt'' (now ?e)))
             = Some (Json [(''message'', ''Merge PR #'' @ take 8 ''pr1'' @ '': '' @ title ?pr),
                           (''timestamp'', now ?e),
                           (''author'', js_or (email alice) (uid alice))])"
    using merge_fixture_a(2) by blast
  from a have a': "map_option Body
        (GetObject (bucket mergedWorld) (commitKey ''repo1'' ''a.txt'' ''2024-05-02T10:00:00.000Z''))
       = Some (Json [(''message'', ''Merge PR #pr1: Fix typo''),
                     (''timestamp'', ''2024-05-02T10:00:00.000Z''),
                     (''author'', ''alice@example.org'')])"
    by (simp add: envAt_def alice_def samplePR_def js_or_def)
  from source merge_fixture_a(1)
  have s: "GetObject (bucket mergedWorld) (fileKey ''fork1'' ''a.txt'')
       = Some (textObject [239, 187, 191, 104, 105] ''2024-05-01T10:00:00.000Z'')"
    by simp
  from ok merged b a' s show ?thesis by blast
qed

subsection \<open>C9: the redacted projection of a private repository\<close>

text \<open>
  C9. For a private repository and a signed-in caller who is neither its owner nor one of
  its collaborators, \<open>getRepository\<close> succeeds, and the repository it returns carries the
  identity, name, owner, visibility, description and the two timestamps of the stored
  record, an empty collaborator list and no fork pointer. Nothing else of the stored
  record reaches the result: two stored records that agree on those seven fields give the
  same result, whatever their fork pointers and their collaborator lists (without the
  caller) are.
\<close>

theorem getRepository_redacted:
  assumes "currentUser e = Some u"
    and "repos i = Some d"
    and "\<not> isPublic d"
    and "ownerId d \<noteq> uid u"
    and "\<not> includesOpt (collaborators d) (uid u)"
    and "\<not> includesOpt cs (uid u)"
  shows "getRepository e i repos =
           Inr \<lparr>repo_id = Some (case repo_id d of None \<Rightarrow> i | Some x \<Rightarrow> x),
                name = name d, description = description d, ownerId = ownerId d,
                createdAt = createdAt d, updatedAt = updatedAt d, isPublic = False,
                collaborators = Some [], forkedFrom = None\<rparr>
       \<and> getRepository e i (repos(i \<mapsto> d\<lparr>collaborators := cs, forkedFrom := ff\<rparr>)) =
           getRepository e i repos"
  using assms by (simp add: getRepository_def includesOpt_def Let_def)

theorem getRepository_redacted_witness:
  "getRepository
     \<lparr>initialized = True,
      currentUser = Some \<lparr>uid = ''carol'', email = Some ''carol@example.org'', displayName = None\<rparr>,
      now = ''2024-05-01T10:00:00.000Z'', getTime = (\<lambda>s. None), toLocaleString = (\<lambda>s. s), getSignedUrl = (\<lambda>k n. k)\<rparr>
     ''r1''
     [''r1'' \<mapsto> \<lparr>repo_id = None, name = ''demo'', description = ''a private one'',
        ownerId = ''alice'', createdAt = ''2024-01-01T00:00:00.000Z'',
        updatedAt = ''2024-02-01T00:00:00.000Z'', isPublic = False,
        collaborators = Some [''bob''], forkedFrom = Some ''r0''\<rparr>]
   = Inr \<lparr>repo_id = Some ''r1'', name = ''demo'', description = ''a private one'',
        ownerId = ''alice'', createdAt = ''2024-01-01T00:00:00.000Z'',
        updatedAt = ''2024-02-01T00:00:00.000Z'', isPublic = False,
        collaborators = Some [], forkedFrom = None\<rparr>"
  using getRepository_redacted
    [of "\<lparr>initialized = True,
      currentUser = Some \<lparr>uid = ''carol'', email = Some ''carol@example.org'', displayName = None\<rparr>,
      now = ''2024-05-01T10:00:00.000Z'', getTime = (\<lambda>s. None), toLocaleString = (\<lambda>s. s), getSignedUrl = (\<lambda>k n. k)\<rparr>"
      "\<lparr>uid = ''carol'', email = Some ''carol@example.org'', displayName = None\<rparr>"
      "[''r1'' \<mapsto> \<lparr>repo_id = None, name = ''demo'', description = ''a private one'',
        ownerId = ''alice'', createdAt = ''2024-01-01T00:00:00.000Z'',
        updatedAt = ''2024-02-01T00:00:00.000Z'', isPublic = False,
        collaborators = Some [''bob''], forkedFrom = Some ''r0''\<rparr>]"
      "''r1''"
      "\<lparr>repo_id = None, name = ''demo'', description = ''a private one'',
        ownerId = ''alice'', createdAt = ''2024-01-01T00:00:00.000Z'',
        updatedAt = ''2024-02-01T00:00:00.000Z'', isPublic = False,
        collaborators = Some [''bob''], forkedFrom = Some ''r0''\<rparr>" None]
  by (simp add: includesOpt_def)

subsection \<open>C4: the status of a pull request that is no longer open\<close>

text \<open>
  C4. The claim holds for \<open>mergePullRequest\<close>, which refuses a pull request that is not
  open, and fails for \<open>updatePullRequestStatus\<close>, which has no such check: on a merged
  pull request the target owner's \<open>updatePullRequestStatus(id, 'rejected')\<close> succeeds and
  the stored status becomes \<open>rejected\<close>.
\<close>

theorem updatePullRequestStatus_leaves_terminal_state:
  "pullRequests (prWorld Merged [''a.txt''] []) ''pr1'' = Some (samplePR Merged [''a.txt''])
   \<and> fst (updatePullRequestStatus (envAt (Some alice) ''2024-05-02T10:00:00.000Z'') ''pr1'' Rejected None
            (prWorld Merged [''a.txt''] [])) = Inr ()
   \<and> map_option status
        (pullRequests
           (snd (updatePullRequestStatus (envAt (Some alice) ''2024-05-02T10:00:00.000Z'') ''pr1''
                   Rejected None (prWorld Merged [''a.txt''] []))) ''pr1'') = Some Rejected"
  by (simp add: updatePullRequestStatus_def getPullRequest_def prWorld_def samplePR_def
      envAt_def alice_def)

subsection \<open>C5: who may merge, reject and close\<close>

text \<open>
  C5, as stated, fails at the close operation: \<open>mallory\<close>, who is neither the target
  owner nor the creator of the pull request, closes it.
\<close>

theorem close_by_stranger_counterexample:
  "uid mallory \<noteq> targetOwnerId (samplePR Open [''a.txt''])
   \<and> uid mallory \<noteq> creator_id (createdBy (samplePR Open [''a.txt'']))
   \<and> fst (updatePullRequestStatus (envAt (Some mallory) ''2024-05-02T10:00:00.000Z'') ''pr1'' Closed None
            (prWorld Open [''a.txt''] [])) = Inr ()
   \<and> map_option status
        (pullRequests
           (snd (updatePullRequestStatus (envAt (Some mallory) ''2024-05-02T10:00:00.000Z'') ''pr1''
                   Closed None (prWorld Open [''a.txt''] []))) ''pr1'') = Some Closed"
  by (simp add: updatePullRequestStatus_def getPullRequest_def prWorld_def samplePR_def
      envAt_def mallory_def)

text \<open>
  C5, amended. For a signed-in caller and an existing pull request: merge and reject (and
  every status other than \<open>closed\<close>) are refused with the owner-only error and no change
  of state unless the caller is the target owner; on an open pull request the target
  owner's reject succeeds and stores the new status, and close succeeds for every
  signed-in caller, with no check of the creator, and stores \<open>closed\<close>; merge of a pull
  request that is not open fails and changes nothing, no file operation included, with the
  error \<open>This pull request is already <status>\<close> when the caller is the target owner.
  What reject and close do to a pull request that is not open is left out here.
\<close>

theorem pull_request_authorization:
  assumes "currentUser e = Some u" and "pullRequests w i = Some pr"
  shows "(uid u \<noteq> targetOwnerId pr \<longrightarrow>
            mergePullRequest e i c w =
              (Inl ''Only the repository owner can merge this pull request'', w))
       \<and> (uid u \<noteq> targetOwnerId pr \<longrightarrow> st \<noteq> Closed \<longrightarrow>
            updatePullRequestStatus e i st c w =
              (Inl ''Only the repository owner can update this pull request'', w))
       \<and> (status pr = Open \<longrightarrow> uid u = targetOwnerId pr \<longrightarrow>
            fst (updatePullRequestStatus e i st c w) = Inr ()
            \<and> map_option status (pullRequests (snd (updatePullRequestStatus e i st c w)) i)
                = Some st)
       \<and> (status pr = Open \<longrightarrow>
            fst (updatePullRequestStatus e i Closed c w) = Inr ()
            \<and> map_option status (pullRequests (snd (updatePullRequestStatus e i Closed c w)) i)
                = Some Closed)
       \<and> (status pr \<noteq> Open \<longrightarrow>
            snd (mergePullRequest e i c w) = w \<and> isl (fst (mergePullRequest e i c w)))
       \<and> (status pr \<noteq> Open \<longrightarrow> uid u = targetOwnerId pr \<longrightarrow>
            fst (mergePullRequest e i c w) =
              Inl (''This pull request is already '' @ statusString (status pr)))"
  using assms
  by (simp add: mergePullRequest_def updatePullRequestStatus_def getPullRequest_def)

text \<open>
  The theorem at three inputs: \<open>bob\<close>, the creator and not the owner, on the open pull
  request; \<open>alice\<close>, the owner, rejecting the open pull request; \<open>alice\<close> merging a pull
  request that is merged already.
\<close>

theorem pull_request_authorization_witness:
  "mergePullRequest (envAt (Some bob) ''2024-05-02T10:00:00.000Z'') ''pr1'' None
      (prWorld Open [''a.txt''] [])
     = (Inl ''Only the repository owner can merge this pull request'', prWorld Open [''a.txt''] [])
   \<and> updatePullRequestStatus (envAt (Some bob) ''2024-05-02T10:00:00.000Z'') ''pr1'' Rejected None
      (prWorld Open [''a.txt''] [])
     = (Inl ''Only the repository owner can update this pull request'', prWorld Open [''a.txt''] [])
   \<and> fst (updatePullRequestStatus (envAt (Some bob) ''2024-05-02T10:00:00.000Z'') ''pr1'' Closed None
      (prWorld Open [''a.txt''] [])) = Inr ()
   \<and> map_option status
        (pullRequests
           (snd (updatePullRequestStatus (envAt (Some bob) ''2024-05-02T10:00:00.000Z'') ''pr1''
                   Closed None (prWorld Open [''a.txt''] []))) ''pr1'') = Some Closed
   \<and> fst (updatePullRequestStatus (envAt (Some alice) ''2024-05-02T10:00:00.000Z'') ''pr1'' Rejected
      None (prWorld Open [''a.txt''] [])) = Inr ()
   \<and> map_option status
        (pullRequests
           (snd (updatePullRequestStatus (envAt (Some alice) ''2024-05-02T10:00:00.000Z'') ''pr1''
                   Rejected None (prWorld Open [''a.txt''] []))) ''pr1'') = Some Rejected
   \<and> mergePullRequest (envAt (Some alice) ''2024-05-02T10:00:00.000Z'') ''pr1'' None
      (prWorld Merged [''a.txt''] [])
     = (Inl ''This pull request is already merged'', prWorld Merged [''a.txt''] [])"
proof -
  let ?bob = "envAt (Some bob) ''2024-05-02T10:00:00.000Z''"
  let ?alice = "envAt (Some alice) ''2024-05-02T10:00:00.000Z''"
  have stranger:
    "mergePullRequest ?bob ''pr1'' None (prWorld Open [''a.txt''] [])
       = (Inl ''Only the repository owner can merge this pull request'', prWorld Open [''a.txt''] [])
     \<and> updatePullRequestStatus ?bob ''pr1'' Rejected None (prWorld Open [''a.txt''] [])
       = (Inl ''Only the repository owner can update this pull request'', prWorld Open [''a.txt''] [])
     \<and> fst (updatePullRequestStatus ?bob ''pr1'' Closed None (prWorld Open [''a.txt''] [])) = Inr ()
     \<and> map_option status
          (pullRequests (snd (updatePullRequestStatus ?bob ''pr1'' Closed None
                                (prWorld Open [''a.txt''] []))) ''pr1'') = Some Closed"
    using pull_request_authorization
      [of ?bob bob "prWorld Open [''a.txt''] []" "''pr1''" "samplePR Open [''a.txt'']" None Rejected]
    by (simp add: envAt_def bob_def prWorld_def samplePR_def)
  have owner:
    "fst (updatePullRequestStatus ?alice ''pr1'' Rejected None (prWorld Open [''a.txt''] [])) = Inr ()
     \<and> map_option status
          (pullRequests (snd (updatePullRequestStatus ?alice ''pr1'' Rejected None
                                (prWorld Open [''a.txt''] []))) ''pr1'') = Some Rejected"
    using pull_request_authorization
      [of ?alice alice "prWorld Open [''a.txt''] []" "''pr1''" "samplePR Open [''a.txt'']" None Rejected]
    by (simp add: envAt_def alice_def prWorld_def samplePR_def)
  have merged:
    "snd (mergePullRequest ?alice ''pr1'' None (prWorld Merged [''a.txt''] []))
       = prWorld Merged [''a.txt''] []
     \<and> fst (mergePullRequest ?alice ''pr1'' None (prWorld Merged [''a.txt''] []))
       = Inl ''This pull request is already merged''"
    using pull_request_authorization
      [of ?alice alice "prWorld Merged [''a.txt''] []" "''pr1''" "samplePR Merged [''a.txt'']" None
          Rejected]
    by (simp add: envAt_def alice_def prWorld_def samplePR_def statusString_def)
  then have "mergePullRequest ?alice ''pr1'' None (prWorld Merged [''a.txt''] [])
       = (Inl ''This pull request is already merged'', prWorld Merged [''a.txt''] [])"
    by (simp add: prod_eq_iff)
  with stranger owner show ?thesis by blast
qed


end
